(* ===== verification/Prelude.thy ===== *)
theory Prelude
  imports Main "HOL-Library.Word" "HOL-Library.Sublist" "HOL-Library.AList"
begin

text \<open>
  Shared vocabulary of the development: the exceptions the two example scripts can
  raise (neither script catches any, so every exception ends the script), the result
  type \<open>py_error + 'a\<close> with \<open>Inl\<close> for a raised exception, the collections of
  evaluation rules the component theories extend, and generic lemmas on lists and
  strings that several components use.
\<close>

named_theorems py_simps \<open>evaluation rules of the Python runtime model\<close>
named_theorems trace_simps \<open>rules that compute the effect trace of a script\<close>

section \<open>Exceptions\<close>

text \<open>
  One constructor per exception class the scripts can meet. The string argument is the
  part of the message that the code determines (a missing key, a type name, the node's
  rejection reason).
  \<^item> \<open>KeyError\<close>, \<open>TypeError\<close>, \<open>AttributeError\<close>: Python's subscript and
    attribute errors on a decoded message;
  \<^item> \<open>JSONDecodeError\<close>, \<open>RecursionError\<close>: \<^verbatim>\<open>json.loads\<close> on malformed or too
    deeply nested input;
  \<^item> \<open>ConnectionError\<close>: a transport failure of \<^verbatim>\<open>requests\<close> or \<^verbatim>\<open>websockets\<close>;
  \<^item> \<open>InvalidURL\<close>: \<^verbatim>\<open>requests\<close> refusing a URL without an \<open>http\<close> or \<open>https\<close>
    scheme (\<^verbatim>\<open>MissingSchema\<close>, \<^verbatim>\<open>InvalidSchema\<close>), or \<^verbatim>\<open>websockets\<close>
    refusing one without a \<open>ws\<close> or \<open>wss\<close> scheme (\<^verbatim>\<open>InvalidURI\<close>);
  \<^item> \<open>ConnectionClosedError\<close>: the websocket closed abnormally during
    \<^verbatim>\<open>async for\<close>;
  \<^item> \<open>ContractLogicError\<close>: \<^verbatim>\<open>eth_estimateGas\<close> reverted while web3 built a transaction;
  \<^item> \<open>ValueError\<close>: the node rejected a raw transaction (web3 v6 raises
    \<^verbatim>\<open>ValueError\<close> with the node's message), a private key or an ABI was
    refused, or a contract factory was asked to build a transaction;
  \<^item> \<open>InvalidAddress\<close>: web3 refusing a contract address that is not EIP-55
    checksummed;
  \<^item> \<open>FileNotFoundError\<close>: \<^verbatim>\<open>Path.read_text\<close> on a file that cannot be read;
  \<^item> \<open>Unmodelled\<close>: input outside the model (a code point of 256 or more, see the
    header of the root theory); not a Python exception.
\<close>

datatype py_error =
    KeyError string
  | TypeError string
  | AttributeError string
  | JSONDecodeError
  | RecursionError
  | ConnectionError
  | InvalidURL string
  | ConnectionClosedError
  | ContractLogicError
  | ValueError string
  | InvalidAddress string
  | FileNotFoundError string
  | Unmodelled

type_synonym 'a result = "py_error + 'a"

text \<open>Sequencing of computations that may raise: the first exception propagates.\<close>

definition res_bind :: "'a result \<Rightarrow> ('a \<Rightarrow> 'b result) \<Rightarrow> 'b result" where
  "res_bind r f = (case r of Inl e \<Rightarrow> Inl e | Inr a \<Rightarrow> f a)"

section \<open>ASCII case\<close>

definition lower_char :: "char \<Rightarrow> char" where
  "lower_char c =
     (if 65 \<le> (of_char c :: nat) \<and> (of_char c :: nat) \<le> 90 then char_of (of_char c + (32::nat)) else c)"

definition lower :: "string \<Rightarrow> string" where
  "lower s = map lower_char s"

section \<open>Generic lemmas\<close>

lemma case_sum_Inl_iff [simp]:
  "((case x of Inl e \<Rightarrow> Inl e | Inr a \<Rightarrow> f a) = Inr b) \<longleftrightarrow> (\<exists>a. x = Inr a \<and> f a = Inr b)"
  by (cases x) auto

lemma sublist_Cons_iff:
  "sublist xs (y # ys) \<longleftrightarrow> prefix xs (y # ys) \<or> sublist xs ys"
  by (metis sublist_Cons_right)

lemma find_append_new: "find P xs = None \<Longrightarrow> P s \<Longrightarrow> find P (xs @ [s]) = Some s"
  by (induction xs) auto

lemma find_replace: "find P xs = Some q \<Longrightarrow> P s \<Longrightarrow> find P (map (\<lambda>x. if x = q then s else x) xs) = Some s"
  by (induction xs) (auto split: if_splits)

lemma distinct_map_remove1: "distinct (map f xs) \<Longrightarrow> distinct (map f (remove1 x xs))"
  by (induction xs) (auto dest: subsetD [OF set_remove1_subset])

lemma distinct_map_remove1_other:
  "distinct (map f xs) \<Longrightarrow> x \<in> set xs \<Longrightarrow> y \<in> set (remove1 x xs) \<Longrightarrow> f y \<noteq> f x"
proof (induction xs)
  case Nil
  then show ?case by simp
next
  case (Cons a xs)
  show ?case
  proof (cases "a = x")
    case True
    with Cons.prems show ?thesis by (auto simp: image_iff)
  next
    case False
    with Cons.prems have "x \<in> set xs" and "y = a \<or> y \<in> set (remove1 x xs)" by auto
    with Cons.prems Cons.IH show ?thesis by (auto simp: image_iff)
  qed
qed

lemma set_map_replace: "set (map (\<lambda>q. if q = p then s else q) xs) \<subseteq> insert s (set xs)"
  by auto

lemma map_replace_same: "f s = f p \<Longrightarrow> map f (map (\<lambda>q. if q = p then s else q) xs) = map f xs"
  by (induction xs) auto

subsection \<open>Folds, association lists and characters\<close>

lemma foldr_max_ge: "x \<in> set xs \<Longrightarrow> f x \<le> foldr (\<lambda>x. max (f x)) xs (0::nat)"
  by (induction xs) auto

lemma foldr_max_le: "foldr (\<lambda>x. max (f x)) xs (0::nat) \<le> b \<longleftrightarrow> (\<forall>x\<in>set xs. f x \<le> b)"
  by (induction xs) auto

lemma foldr_max_less:
  "0 < b \<Longrightarrow> foldr (\<lambda>x. max (f x)) xs (0::nat) < b \<longleftrightarrow> (\<forall>x\<in>set xs. f x < b)"
  by (induction xs) auto

lemma update_fresh: "k \<notin> set (map fst al) \<Longrightarrow> AList.update k v al = al @ [(k, v)]"
  by (induction al) auto

lemma fold_update_distinct:
  "distinct (map fst (al @ ms)) \<Longrightarrow> fold (\<lambda>(k, v). AList.update k v) ms al = al @ ms"
proof (induction ms arbitrary: al)
  case (Cons m ms)
  obtain k v where m: "m = (k, v)" by (cases m)
  with Cons.prems have "AList.update k v al = al @ [(k, v)]" by (simp add: update_fresh)
  with Cons m show ?case by simp
qed simp

lemma update_keys: "distinct (map fst al) \<Longrightarrow> distinct (map fst (AList.update k v al))"
  by (simp add: distinct_update)

lemma update_vals: "(a, b) \<in> set (AList.update k v al) \<Longrightarrow> b = v \<or> (a, b) \<in> set al"
  by (induction al) (auto split: if_splits)

lemma of_char_char_of_nat [simp]: "n < 256 \<Longrightarrow> (of_char (char_of n :: char) :: nat) = n"
  by (simp add: of_char_of)

lemma char_of_48: "char_of (48::nat) = CHR ''0''"
  by code_simp

lemma lower_append: "lower (xs @ ys) = lower xs @ lower ys"
  by (simp add: lower_def)

lemma length_lower: "length (lower s) = length s"
  by (simp add: lower_def)

lemma res_bind_Inl [simp]: "res_bind (Inl e) f = Inl e"
  by (simp add: res_bind_def)

lemma res_bind_Inr [simp]: "res_bind (Inr a) f = f a"
  by (simp add: res_bind_def)

lemma res_bind_eq_Inr [py_simps]: "res_bind r f = Inr b \<longleftrightarrow> (\<exists>a. r = Inr a \<and> f a = Inr b)"
  by (cases r) simp_all

end
