(* ===== verification/PyRuntime.thy ===== *)
theory PyRuntime
  imports Prelude
begin

text \<open>
  The part of the Python runtime that \<^verbatim>\<open>src/examples/gateway_agent.py\<close> relies on:
  the values \<^verbatim>\<open>json.loads\<close> produces (\<open>pyval\<close>), dictionary access by
  \<^verbatim>\<open>d.get(k)\<close> and \<^verbatim>\<open>d[k]\<close> with their exceptions, \<^verbatim>\<open>str.replace\<close>, and the
  text \<^verbatim>\<open>str()\<close> and \<^verbatim>\<open>repr()\<close> give a value (used by the f-string of the submit
  URL and by \<^verbatim>\<open>print\<close>). These are library behaviours, modelled from CPython's
  documented semantics; the script's own lines are modelled in \<open>GatewayAgent\<close>.
\<close>

section \<open>Values\<close>

text \<open>
  A decoded JSON document: \<^verbatim>\<open>None\<close>, \<^verbatim>\<open>bool\<close>, \<^verbatim>\<open>int\<close> (unbounded),
  \<^verbatim>\<open>float\<close> (kept as the literal text it was read from), \<^verbatim>\<open>str\<close>, \<^verbatim>\<open>list\<close>
  and \<^verbatim>\<open>dict\<close> with string keys, as an association list in insertion order.
\<close>

datatype pyval =
    PNone
  | PBool bool
  | PInt int
  | PFloat string
  | PStr string
  | PList "pyval list"
  | PDict "(string \<times> pyval) list"

lemma pyval_size_PList: "x \<in> set xs \<Longrightarrow> size x < size (PList xs)"
  by (induction xs) auto

lemma pyval_size_PDict: "(k, v) \<in> set kvs \<Longrightarrow> size v < size (PDict kvs)"
  by (induction kvs) auto

fun type_name :: "pyval \<Rightarrow> string" where
  "type_name PNone = ''NoneType''"
| "type_name (PBool b) = ''bool''"
| "type_name (PInt i) = ''int''"
| "type_name (PFloat f) = ''float''"
| "type_name (PStr s) = ''str''"
| "type_name (PList xs) = ''list''"
| "type_name (PDict kvs) = ''dict''"

section \<open>Dictionary access\<close>

text \<open>
  \<^verbatim>\<open>d.get(k)\<close>: the value stored under \<open>k\<close>, \<^verbatim>\<open>None\<close> when there is none; on a
  value that is not a dict the attribute does not exist. \<^verbatim>\<open>d[k]\<close>: the value, or
  \<^verbatim>\<open>KeyError(k)\<close>; subscripting a list, a string or a scalar by a string raises
  \<^verbatim>\<open>TypeError\<close>.
\<close>

fun py_get :: "pyval \<Rightarrow> string \<Rightarrow> pyval result" where
  "py_get (PDict kvs) k = Inr (case map_of kvs k of None \<Rightarrow> PNone | Some v \<Rightarrow> v)"
| "py_get v k = Inl (AttributeError (type_name v))"

fun py_getitem :: "pyval \<Rightarrow> string \<Rightarrow> pyval result" where
  "py_getitem (PDict kvs) k = (case map_of kvs k of None \<Rightarrow> Inl (KeyError k) | Some v \<Rightarrow> Inr v)"
| "py_getitem v k = Inl (TypeError (type_name v))"

lemma py_get_Inr_iff [py_simps]:
  "py_get v k = Inr r \<longleftrightarrow> (\<exists>kvs. v = PDict kvs \<and> r = (case map_of kvs k of None \<Rightarrow> PNone | Some x \<Rightarrow> x))"
  by (cases v) auto

lemma py_getitem_Inr_iff [py_simps]:
  "py_getitem v k = Inr r \<longleftrightarrow> (\<exists>kvs. v = PDict kvs \<and> map_of kvs k = Some r)"
  by (cases v) (auto split: option.splits)

section \<open>str.replace\<close>

text \<open>
  \<^verbatim>\<open>s.replace(old, new)\<close> scans \<open>s\<close> from the left and replaces every
  non-overlapping occurrence of \<open>old\<close>; an empty \<open>old\<close> inserts \<open>new\<close> before
  every character and at the end.
\<close>

function str_replace :: "string \<Rightarrow> string \<Rightarrow> string \<Rightarrow> string" where
  "str_replace old new s =
     (if old = [] then new @ concat (map (\<lambda>c. c # new) s)
      else if prefix old s then new @ str_replace old new (drop (length old) s)
      else case s of [] \<Rightarrow> [] | c # cs \<Rightarrow> c # str_replace old new cs)"
  by pat_completeness auto
termination
proof (relation "measure (\<lambda>(old, new, s). length s)")
  fix old new s :: string
  assume "old \<noteq> []" and "prefix old s"
  then have "0 < length old" and "length old \<le> length s"
    by (auto dest: prefix_length_le)
  then have "length s - length old < length s"
    by linarith
  then show "((old, new, drop (length old) s), old, new, s) \<in> measure (\<lambda>(old, new, s). length s)"
    by simp
qed auto

declare str_replace.simps [simp del]

lemma str_replace_Nil [simp]: "old \<noteq> [] \<Longrightarrow> str_replace old new [] = []"
  by (subst str_replace.simps) simp

lemma str_replace_prefix:
  "old \<noteq> [] \<Longrightarrow> prefix old s \<Longrightarrow>
     str_replace old new s = new @ str_replace old new (drop (length old) s)"
  by (subst str_replace.simps) simp

lemma str_replace_Cons:
  "old \<noteq> [] \<Longrightarrow> \<not> prefix old (c # s) \<Longrightarrow> str_replace old new (c # s) = c # str_replace old new s"
  by (subst str_replace.simps) simp

text \<open>
  With \<open>old = ''http''\<close> and \<open>new = ''ws''\<close> no occurrence of \<open>http\<close> survives:
  the characters of \<open>ws\<close> cannot take part in one, so any occurrence in the result
  would already have been an occurrence in the input at that position.
\<close>

lemma str_replace_http_Cons:
  assumes "str_replace ''http'' ''ws'' s = c # r" and "c \<noteq> CHR ''w''"
  shows "\<exists>s'. s = c # s' \<and> r = str_replace ''http'' ''ws'' s' \<and> \<not> prefix ''http'' s"
proof (cases s)
  case Nil
  with assms show ?thesis by simp
next
  case (Cons d s')
  show ?thesis
  proof (cases "prefix ''http'' s")
    case True
    with assms show ?thesis by (simp add: str_replace_prefix)
  next
    case False
    with Cons assms show ?thesis by (simp add: str_replace_Cons)
  qed
qed

lemma str_replace_no_match:
  "old \<noteq> [] \<Longrightarrow> \<not> sublist old s \<Longrightarrow> str_replace old new s = s"
  by (induction s) (auto simp: str_replace_Cons sublist_Cons_iff)

lemma str_replace_http_gone: "\<not> sublist ''http'' (str_replace ''http'' ''ws'' s)"
proof (induction "length s" arbitrary: s rule: less_induct)
  case less
  show ?case
  proof (cases "prefix ''http'' s")
    case True
    then obtain t where s: "s = ''http'' @ t" by (auto simp: prefix_def)
    then have "\<not> sublist ''http'' (str_replace ''http'' ''ws'' t)"
      by (intro less) simp
    with s True show ?thesis by (simp add: str_replace_prefix sublist_Cons_iff)
  next
    case False
    show ?thesis
    proof (cases s)
      case Nil
      then show ?thesis by simp
    next
      case (Cons c cs)
      have IH: "\<not> sublist ''http'' (str_replace ''http'' ''ws'' cs)"
        using Cons by (intro less) simp
      have "\<not> prefix ''http'' (c # str_replace ''http'' ''ws'' cs)"
      proof
        assume p: "prefix ''http'' (c # str_replace ''http'' ''ws'' cs)"
        then obtain r1 where "c = CHR ''h''" and r1: "str_replace ''http'' ''ws'' cs = CHR ''t'' # r1"
          by (auto simp: prefix_def)
        from str_replace_http_Cons [OF r1] obtain cs1 where cs1: "cs = CHR ''t'' # cs1" and "r1 = str_replace ''http'' ''ws'' cs1"
          by auto
        with p r1 obtain r2 where r2: "str_replace ''http'' ''ws'' cs1 = CHR ''t'' # r2"
          by (auto simp: prefix_def)
        from str_replace_http_Cons [OF r2] obtain cs2 where cs2: "cs1 = CHR ''t'' # cs2" and "r2 = str_replace ''http'' ''ws'' cs2"
          by auto
        with p r1 r2 \<open>r1 = _\<close> obtain r3 where r3: "str_replace ''http'' ''ws'' cs2 = CHR ''p'' # r3"
          by (auto simp: prefix_def)
        from str_replace_http_Cons [OF r3] obtain cs3 where "cs2 = CHR ''p'' # cs3"
          by auto
        with False Cons \<open>c = _\<close> cs1 cs2 show False by simp
      qed
      with IH False Cons show ?thesis by (simp add: str_replace_Cons sublist_Cons_iff)
    qed
  qed
qed

section \<open>repr and str\<close>

text \<open>
  Decimal text of an \<^verbatim>\<open>int\<close>; two lowercase hex digits for a \<^verbatim>\<open>\\xhh\<close> escape.
\<close>

fun nat_digits :: "nat \<Rightarrow> string" where
  "nat_digits n =
     (if n < 10 then [char_of (48 + n)] else nat_digits (n div 10) @ [char_of (48 + n mod 10)])"

declare nat_digits.simps [simp del]

definition int_repr :: "int \<Rightarrow> string" where
  "int_repr i = (if i < 0 then CHR ''-'' # nat_digits (nat (- i)) else nat_digits (nat i))"

definition hex_digit :: "nat \<Rightarrow> char" where
  "hex_digit n = (if n < 10 then char_of (48 + n) else char_of (87 + n))"

definition hex2 :: "nat \<Rightarrow> string" where
  "hex2 n = [hex_digit (n div 16), hex_digit (n mod 16)]"

text \<open>
  CPython's \<^verbatim>\<open>unicode_repr\<close> on code points below 256: the quote is \<open>'\<close> unless the
  text holds \<open>'\<close> and no \<open>"\<close>; the quote and the backslash are escaped, tab, line
  feed and carriage return get their short escapes, and the characters that are not
  printable (below 32, 127, 128 to 160, 173) become \<^verbatim>\<open>\\xhh\<close>.
\<close>

definition repr_printable :: "char \<Rightarrow> bool" where
  "repr_printable c =
     (let n = (of_char c :: nat) in (32 \<le> n \<and> n < 127) \<or> (161 \<le> n \<and> n \<noteq> 173))"

definition repr_char :: "char \<Rightarrow> char \<Rightarrow> string" where
  "repr_char q c =
     (if c = q \<or> c = CHR 0x5C then [CHR 0x5C, c]
      else if c = CHR 0x09 then [CHR 0x5C, CHR ''t'']
      else if c = CHR 0x0A then [CHR 0x5C, CHR ''n'']
      else if c = CHR 0x0D then [CHR 0x5C, CHR ''r'']
      else if repr_printable c then [c]
      else CHR 0x5C # CHR ''x'' # hex2 (of_char c))"

definition repr_str :: "string \<Rightarrow> string" where
  "repr_str s =
     (let q = (if CHR 0x27 \<in> set s \<and> CHR 0x22 \<notin> set s then CHR 0x22 else CHR 0x27)
      in q # concat (map (repr_char q) s) @ [q])"

text \<open>
  A float is kept as the literal it was decoded from. Python prints the shortest text
  that reads back to the same double, which agrees with the literal for the literals
  Python itself prints (\<open>1.5\<close>, \<open>2e-07\<close>) and not for others (\<open>1.50\<close>); the
  constants \<open>NaN\<close> and \<open>Infinity\<close> print as \<open>nan\<close> and \<open>inf\<close>.
\<close>

definition float_repr :: "string \<Rightarrow> string" where
  "float_repr f =
     (if f = ''NaN'' then ''nan'' else if f = ''Infinity'' then ''inf''
      else if f = ''-Infinity'' then ''-inf'' else f)"

fun join :: "string \<Rightarrow> string list \<Rightarrow> string" where
  "join sep [] = []"
| "join sep [x] = x"
| "join sep (x # y # zs) = x @ sep @ join sep (y # zs)"

function py_repr :: "pyval \<Rightarrow> string" where
  "py_repr PNone = ''None''"
| "py_repr (PBool b) = (if b then ''True'' else ''False'')"
| "py_repr (PInt i) = int_repr i"
| "py_repr (PFloat f) = float_repr f"
| "py_repr (PStr s) = repr_str s"
| "py_repr (PList xs) = CHR ''['' # join '', '' (map py_repr xs) @ '']''"
| "py_repr (PDict kvs) =
     CHR ''{'' # join '', '' (map (\<lambda>(k, v). repr_str k @ '': '' @ py_repr v) kvs) @ ''}''"
  by pat_completeness auto
termination
  by (relation "measure size") (auto dest: pyval_size_PList pyval_size_PDict)

text \<open>\<^verbatim>\<open>str(x)\<close> is the text itself for a string and \<^verbatim>\<open>repr(x)\<close> otherwise.\<close>

fun py_str :: "pyval \<Rightarrow> string" where
  "py_str (PStr s) = s"
| "py_str v = py_repr v"

lemma join_Cons: "join sep (x # xs) = x @ concat (map (\<lambda>y. sep @ y) xs)"
  by (induction xs arbitrary: x) auto

end
