(* ===== verification/Json.thy ===== *)
theory Json
  imports PyRuntime
begin

text \<open>
  Python's \<^verbatim>\<open>json\<close> module as the gateway agent uses it: \<^verbatim>\<open>json.dumps\<close> with
  its defaults (separators \<^verbatim>\<open>', '\<close> and \<^verbatim>\<open>': '\<close>, \<^verbatim>\<open>ensure_ascii\<close>) and
  \<^verbatim>\<open>json.loads\<close>. The decoder is written as a pushdown automaton that reads one
  character per step (\<open>json_step\<close>, run by \<open>json_run\<close>), so it terminates by
  structural recursion on the input; its stack of open containers plays the part of
  the C scanner's recursion, and opening a container beyond the recursion budget
  \<open>lim\<close> raises \<^verbatim>\<open>RecursionError\<close> as \<^verbatim>\<open>Py_EnterRecursiveCall\<close> does.
  The main facts are that printing a well-formed value and decoding it gives it back
  (\<open>dumps_init\<close>), that everything the decoder returns is well formed
  (\<open>decoded_wf\<close>), and that \<^verbatim>\<open>json.dumps\<close> prints only printable ASCII.
  Integers are unbounded: CPython's limit of 4300 digits on converting between
  \<^verbatim>\<open>int\<close> and \<^verbatim>\<open>str\<close> (a \<^verbatim>\<open>ValueError\<close> in both directions) is not
  modelled, so the facts are stated about values the decoder produced.
\<close>

section \<open>json.dumps\<close>

text \<open>
  \<^verbatim>\<open>ascii_escape_unicode\<close>: printable ASCII other than the quote and the backslash
  is copied, the quote, the backslash and five control characters get short escapes,
  everything else becomes \<^verbatim>\<open>\\u00hh\<close>.
\<close>

definition dumps_char :: "char \<Rightarrow> string" where
  "dumps_char c =
     (if c = CHR 0x22 then [CHR 0x5C, CHR 0x22]
      else if c = CHR 0x5C then [CHR 0x5C, CHR 0x5C]
      else if c = CHR 0x0A then [CHR 0x5C, CHR ''n'']
      else if c = CHR 0x0D then [CHR 0x5C, CHR ''r'']
      else if c = CHR 0x09 then [CHR 0x5C, CHR ''t'']
      else if c = CHR 0x08 then [CHR 0x5C, CHR ''b'']
      else if c = CHR 0x0C then [CHR 0x5C, CHR ''f'']
      else if 32 \<le> (of_char c :: nat) \<and> (of_char c :: nat) < 127 then [c]
      else CHR 0x5C # CHR ''u'' # CHR ''0'' # CHR ''0'' # hex2 (of_char c))"

definition dumps_str :: "string \<Rightarrow> string" where
  "dumps_str s = CHR 0x22 # concat (map dumps_char s) @ [CHR 0x22]"

function json_dumps :: "pyval \<Rightarrow> string" where
  "json_dumps PNone = ''null''"
| "json_dumps (PBool b) = (if b then ''true'' else ''false'')"
| "json_dumps (PInt i) = int_repr i"
| "json_dumps (PFloat f) = f"
| "json_dumps (PStr s) = dumps_str s"
| "json_dumps (PList xs) = CHR ''['' # join '', '' (map json_dumps xs) @ '']''"
| "json_dumps (PDict kvs) =
     CHR ''{'' # join '', '' (map (\<lambda>(k, v). dumps_str k @ '': '' @ json_dumps v) kvs) @ ''}''"
  by pat_completeness auto
termination
  by (relation "measure size") (auto dest: pyval_size_PList pyval_size_PDict)

section \<open>json.loads\<close>

subsection \<open>Lexical classes\<close>

definition is_ws :: "char \<Rightarrow> bool" where
  "is_ws c \<longleftrightarrow> c = CHR '' '' \<or> c = CHR 0x09 \<or> c = CHR 0x0A \<or> c = CHR 0x0D"

definition is_digit :: "char \<Rightarrow> bool" where
  "is_digit c \<longleftrightarrow> 48 \<le> (of_char c :: nat) \<and> (of_char c :: nat) \<le> 57"

definition hex_value :: "char \<Rightarrow> nat option" where
  "hex_value c =
     (let n = (of_char c :: nat) in
      if 48 \<le> n \<and> n \<le> 57 then Some (n - 48)
      else if 97 \<le> n \<and> n \<le> 102 then Some (n - 87)
      else if 65 \<le> n \<and> n \<le> 70 then Some (n - 55)
      else None)"

subsection \<open>Numbers\<close>

text \<open>
  The number grammar \<^verbatim>\<open>-?(0|[1-9][0-9]*)(\.[0-9]+)?([eE][-+]?[0-9]+)?\<close> as an
  automaton. CPython's \<^verbatim>\<open>_match_number_unicode\<close> backtracks over a \<^verbatim>\<open>.\<close> or an
  exponent marker that is not followed by digits and leaves it unread; in every
  context such a character is then a syntax error, so rejecting it here gives the same
  outcome.
\<close>

datatype nstate = NStart | NSign | NZero | NInt | NFracStart | NFrac | NExpStart | NExpSign | NExp

fun num_next :: "nstate \<Rightarrow> char \<Rightarrow> nstate option" where
  "num_next NStart c =
     (if c = CHR ''-'' then Some NSign else if c = CHR ''0'' then Some NZero
      else if is_digit c then Some NInt else None)"
| "num_next NSign c =
     (if c = CHR ''0'' then Some NZero else if is_digit c then Some NInt else None)"
| "num_next NZero c =
     (if c = CHR ''.'' then Some NFracStart
      else if c = CHR ''e'' \<or> c = CHR ''E'' then Some NExpStart else None)"
| "num_next NInt c =
     (if is_digit c then Some NInt else if c = CHR ''.'' then Some NFracStart
      else if c = CHR ''e'' \<or> c = CHR ''E'' then Some NExpStart else None)"
| "num_next NFracStart c = (if is_digit c then Some NFrac else None)"
| "num_next NFrac c =
     (if is_digit c then Some NFrac
      else if c = CHR ''e'' \<or> c = CHR ''E'' then Some NExpStart else None)"
| "num_next NExpStart c =
     (if c = CHR ''+'' \<or> c = CHR ''-'' then Some NExpSign
      else if is_digit c then Some NExp else None)"
| "num_next NExpSign c = (if is_digit c then Some NExp else None)"
| "num_next NExp c = (if is_digit c then Some NExp else None)"

fun num_accepting :: "nstate \<Rightarrow> bool" where
  "num_accepting NZero = True"
| "num_accepting NInt = True"
| "num_accepting NFrac = True"
| "num_accepting NExp = True"
| "num_accepting _ = False"

definition digits_value :: "string \<Rightarrow> nat" where
  "digits_value ds = foldl (\<lambda>n c. 10 * n + (of_char c - 48)) 0 ds"

definition lit_int :: "string \<Rightarrow> int" where
  "lit_int s = (case s of c # ds \<Rightarrow> if c = CHR ''-'' then - int (digits_value ds)
                                    else int (digits_value s)
                         | [] \<Rightarrow> 0)"

text \<open>An integer literal becomes an \<^verbatim>\<open>int\<close>, one with a fraction or exponent a \<^verbatim>\<open>float\<close>.\<close>

definition num_value :: "nstate \<Rightarrow> string \<Rightarrow> pyval" where
  "num_value ns lit = (if ns = NZero \<or> ns = NInt then PInt (lit_int lit) else PFloat lit)"

subsection \<open>Decoder state\<close>

datatype esc = ENone | EBackslash | EHex nat nat

datatype frame =
    FList "pyval list"                              \<comment> \<open>elements read so far, last first\<close>
  | FDict "(string \<times> pyval) list"                  \<comment> \<open>members read so far\<close>
  | FDictV "(string \<times> pyval) list" string          \<comment> \<open>members, and the key whose value is read\<close>

datatype mode =
    MValue | MListFirst | MDictFirst | MKey | MColon | MAfter
  | MStr bool string esc      \<comment> \<open>a key or a value string, characters read so far (last first)\<close>
  | MNum nstate string        \<comment> \<open>number automaton state, literal read so far (last first)\<close>
  | MLit string pyval         \<comment> \<open>rest of \<open>null\<close>, \<open>true\<close>, \<open>false\<close>, \<open>NaN\<close> or \<open>Infinity\<close>\<close>

record pstate =
  ps_mode :: mode
  ps_stack :: "frame list"
  ps_result :: "pyval option"

definition json_init :: pstate where
  "json_init = \<lparr>ps_mode = MValue, ps_stack = [], ps_result = None\<rparr>"

text \<open>A finished value goes into the innermost open container, or is the document.\<close>

fun deliver :: "pyval \<Rightarrow> frame list \<Rightarrow> pyval option \<Rightarrow> pstate result" where
  "deliver v [] r = Inr \<lparr>ps_mode = MAfter, ps_stack = [], ps_result = Some v\<rparr>"
| "deliver v (FList xs # stk) r = Inr \<lparr>ps_mode = MAfter, ps_stack = FList (v # xs) # stk, ps_result = r\<rparr>"
| "deliver v (FDictV kvs k # stk) r =
     Inr \<lparr>ps_mode = MAfter, ps_stack = FDict (AList.update k v kvs) # stk, ps_result = r\<rparr>"
| "deliver v (FDict kvs # stk) r = Inl JSONDecodeError"

definition deliver_st :: "pyval \<Rightarrow> pstate \<Rightarrow> pstate result" where
  "deliver_st v st = deliver v (ps_stack st) (ps_result st)"

text \<open>Opening a container: one level of the scanner's recursion.\<close>

definition open_container :: "nat \<Rightarrow> frame \<Rightarrow> mode \<Rightarrow> pstate \<Rightarrow> pstate result" where
  "open_container lim f m st =
     (if lim \<le> length (ps_stack st) then Inl RecursionError
      else Inr (st\<lparr>ps_mode := m, ps_stack := f # ps_stack st\<rparr>))"

subsection \<open>One character\<close>

text \<open>A value starts: \<^verbatim>\<open>scan_once_unicode\<close>.\<close>

definition step_value :: "nat \<Rightarrow> pstate \<Rightarrow> char \<Rightarrow> pstate result" where
  "step_value lim st c =
     (if is_ws c then Inr st
      else if c = CHR 0x22 then Inr (st\<lparr>ps_mode := MStr False [] ENone\<rparr>)
      else if c = CHR ''['' then open_container lim (FList []) MListFirst st
      else if c = CHR ''{'' then open_container lim (FDict []) MDictFirst st
      else if c = CHR ''n'' then Inr (st\<lparr>ps_mode := MLit ''ull'' PNone\<rparr>)
      else if c = CHR ''t'' then Inr (st\<lparr>ps_mode := MLit ''rue'' (PBool True)\<rparr>)
      else if c = CHR ''f'' then Inr (st\<lparr>ps_mode := MLit ''alse'' (PBool False)\<rparr>)
      else if c = CHR ''N'' then Inr (st\<lparr>ps_mode := MLit ''aN'' (PFloat ''NaN'')\<rparr>)
      else if c = CHR ''I'' then Inr (st\<lparr>ps_mode := MLit ''nfinity'' (PFloat ''Infinity'')\<rparr>)
      else case num_next NStart c of
             Some ns \<Rightarrow> Inr (st\<lparr>ps_mode := MNum ns [c]\<rparr>)
           | None \<Rightarrow> Inl JSONDecodeError)"

text \<open>After a value: a separator, a closing bracket, or the end of the document.\<close>

definition step_after :: "pstate \<Rightarrow> char \<Rightarrow> pstate result" where
  "step_after st c =
     (if is_ws c then Inr st
      else case ps_stack st of
        FList xs # stk \<Rightarrow>
          if c = CHR '','' then Inr (st\<lparr>ps_mode := MValue\<rparr>)
          else if c = CHR '']'' then deliver (PList (rev xs)) stk (ps_result st)
          else Inl JSONDecodeError
      | FDict kvs # stk \<Rightarrow>
          if c = CHR '','' then Inr (st\<lparr>ps_mode := MKey\<rparr>)
          else if c = CHR ''}'' then deliver (PDict kvs) stk (ps_result st)
          else Inl JSONDecodeError
      | _ \<Rightarrow> Inl JSONDecodeError)"

text \<open>
  Inside a string: \<^verbatim>\<open>scanstring_unicode\<close> in strict mode, which refuses raw control
  characters. A \<^verbatim>\<open>\\uXXXX\<close> escape of 256 or more leaves the 8-bit model.
\<close>

definition short_escape :: "char \<Rightarrow> char option" where
  "short_escape c =
     (if c = CHR 0x22 \<or> c = CHR 0x5C \<or> c = CHR ''/'' then Some c
      else if c = CHR ''b'' then Some (CHR 0x08)
      else if c = CHR ''f'' then Some (CHR 0x0C)
      else if c = CHR ''n'' then Some (CHR 0x0A)
      else if c = CHR ''r'' then Some (CHR 0x0D)
      else if c = CHR ''t'' then Some (CHR 0x09)
      else None)"

definition end_string :: "bool \<Rightarrow> string \<Rightarrow> pstate \<Rightarrow> pstate result" where
  "end_string is_key s st =
     (if is_key then
        (case ps_stack st of
           FDict kvs # stk \<Rightarrow> Inr (st\<lparr>ps_mode := MColon, ps_stack := FDictV kvs s # stk\<rparr>)
         | _ \<Rightarrow> Inl JSONDecodeError)
      else deliver_st (PStr s) st)"

fun step_str :: "bool \<Rightarrow> string \<Rightarrow> esc \<Rightarrow> pstate \<Rightarrow> char \<Rightarrow> pstate result" where
  "step_str k acc ENone st c =
     (if c = CHR 0x22 then end_string k (rev acc) st
      else if c = CHR 0x5C then Inr (st\<lparr>ps_mode := MStr k acc EBackslash\<rparr>)
      else if (of_char c :: nat) < 32 then Inl JSONDecodeError
      else Inr (st\<lparr>ps_mode := MStr k (c # acc) ENone\<rparr>))"
| "step_str k acc EBackslash st c =
     (if c = CHR ''u'' then Inr (st\<lparr>ps_mode := MStr k acc (EHex 0 0)\<rparr>)
      else case short_escape c of
             Some d \<Rightarrow> Inr (st\<lparr>ps_mode := MStr k (d # acc) ENone\<rparr>)
           | None \<Rightarrow> Inl JSONDecodeError)"
| "step_str k acc (EHex n v) st c =
     (case hex_value c of
        None \<Rightarrow> Inl JSONDecodeError
      | Some d \<Rightarrow>
          if n < 3 then Inr (st\<lparr>ps_mode := MStr k acc (EHex (Suc n) (16 * v + d))\<rparr>)
          else if 16 * v + d < 256 then Inr (st\<lparr>ps_mode := MStr k (char_of (16 * v + d) # acc) ENone\<rparr>)
          else Inl Unmodelled)"

text \<open>
  Inside a number: a character that extends it is read; any other character first
  closes the number (when it is complete) and is then read after the value. After a
  lone \<open>-\<close>, an \<open>I\<close> starts \<open>-Infinity\<close>.
\<close>

definition step_num :: "nstate \<Rightarrow> string \<Rightarrow> pstate \<Rightarrow> char \<Rightarrow> pstate result" where
  "step_num ns lit st c =
     (if ns = NSign \<and> c = CHR ''I'' then Inr (st\<lparr>ps_mode := MLit ''nfinity'' (PFloat ''-Infinity'')\<rparr>)
      else case num_next ns c of
        Some ns' \<Rightarrow> Inr (st\<lparr>ps_mode := MNum ns' (c # lit)\<rparr>)
      | None \<Rightarrow>
          if num_accepting ns then
            (case deliver_st (num_value ns (rev lit)) st of
               Inl e \<Rightarrow> Inl e
             | Inr st' \<Rightarrow> step_after st' c)
          else Inl JSONDecodeError)"

definition step_lit :: "string \<Rightarrow> pyval \<Rightarrow> pstate \<Rightarrow> char \<Rightarrow> pstate result" where
  "step_lit rest v st c =
     (case rest of
        [] \<Rightarrow> Inl JSONDecodeError
      | d # ds \<Rightarrow>
          if c \<noteq> d then Inl JSONDecodeError
          else if ds = [] then deliver_st v st
          else Inr (st\<lparr>ps_mode := MLit ds v\<rparr>))"

fun json_step :: "nat \<Rightarrow> pstate \<Rightarrow> char \<Rightarrow> pstate result" where
  "json_step lim st c =
     (case ps_mode st of
        MValue \<Rightarrow> step_value lim st c
      | MListFirst \<Rightarrow>
          if c = CHR '']'' then
            (case ps_stack st of
               FList [] # stk \<Rightarrow> deliver (PList []) stk (ps_result st)
             | _ \<Rightarrow> Inl JSONDecodeError)
          else step_value lim st c
      | MDictFirst \<Rightarrow>
          if is_ws c then Inr st
          else if c = CHR 0x22 then Inr (st\<lparr>ps_mode := MStr True [] ENone\<rparr>)
          else if c = CHR ''}'' then
            (case ps_stack st of
               FDict [] # stk \<Rightarrow> deliver (PDict []) stk (ps_result st)
             | _ \<Rightarrow> Inl JSONDecodeError)
          else Inl JSONDecodeError
      | MKey \<Rightarrow>
          if is_ws c then Inr st
          else if c = CHR 0x22 then Inr (st\<lparr>ps_mode := MStr True [] ENone\<rparr>)
          else Inl JSONDecodeError
      | MColon \<Rightarrow>
          if is_ws c then Inr st
          else if c = CHR '':'' then Inr (st\<lparr>ps_mode := MValue\<rparr>)
          else Inl JSONDecodeError
      | MAfter \<Rightarrow> step_after st c
      | MStr k acc e \<Rightarrow> step_str k acc e st c
      | MNum ns lit \<Rightarrow> step_num ns lit st c
      | MLit rest v \<Rightarrow> step_lit rest v st c)"

fun json_run :: "nat \<Rightarrow> pstate \<Rightarrow> string \<Rightarrow> pstate result" where
  "json_run lim st [] = Inr st"
| "json_run lim st (c # cs) =
     (case json_step lim st c of Inl e \<Rightarrow> Inl e | Inr st' \<Rightarrow> json_run lim st' cs)"

text \<open>End of input: a complete document and nothing but white space after it.\<close>

definition json_finish :: "pstate \<Rightarrow> pyval result" where
  "json_finish st =
     (case ps_mode st of
        MAfter \<Rightarrow> (case (ps_stack st, ps_result st) of
                    ([], Some v) \<Rightarrow> Inr v
                  | _ \<Rightarrow> Inl JSONDecodeError)
      | MNum ns lit \<Rightarrow>
          if ps_stack st = [] \<and> num_accepting ns then Inr (num_value ns (rev lit))
          else Inl JSONDecodeError
      | _ \<Rightarrow> Inl JSONDecodeError)"

definition json_loads :: "nat \<Rightarrow> string \<Rightarrow> pyval result" where
  "json_loads lim s = (case json_run lim json_init s of Inl e \<Rightarrow> Inl e | Inr st \<Rightarrow> json_finish st)"

section \<open>Well-formed documents\<close>

text \<open>
  The values \<open>json_dumps\<close> prints so that \<open>json_loads\<close> reads them back: a float is one
  of the three special literals or a number literal with a fraction or an exponent (the
  text Python's \<^verbatim>\<open>float.__repr__\<close> produces), and an object has distinct keys.
  \<open>json_depth\<close> counts nested containers; \<open>num_run\<close> runs the number automaton.
\<close>

fun num_run :: "nstate \<Rightarrow> string \<Rightarrow> nstate option" where
  "num_run ns [] = Some ns"
| "num_run ns (c # cs) = (case num_next ns c of None \<Rightarrow> None | Some ns' \<Rightarrow> num_run ns' cs)"

definition float_lit :: "string \<Rightarrow> bool" where
  "float_lit f \<longleftrightarrow> f = ''NaN'' \<or> f = ''Infinity'' \<or> f = ''-Infinity'' \<or>
     (case num_run NStart f of Some ns \<Rightarrow> num_accepting ns \<and> ns \<noteq> NZero \<and> ns \<noteq> NInt | None \<Rightarrow> False)"

function json_wf :: "pyval \<Rightarrow> bool" where
  "json_wf PNone = True"
| "json_wf (PBool b) = True"
| "json_wf (PInt i) = True"
| "json_wf (PFloat f) = float_lit f"
| "json_wf (PStr s) = True"
| "json_wf (PList xs) = (\<forall>x\<in>set xs. json_wf x)"
| "json_wf (PDict kvs) = (distinct (map fst kvs) \<and> (\<forall>(k, v)\<in>set kvs. json_wf v))"
  by pat_completeness auto
termination
  by (relation "measure size") (auto dest: pyval_size_PList pyval_size_PDict)

function json_depth :: "pyval \<Rightarrow> nat" where
  "json_depth (PList xs) = Suc (foldr (\<lambda>x. max (json_depth x)) xs 0)"
| "json_depth (PDict kvs) = Suc (foldr (\<lambda>(k, v). max (json_depth v)) kvs 0)"
| "json_depth PNone = 0"
| "json_depth (PBool b) = 0"
| "json_depth (PInt i) = 0"
| "json_depth (PFloat f) = 0"
| "json_depth (PStr s) = 0"
  by pat_completeness auto
termination
  by (relation "measure size") (auto dest: pyval_size_PList pyval_size_PDict)

text \<open>
  Proof devices. \<open>json_parse_from\<close> runs the decoder from any state to the end of the input;
  \<open>follow_ok\<close> says that the text after a number cannot extend it; \<open>parses_at lim v\<close>
  says that printing \<open>v\<close> and reading the text from a state waiting for a value delivers
  \<open>v\<close> to that state. \<open>dec_inv\<close> is the decoder's invariant: every value held in the
  stack, in a pending literal or as the result is well formed, containers' keys are
  distinct, and values held at stack height \<open>n\<close> leave room for \<open>n\<close> more levels.
\<close>

definition json_parse_from :: "nat \<Rightarrow> pstate \<Rightarrow> string \<Rightarrow> pyval result" where
  "json_parse_from lim st s = (case json_run lim st s of Inl e \<Rightarrow> Inl e | Inr st' \<Rightarrow> json_finish st')"

definition num_continues :: "char \<Rightarrow> bool" where
  "num_continues c \<longleftrightarrow> is_digit c \<or> c = CHR ''.'' \<or> c = CHR ''e'' \<or> c = CHR ''E''"

definition follow_ok :: "string \<Rightarrow> bool" where
  "follow_ok rest \<longleftrightarrow> (case rest of [] \<Rightarrow> True | c # _ \<Rightarrow> \<not> num_continues c)"

definition parses_at :: "nat \<Rightarrow> pyval \<Rightarrow> bool" where
  "parses_at lim v \<longleftrightarrow>
     (\<forall>st rest. ps_mode st = MValue \<longrightarrow> length (ps_stack st) + json_depth v \<le> lim \<longrightarrow> follow_ok rest \<longrightarrow>
        json_parse_from lim st (json_dumps v @ rest) =
        (case deliver_st v st of Inl e \<Rightarrow> Inl e | Inr st' \<Rightarrow> json_parse_from lim st' rest))"

fun frame_vals :: "frame \<Rightarrow> pyval list" where
  "frame_vals (FList xs) = xs"
| "frame_vals (FDict kvs) = map snd kvs"
| "frame_vals (FDictV kvs k) = map snd kvs"

fun frame_keys_ok :: "frame \<Rightarrow> bool" where
  "frame_keys_ok (FList xs) = True"
| "frame_keys_ok (FDict kvs) = distinct (map fst kvs)"
| "frame_keys_ok (FDictV kvs k) = distinct (map fst kvs)"

fun stack_ok :: "nat \<Rightarrow> frame list \<Rightarrow> bool" where
  "stack_ok lim [] = True"
| "stack_ok lim (f # stk) =
     (length stk < lim \<and> frame_keys_ok f \<and>
      (\<forall>v\<in>set (frame_vals f). json_wf v \<and> json_depth v < lim - length stk) \<and> stack_ok lim stk)"

fun mode_ok :: "mode \<Rightarrow> bool" where
  "mode_ok (MNum ns lit) = (num_run NStart (rev lit) = Some ns)"
| "mode_ok (MLit w v) = (json_wf v \<and> json_depth v = 0)"
| "mode_ok _ = True"

definition dec_inv :: "nat \<Rightarrow> pstate \<Rightarrow> bool" where
  "dec_inv lim st \<longleftrightarrow> stack_ok lim (ps_stack st) \<and> mode_ok (ps_mode st) \<and>
     (case ps_result st of None \<Rightarrow> True | Some v \<Rightarrow> json_wf v \<and> json_depth v \<le> lim)"

text \<open>
  \<open>printable_ascii s\<close> says that every character of \<open>s\<close> is printable ASCII
  (code 32 to 126), the alphabet of \<^verbatim>\<open>json.dumps\<close> with \<^verbatim>\<open>ensure_ascii\<close>.
\<close>

definition printable_ascii :: "string \<Rightarrow> bool" where
  "printable_ascii s \<longleftrightarrow> list_all (\<lambda>c. 32 \<le> (of_char c :: nat) \<and> (of_char c :: nat) < 127) s"

section \<open>The decoder reads back what the encoder prints\<close>

lemma json_parse_from_Nil: "json_parse_from lim st [] = json_finish st"
  by (simp add: json_parse_from_def)

lemma json_parse_from_Cons:
  "json_parse_from lim st (c # cs) = (case json_step lim st c of Inl e \<Rightarrow> Inl e | Inr st' \<Rightarrow> json_parse_from lim st' cs)"
  by (simp add: json_parse_from_def split: sum.splits)

declare json_step.simps [simp del]

subsection \<open>Literal words\<close>

lemma parse_lit:
  assumes "w \<noteq> []"
  shows "json_parse_from lim (st\<lparr>ps_mode := MLit w v\<rparr>) (w @ rest) =
         (case deliver_st v st of Inl e \<Rightarrow> Inl e | Inr st' \<Rightarrow> json_parse_from lim st' rest)"
  using assms
proof (induction w)
  case Nil
  then show ?case by simp
next
  case (Cons d ds)
  show ?case
  proof (cases ds)
    case Nil
    then show ?thesis
      by (simp add: json_parse_from_Cons json_step.simps step_lit_def deliver_st_def split: sum.splits)
  next
    case (Cons d' ds')
    then have "json_step lim (st\<lparr>ps_mode := MLit (d # ds) v\<rparr>) d = Inr (st\<lparr>ps_mode := MLit ds v\<rparr>)"
      by (simp add: json_step.simps step_lit_def)
    with Cons.IH Cons show ?thesis
      by (simp add: json_parse_from_Cons)
  qed
qed

subsection \<open>Numbers\<close>

lemma num_next_no_I: "num_next ns (CHR ''I'') = None"
  by (cases ns) (simp_all add: is_digit_def)

lemma run_num:
  assumes "num_run ns w = Some ns'"
  shows "json_run lim (st\<lparr>ps_mode := MNum ns acc\<rparr>) w = Inr (st\<lparr>ps_mode := MNum ns' (rev w @ acc)\<rparr>)"
  using assms
proof (induction w arbitrary: ns acc)
  case Nil
  then show ?case by simp
next
  case (Cons c cs)
  then obtain ns1 where n1: "num_next ns c = Some ns1" and rest: "num_run ns1 cs = Some ns'"
    by (auto split: option.splits)
  have "c \<noteq> CHR ''I''" using n1 num_next_no_I by auto
  with n1 have "json_step lim (st\<lparr>ps_mode := MNum ns acc\<rparr>) c = Inr (st\<lparr>ps_mode := MNum ns1 (c # acc)\<rparr>)"
    by (simp add: json_step.simps step_num_def)
  with Cons.IH [OF rest] show ?case by simp
qed

lemma num_accepting_stop:
  "num_accepting ns \<Longrightarrow> \<not> num_continues c \<Longrightarrow> num_next ns c = None"
  by (cases ns) (auto simp: num_continues_def)

lemma deliver_mode: "deliver v stk r = Inr st' \<Longrightarrow> ps_mode st' = MAfter"
  by (cases "(v, stk, r)" rule: deliver.cases) auto

lemma finish_deliver_Cons:
  "(case deliver v (f # stk) r of Inl e \<Rightarrow> Inl e | Inr st' \<Rightarrow> json_parse_from lim st' []) = Inl JSONDecodeError"
  by (cases f) (simp_all add: json_finish_def json_parse_from_Nil)

lemma parse_num_end:
  assumes "num_accepting ns" and "follow_ok rest"
  shows "json_parse_from lim (st\<lparr>ps_mode := MNum ns acc\<rparr>) rest =
         (case deliver_st (num_value ns (rev acc)) st of Inl e \<Rightarrow> Inl e | Inr st' \<Rightarrow> json_parse_from lim st' rest)"
proof (cases rest)
  case Nil
  show ?thesis
    unfolding Nil using assms(1)
    by (cases "ps_stack st")
       (simp_all add: json_parse_from_Nil json_finish_def deliver_st_def finish_deliver_Cons)
next
  case (Cons c cs)
  with assms(2) have nc: "\<not> num_continues c" by (simp add: follow_ok_def)
  with assms(1) have none: "num_next ns c = None" by (rule num_accepting_stop)
  have "ns \<noteq> NSign" using assms(1) by auto
  with none assms(1) have step: "json_step lim (st\<lparr>ps_mode := MNum ns acc\<rparr>) c =
      (case deliver_st (num_value ns (rev acc)) st of Inl e \<Rightarrow> Inl e | Inr st' \<Rightarrow> step_after st' c)"
    by (simp add: json_step.simps step_num_def deliver_st_def)
  show ?thesis
  proof (cases "deliver_st (num_value ns (rev acc)) st")
    case (Inl e)
    then show ?thesis unfolding Cons by (simp add: json_parse_from_Cons step)
  next
    case (Inr st')
    then have "ps_mode st' = MAfter" by (simp add: deliver_st_def deliver_mode)
    then have "json_step lim st' c = step_after st' c" by (simp add: json_step.simps)
    with Inr show ?thesis unfolding Cons by (simp add: json_parse_from_Cons step)
  qed
qed

lemma nat_digits_unfold:
  "nat_digits n = (if n < 10 then [char_of (48 + n)] else nat_digits (n div 10) @ [char_of (48 + n mod 10)])"
  by (rule nat_digits.simps)

lemma nat_digits_ne: "nat_digits n \<noteq> []"
  by (subst nat_digits_unfold) simp

lemma nat_digits_digits: "\<forall>c\<in>set (nat_digits n). is_digit c"
proof (induction n rule: nat_digits.induct)
  case (1 n)
  show ?case
    by (subst nat_digits_unfold) (use 1 in \<open>auto simp: is_digit_def\<close>)
qed

lemma nat_digits_value: "digits_value (nat_digits n) = n"
proof (induction n rule: nat_digits.induct)
  case (1 n)
  show ?case
    by (subst nat_digits_unfold) (use 1 in \<open>simp add: digits_value_def\<close>)
qed

lemma nat_digits_hd:
  "0 < n \<Longrightarrow> \<exists>c cs. nat_digits n = c # cs \<and> c \<noteq> CHR ''0'' \<and> is_digit c"
proof (induction n rule: nat_digits.induct)
  case (1 n)
  show ?case
  proof (cases "n < 10")
    case True
    then show ?thesis using 1(2)
      by (subst nat_digits_unfold) (auto simp: is_digit_def dest!: arg_cong [where f = "of_char :: char \<Rightarrow> nat"])
  next
    case False
    then obtain c cs where "nat_digits (n div 10) = c # cs" "c \<noteq> CHR ''0''" "is_digit c"
      using 1 by fastforce
    with False show ?thesis by (subst nat_digits_unfold) simp
  qed
qed

lemma json_parse_from_append:
  "json_run lim st w = Inr st' \<Longrightarrow> json_parse_from lim st (w @ rest) = json_parse_from lim st' rest"
  by (induction w arbitrary: st) (auto simp: json_parse_from_Cons split: sum.splits)

lemma num_run_NInt: "\<forall>c\<in>set cs. is_digit c \<Longrightarrow> num_run NInt cs = Some NInt"
  by (induction cs) auto

lemma num_next_NStart_Some:
  assumes "num_next NStart c = Some ns" and "ps_mode st = MValue"
  shows "json_step lim st c = Inr (st\<lparr>ps_mode := MNum ns [c]\<rparr>)"
proof -
  have "c = CHR ''-'' \<or> is_digit c" using assms(1) by (auto simp: is_digit_def split: if_splits)
  then have "\<not> is_ws c \<and> c \<noteq> CHR 0x22 \<and> c \<noteq> CHR ''['' \<and> c \<noteq> CHR ''{'' \<and> c \<noteq> CHR ''n'' \<and>
             c \<noteq> CHR ''t'' \<and> c \<noteq> CHR ''f'' \<and> c \<noteq> CHR ''N'' \<and> c \<noteq> CHR ''I''"
    by (auto simp: is_digit_def is_ws_def)
  with assms show ?thesis by (simp add: json_step.simps step_value_def)
qed

lemma parse_number:
  assumes "num_run NStart w = Some ns" and "num_accepting ns" and "follow_ok rest"
    and "ps_mode st = MValue"
  shows "json_parse_from lim st (w @ rest) =
         (case deliver_st (num_value ns w) st of Inl e \<Rightarrow> Inl e | Inr st' \<Rightarrow> json_parse_from lim st' rest)"
proof (cases w)
  case Nil
  with assms(1,2) show ?thesis by simp
next
  case (Cons c cs)
  with assms(1) obtain ns1 where n1: "num_next NStart c = Some ns1" and r: "num_run ns1 cs = Some ns"
    by (auto split: option.splits)
  have "json_run lim st w = Inr (st\<lparr>ps_mode := MNum ns (rev cs @ [c])\<rparr>)"
    using num_next_NStart_Some [OF n1 assms(4)] run_num [OF r, where lim = lim and st = st and acc = "[c]"] Cons by simp
  then have "json_parse_from lim st (w @ rest) = json_parse_from lim (st\<lparr>ps_mode := MNum ns (rev cs @ [c])\<rparr>) rest"
    by (rule json_parse_from_append)
  also have "\<dots> = (case deliver_st (num_value ns w) st of Inl e \<Rightarrow> Inl e | Inr st' \<Rightarrow> json_parse_from lim st' rest)"
    using parse_num_end [OF assms(2,3)] Cons by simp
  finally show ?thesis .
qed

lemma int_repr_run: "\<exists>ns. num_run NStart (int_repr i) = Some ns \<and> (ns = NZero \<or> ns = NInt)"
proof -
  have nat_case: "\<exists>ns. num_run q (nat_digits n) = Some ns \<and> (ns = NZero \<or> ns = NInt)"
    if q: "q = NStart \<or> q = NSign" for q n
  proof (cases "n = 0")
    case True
    then have "nat_digits n = [CHR ''0'']" by (simp add: nat_digits_unfold char_of_48)
    with q show ?thesis by auto
  next
    case False
    then obtain c cs where d: "nat_digits n = c # cs" "c \<noteq> CHR ''0''" "is_digit c"
      using nat_digits_hd by blast
    have "\<forall>c\<in>set cs. is_digit c" using nat_digits_digits [of n] d(1) by simp
    then have "num_run NInt cs = Some NInt" by (rule num_run_NInt)
    moreover have "num_next q c = Some NInt" using q d(2,3) by (auto simp: is_digit_def)
    ultimately show ?thesis using d(1) by simp
  qed
  show ?thesis
    using nat_case [of NSign "nat (- i)"] nat_case [of NStart "nat i"] by (auto simp: int_repr_def)
qed

lemma lit_int_int_repr: "lit_int (int_repr i) = i"
proof -
  have "hd (nat_digits n) \<noteq> CHR ''-''" for n
    using nat_digits_digits [of n] nat_digits_ne [of n] by (cases "nat_digits n") (auto simp: is_digit_def)
  from this [of "nat i"] show ?thesis
    by (cases "nat_digits (nat i)")
       (auto simp: int_repr_def lit_int_def nat_digits_value nat_digits_ne
             dest: arg_cong [where f = digits_value])
qed

subsection \<open>Strings\<close>

lemma json_run_append:
  "json_run lim st (xs @ ys) = (case json_run lim st xs of Inl e \<Rightarrow> Inl e | Inr st' \<Rightarrow> json_run lim st' ys)"
  by (induction xs arbitrary: st) (auto split: sum.splits)

lemma hex_value_hex_digit: "d < 16 \<Longrightarrow> hex_value (hex_digit d) = Some d"
  by (auto simp: hex_value_def hex_digit_def Let_def)

lemma hex_value_0: "hex_value (CHR ''0'') = Some 0"
  by (simp add: hex_value_def)

lemma json_step_MStr:
  "json_step lim (st\<lparr>ps_mode := MStr k acc e\<rparr>) c = step_str k acc e (st\<lparr>ps_mode := MStr k acc e\<rparr>) c"
  by (simp add: json_step.simps)

lemma run_hex:
  "json_run lim (st\<lparr>ps_mode := MStr k acc ENone\<rparr>) (CHR 0x5C # CHR ''u'' # CHR ''0'' # CHR ''0'' # hex2 (of_char c)) =
   Inr (st\<lparr>ps_mode := MStr k (c # acc) ENone\<rparr>)"
proof -
  have lt: "(of_char c :: nat) < 256" by (rule nat_of_char_less_256)
  then have "(of_char c :: nat) div 16 < 16" "(of_char c :: nat) mod 16 < 16"
    "16 * ((of_char c :: nat) div 16) + of_char c mod 16 = of_char c"
    using less_mult_imp_div_less [of "of_char c" 16 16] by simp_all
  with lt show ?thesis
    by (simp add: hex2_def json_step_MStr hex_value_0 hex_value_hex_digit)
qed

lemma parse_char:
  "json_run lim (st\<lparr>ps_mode := MStr k acc ENone\<rparr>) (dumps_char c) = Inr (st\<lparr>ps_mode := MStr k (c # acc) ENone\<rparr>)"
proof -
  have "(of_char c :: nat) < 256" by (rule nat_of_char_less_256)
  show ?thesis
  proof (cases "dumps_char c = CHR 0x5C # CHR ''u'' # CHR ''0'' # CHR ''0'' # hex2 (of_char c)")
    case True
    then show ?thesis by (simp only: True run_hex)
  next
    case False
    then show ?thesis
      using \<open>(of_char c :: nat) < 256\<close> unfolding dumps_char_def
      by (auto simp: json_step_MStr short_escape_def split: if_splits)
  qed
qed

lemma parse_chars:
  "json_run lim (st\<lparr>ps_mode := MStr k acc ENone\<rparr>) (concat (map dumps_char s)) = Inr (st\<lparr>ps_mode := MStr k (rev s @ acc) ENone\<rparr>)"
  by (induction s arbitrary: acc) (simp_all add: json_run_append parse_char)

lemma end_string_mode: "end_string k s (st\<lparr>ps_mode := m\<rparr>) = end_string k s st"
  by (simp add: end_string_def deliver_st_def split: list.splits frame.splits)

lemma parse_str_body:
  "json_parse_from lim (st\<lparr>ps_mode := MStr k [] ENone\<rparr>) (concat (map dumps_char s) @ CHR 0x22 # rest) =
   (case end_string k s st of Inl e \<Rightarrow> Inl e | Inr st' \<Rightarrow> json_parse_from lim st' rest)"
  by (simp add: json_parse_from_append [OF parse_chars] json_parse_from_Cons json_step.simps end_string_mode)

lemma parse_string:
  assumes "ps_mode st = MValue"
  shows "json_parse_from lim st (dumps_str s @ rest) =
         (case deliver_st (PStr s) st of Inl e \<Rightarrow> Inl e | Inr st' \<Rightarrow> json_parse_from lim st' rest)"
  using assms parse_str_body [where lim = lim and st = st and k = False and s = s and rest = rest]
  by (simp add: dumps_str_def json_parse_from_Cons json_step.simps step_value_def is_ws_def end_string_def)

subsection \<open>Depth\<close>

lemma json_depth_PList: "x \<in> set xs \<Longrightarrow> json_depth x < json_depth (PList xs)"
  using foldr_max_ge [of x xs json_depth] by simp

lemma json_depth_PDict: "(k, v) \<in> set kvs \<Longrightarrow> json_depth v < json_depth (PDict kvs)"
  using foldr_max_ge [of "(k, v)" kvs "\<lambda>(k, v). json_depth v"] by (simp add: case_prod_beta')

subsection \<open>Containers\<close>

lemma num_next_NStart_char: "num_next NStart c = Some ns \<Longrightarrow> c = CHR ''-'' \<or> is_digit c"
  by (auto simp: is_digit_def split: if_splits)

lemma num_run_NStart_first:
  assumes "num_run NStart w = Some ns" and "num_accepting ns"
  shows "\<exists>c cs. w = c # cs \<and> \<not> is_ws c \<and> c \<noteq> CHR '']''"
proof (cases w)
  case Nil
  with assms show ?thesis by simp
next
  case (Cons c cs)
  with assms(1) obtain ns1 where "num_next NStart c = Some ns1" by (auto split: option.splits)
  then have "c = CHR ''-'' \<or> is_digit c" by (rule num_next_NStart_char)
  with Cons show ?thesis by (auto simp: is_digit_def is_ws_def)
qed

lemma dumps_first:
  "json_wf v \<Longrightarrow> \<exists>c cs. json_dumps v = c # cs \<and> \<not> is_ws c \<and> c \<noteq> CHR '']''"
proof (cases v)
  case (PInt i)
  then show ?thesis
    using int_repr_run [of i] num_run_NStart_first [of "int_repr i"] by auto
next
  case (PFloat f)
  moreover assume "json_wf v"
  ultimately have "float_lit f" by simp
  then show ?thesis
    using PFloat num_run_NStart_first [of f]
    by (auto simp: float_lit_def is_ws_def split: option.splits)
qed (auto simp: dumps_str_def is_ws_def)

lemma step_list_first:
  assumes "ps_mode st = MListFirst" and "\<not> is_ws c" and "c \<noteq> CHR '']''"
  shows "json_step lim st c = json_step lim (st\<lparr>ps_mode := MValue\<rparr>) c"
  using assms by (simp add: json_step.simps step_value_def open_container_def split: option.splits)

lemma parses_atD:
  "parses_at lim v \<Longrightarrow> ps_mode st = MValue \<Longrightarrow> length (ps_stack st) + json_depth v \<le> lim \<Longrightarrow> follow_ok rest \<Longrightarrow>
   json_parse_from lim st (json_dumps v @ rest) =
   (case deliver_st v st of Inl e \<Rightarrow> Inl e | Inr st' \<Rightarrow> json_parse_from lim st' rest)"
  by (simp add: parses_at_def)

lemma follow_ok_Cons: "\<not> num_continues c \<Longrightarrow> follow_ok (c # cs)"
  by (simp add: follow_ok_def)

lemma follow_ok_sep:
  "\<not> num_continues c \<Longrightarrow> follow_ok (concat (map (\<lambda>y. '', '' @ f y) ys) @ c # rest)"
  by (cases ys) (simp_all add: follow_ok_def num_continues_def is_digit_def)

lemma parse_elems:
  assumes "\<forall>y\<in>set ys. parses_at lim y \<and> Suc (length stk) + json_depth y \<le> lim"
  shows "json_parse_from lim \<lparr>ps_mode = MAfter, ps_stack = FList acc # stk, ps_result = r\<rparr>
           (concat (map (\<lambda>y. '', '' @ json_dumps y) ys) @ CHR '']'' # rest) =
         (case deliver (PList (rev acc @ ys)) stk r of Inl e \<Rightarrow> Inl e | Inr st' \<Rightarrow> json_parse_from lim st' rest)"
  using assms
proof (induction ys arbitrary: acc)
  case Nil
  then show ?case by (simp add: json_parse_from_Cons json_step.simps step_after_def is_ws_def)
next
  case (Cons y ys)
  let ?st = "\<lparr>ps_mode = MValue, ps_stack = FList acc # stk, ps_result = r\<rparr>"
  have y: "parses_at lim y" "Suc (length stk) + json_depth y \<le> lim" using Cons.prems by auto
  have fo: "follow_ok (concat (map (\<lambda>y. '', '' @ json_dumps y) ys) @ CHR '']'' # rest)"
    by (rule follow_ok_sep) (simp add: num_continues_def is_digit_def)
  have "json_parse_from lim \<lparr>ps_mode = MAfter, ps_stack = FList acc # stk, ps_result = r\<rparr>
          (concat (map (\<lambda>y. '', '' @ json_dumps y) (y # ys)) @ CHR '']'' # rest) =
        json_parse_from lim ?st (json_dumps y @ concat (map (\<lambda>y. '', '' @ json_dumps y) ys) @ CHR '']'' # rest)"
    by (simp add: json_parse_from_Cons json_step.simps step_after_def step_value_def is_ws_def)
  also have "\<dots> = json_parse_from lim \<lparr>ps_mode = MAfter, ps_stack = FList (y # acc) # stk, ps_result = r\<rparr>
                    (concat (map (\<lambda>y. '', '' @ json_dumps y) ys) @ CHR '']'' # rest)"
    using parses_atD [OF y(1) _ _ fo, of ?st] y(2) by (simp add: deliver_st_def)
  also have "\<dots> = (case deliver (PList (rev acc @ y # ys)) stk r of Inl e \<Rightarrow> Inl e | Inr st' \<Rightarrow> json_parse_from lim st' rest)"
    using Cons.IH [of "y # acc"] Cons.prems by simp
  finally show ?case .
qed

lemma parse_member:
  assumes v: "parses_at lim v" "Suc (length stk) + json_depth v \<le> lim" and fo: "follow_ok rest"
    and m: "ps_mode st = MDictFirst \<or> ps_mode st = MKey" and s: "ps_stack st = FDict kvs # stk"
  shows "json_parse_from lim st (dumps_str k @ '': '' @ json_dumps v @ rest) =
         json_parse_from lim \<lparr>ps_mode = MAfter, ps_stack = FDict (AList.update k v kvs) # stk, ps_result = ps_result st\<rparr> rest"
proof -
  let ?sv = "st\<lparr>ps_stack := FDictV kvs k # stk, ps_mode := MValue\<rparr>"
  have q: "json_step lim st (CHR 0x22) = Inr (st\<lparr>ps_mode := MStr True [] ENone\<rparr>)"
    using m by (auto simp: json_step.simps is_ws_def)
  have "json_parse_from lim st (dumps_str k @ '': '' @ json_dumps v @ rest) =
        json_parse_from lim (st\<lparr>ps_mode := MStr True [] ENone\<rparr>)
          (concat (map dumps_char k) @ CHR 0x22 # '': '' @ json_dumps v @ rest)"
    by (simp add: dumps_str_def json_parse_from_Cons q)
  also have "\<dots> = json_parse_from lim (st\<lparr>ps_mode := MColon, ps_stack := FDictV kvs k # stk\<rparr>) ('': '' @ json_dumps v @ rest)"
    by (simp add: parse_str_body end_string_def s)
  also have "\<dots> = json_parse_from lim ?sv (json_dumps v @ rest)"
    by (simp add: json_parse_from_Cons json_step.simps step_value_def is_ws_def)
  also have "\<dots> = json_parse_from lim \<lparr>ps_mode = MAfter, ps_stack = FDict (AList.update k v kvs) # stk, ps_result = ps_result st\<rparr> rest"
    using parses_atD [OF v(1) _ _ fo, of ?sv] v(2) by (simp add: deliver_st_def)
  finally show ?thesis .
qed

lemma parse_members:
  assumes "\<forall>(k, v)\<in>set ms. parses_at lim v \<and> Suc (length stk) + json_depth v \<le> lim"
  shows "json_parse_from lim \<lparr>ps_mode = MAfter, ps_stack = FDict kvs # stk, ps_result = r\<rparr>
           (concat (map (\<lambda>(k, v). '', '' @ dumps_str k @ '': '' @ json_dumps v) ms) @ CHR ''}'' # rest) =
         (case deliver (PDict (fold (\<lambda>(k, v). AList.update k v) ms kvs)) stk r of
            Inl e \<Rightarrow> Inl e | Inr st' \<Rightarrow> json_parse_from lim st' rest)"
  using assms
proof (induction ms arbitrary: kvs)
  case Nil
  then show ?case by (simp add: json_parse_from_Cons json_step.simps step_after_def is_ws_def)
next
  case (Cons m ms)
  obtain k v where m: "m = (k, v)" by (cases m)
  let ?st = "\<lparr>ps_mode = MKey, ps_stack = FDict kvs # stk, ps_result = r\<rparr>"
  have v: "parses_at lim v" "Suc (length stk) + json_depth v \<le> lim" using Cons.prems m by auto
  have fo: "follow_ok (concat (map (\<lambda>(k, v). '', '' @ dumps_str k @ '': '' @ json_dumps v) ms) @ CHR ''}'' # rest)"
    using follow_ok_sep [of "CHR ''}''" "\<lambda>(k, v). dumps_str k @ '': '' @ json_dumps v" ms rest]
    by (simp add: num_continues_def is_digit_def case_prod_beta')
  have "json_parse_from lim \<lparr>ps_mode = MAfter, ps_stack = FDict kvs # stk, ps_result = r\<rparr>
          (concat (map (\<lambda>(k, v). '', '' @ dumps_str k @ '': '' @ json_dumps v) (m # ms)) @ CHR ''}'' # rest) =
        json_parse_from lim ?st (dumps_str k @ '': '' @ json_dumps v @
          concat (map (\<lambda>(k, v). '', '' @ dumps_str k @ '': '' @ json_dumps v) ms) @ CHR ''}'' # rest)"
    by (simp add: m json_parse_from_Cons json_step.simps step_after_def is_ws_def)
  also have "\<dots> = json_parse_from lim \<lparr>ps_mode = MAfter, ps_stack = FDict (AList.update k v kvs) # stk, ps_result = r\<rparr>
          (concat (map (\<lambda>(k, v). '', '' @ dumps_str k @ '': '' @ json_dumps v) ms) @ CHR ''}'' # rest)"
    using parse_member [OF v fo, of ?st] by simp
  also have "\<dots> = (case deliver (PDict (fold (\<lambda>(k, v). AList.update k v) (m # ms) kvs)) stk r of
            Inl e \<Rightarrow> Inl e | Inr st' \<Rightarrow> json_parse_from lim st' rest)"
    using Cons.IH [of "AList.update k v kvs"] Cons.prems m by simp
  finally show ?case .
qed

lemma parse_list_first:
  assumes "ps_mode st = MListFirst" and "\<not> is_ws c" and "c \<noteq> CHR '']''"
  shows "json_parse_from lim st (c # cs) = json_parse_from lim (st\<lparr>ps_mode := MValue\<rparr>) (c # cs)"
  using step_list_first [OF assms] by (simp add: json_parse_from_Cons)

lemma open_ok:
  "length (ps_stack st) < lim \<Longrightarrow> open_container lim f m st = Inr (st\<lparr>ps_mode := m, ps_stack := f # ps_stack st\<rparr>)"
  by (simp add: open_container_def)

lemma parse_list:
  assumes xs: "\<forall>x\<in>set xs. json_wf x \<and> parses_at lim x"
    and m: "ps_mode st = MValue" and d: "length (ps_stack st) + json_depth (PList xs) \<le> lim"
  shows "json_parse_from lim st (json_dumps (PList xs) @ rest) =
         (case deliver_st (PList xs) st of Inl e \<Rightarrow> Inl e | Inr st' \<Rightarrow> json_parse_from lim st' rest)"
proof -
  let ?st1 = "st\<lparr>ps_mode := MListFirst, ps_stack := FList [] # ps_stack st\<rparr>"
  have "length (ps_stack st) < lim" using d by simp
  then have "json_parse_from lim st (json_dumps (PList xs) @ rest) =
             json_parse_from lim ?st1 (join '', '' (map json_dumps xs) @ CHR '']'' # rest)"
    using m by (simp add: json_parse_from_Cons json_step.simps step_value_def is_ws_def open_ok)
  also have "\<dots> = (case deliver_st (PList xs) st of Inl e \<Rightarrow> Inl e | Inr st' \<Rightarrow> json_parse_from lim st' rest)"
  proof (cases xs)
    case Nil
    then show ?thesis by (simp add: json_parse_from_Cons json_step.simps deliver_st_def)
  next
    case (Cons x ys)
    let ?R = "concat (map (\<lambda>y. '', '' @ json_dumps y) ys) @ CHR '']'' # rest"
    have x: "json_wf x" "parses_at lim x" using xs Cons by auto
    have dy: "\<forall>y\<in>set xs. Suc (length (ps_stack st)) + json_depth y \<le> lim"
      using d json_depth_PList [of _ xs] by fastforce
    obtain c cs where c: "json_dumps x = c # cs" "\<not> is_ws c" "c \<noteq> CHR '']''"
      using dumps_first [OF x(1)] by blast
    have "json_parse_from lim ?st1 (json_dumps x @ ?R) = json_parse_from lim (?st1\<lparr>ps_mode := MValue\<rparr>) (json_dumps x @ ?R)"
      using parse_list_first [of ?st1 c lim "cs @ ?R"] c by simp
    also have "\<dots> = json_parse_from lim \<lparr>ps_mode = MAfter, ps_stack = FList [x] # ps_stack st, ps_result = ps_result st\<rparr> ?R"
    proof -
      have fo: "follow_ok ?R" by (rule follow_ok_sep) (simp add: num_continues_def is_digit_def)
      show ?thesis
        using parses_atD [OF x(2) _ _ fo, of "?st1\<lparr>ps_mode := MValue\<rparr>"] dy Cons
        by (simp add: deliver_st_def)
    qed
    also have "\<dots> = (case deliver_st (PList xs) st of Inl e \<Rightarrow> Inl e | Inr st' \<Rightarrow> json_parse_from lim st' rest)"
      using parse_elems [of ys lim "ps_stack st" "[x]" "ps_result st" rest] xs dy Cons
      by (simp add: deliver_st_def)
    finally show ?thesis using Cons by (simp add: join_Cons comp_def)
  qed
  finally show ?thesis .
qed

lemma parse_dict:
  assumes kvs: "\<forall>(k, v)\<in>set kvs. parses_at lim v" and dist: "distinct (map fst kvs)"
    and m: "ps_mode st = MValue" and d: "length (ps_stack st) + json_depth (PDict kvs) \<le> lim"
  shows "json_parse_from lim st (json_dumps (PDict kvs) @ rest) =
         (case deliver_st (PDict kvs) st of Inl e \<Rightarrow> Inl e | Inr st' \<Rightarrow> json_parse_from lim st' rest)"
proof -
  let ?st1 = "st\<lparr>ps_mode := MDictFirst, ps_stack := FDict [] # ps_stack st\<rparr>"
  let ?f = "\<lambda>(k, v). dumps_str k @ '': '' @ json_dumps v"
  have "length (ps_stack st) < lim" using d by simp
  then have "json_parse_from lim st (json_dumps (PDict kvs) @ rest) =
             json_parse_from lim ?st1 (join '', '' (map ?f kvs) @ CHR ''}'' # rest)"
    using m by (simp add: json_parse_from_Cons json_step.simps step_value_def is_ws_def open_ok)
  also have "\<dots> = (case deliver_st (PDict kvs) st of Inl e \<Rightarrow> Inl e | Inr st' \<Rightarrow> json_parse_from lim st' rest)"
  proof (cases kvs)
    case Nil
    then show ?thesis by (simp add: json_parse_from_Cons json_step.simps is_ws_def deliver_st_def)
  next
    case (Cons kv ms)
    obtain k v where kv: "kv = (k, v)" by (cases kv)
    let ?R = "concat (map (\<lambda>(k, v). '', '' @ dumps_str k @ '': '' @ json_dumps v) ms) @ CHR ''}'' # rest"
    have dy: "\<forall>(k, v)\<in>set kvs. parses_at lim v \<and> Suc (length (ps_stack st)) + json_depth v \<le> lim"
      using d kvs json_depth_PDict [of _ _ kvs] by fastforce
    then have v: "parses_at lim v" "Suc (length (ps_stack st)) + json_depth v \<le> lim"
      using Cons kv by auto
    have fo: "follow_ok ?R"
      using follow_ok_sep [of "CHR ''}''" "\<lambda>(k, v). dumps_str k @ '': '' @ json_dumps v" ms rest]
      by (simp add: num_continues_def is_digit_def case_prod_beta')
    have "json_parse_from lim ?st1 (dumps_str k @ '': '' @ json_dumps v @ ?R) =
          json_parse_from lim \<lparr>ps_mode = MAfter, ps_stack = FDict [(k, v)] # ps_stack st, ps_result = ps_result st\<rparr> ?R"
      using parse_member [OF v fo, of ?st1 "[]" k] by simp
    also have "\<dots> = (case deliver_st (PDict kvs) st of Inl e \<Rightarrow> Inl e | Inr st' \<Rightarrow> json_parse_from lim st' rest)"
      using parse_members [of ms lim "ps_stack st" "[(k, v)]" "ps_result st" rest] dy Cons kv
        fold_update_distinct [of "[(k, v)]" ms] dist
      by (simp add: deliver_st_def)
    finally show ?thesis using Cons kv by (simp add: join_Cons comp_def case_prod_beta')
  qed
  finally show ?thesis .
qed

lemma parse_word:
  assumes "ps_mode st = MValue" and "step_value lim st c = Inr (st\<lparr>ps_mode := MLit w v\<rparr>)" and "w \<noteq> []"
  shows "json_parse_from lim st (c # w @ rest) =
         (case deliver_st v st of Inl e \<Rightarrow> Inl e | Inr st' \<Rightarrow> json_parse_from lim st' rest)"
  using assms parse_lit [where w = w and lim = lim and st = st and v = v and rest = rest]
  by (simp add: json_parse_from_Cons json_step.simps)

lemma parses_at_wf: "json_wf v \<Longrightarrow> parses_at lim v"
proof (induction v rule: json_wf.induct)
  case 1
  show ?case unfolding parses_at_def
    by (auto intro: parse_word [where w = "''ull''", simplified] simp: step_value_def is_ws_def)
next
  case (2 b)
  show ?case unfolding parses_at_def
    by (auto intro: parse_word [where w = "''rue''", simplified] parse_word [where w = "''alse''", simplified]
             simp: step_value_def is_ws_def)
next
  case (3 i)
  obtain ns where "num_run NStart (int_repr i) = Some ns" "ns = NZero \<or> ns = NInt"
    using int_repr_run by blast
  then show ?case unfolding parses_at_def
    by (auto dest: parse_number simp: num_value_def lit_int_int_repr)
next
  case (4 f)
  then have "float_lit f" by simp
  then consider "f = ''NaN''" | "f = ''Infinity''" | "f = ''-Infinity''"
    | ns where "num_run NStart f = Some ns" "num_accepting ns" "ns \<noteq> NZero" "ns \<noteq> NInt"
    by (auto simp: float_lit_def split: option.splits)
  then show ?case
  proof cases
    case 1
    then show ?thesis unfolding parses_at_def
      by (auto intro: parse_word [where w = "''aN''", simplified] simp: step_value_def is_ws_def)
  next
    case 2
    then show ?thesis unfolding parses_at_def
      by (auto intro: parse_word [where w = "''nfinity''", simplified] simp: step_value_def is_ws_def)
  next
    case 3
    have "json_parse_from lim st (''-Infinity'' @ rest) =
          (case deliver_st (PFloat ''-Infinity'') st of Inl e \<Rightarrow> Inl e | Inr st' \<Rightarrow> json_parse_from lim st' rest)"
      if "ps_mode st = MValue" for st rest
    proof -
      have "json_step lim st (CHR ''-'') = Inr (st\<lparr>ps_mode := MNum NSign [CHR ''-'']\<rparr>)"
        using num_next_NStart_Some [OF _ that] by simp
      then show ?thesis
        using parse_lit [where w = "''nfinity''" and lim = lim and st = st and v = "PFloat ''-Infinity''" and rest = rest]
        by (simp add: json_parse_from_Cons json_step.simps step_num_def)
    qed
    with 3 show ?thesis unfolding parses_at_def by simp
  next
    case 4
    then show ?thesis unfolding parses_at_def
      by (auto dest: parse_number simp: num_value_def)
  qed
next
  case (5 s)
  show ?case unfolding parses_at_def by (auto intro: parse_string)
next
  case (6 xs)
  then have xs: "\<forall>x\<in>set xs. json_wf x \<and> parses_at lim x" by simp
  show ?case unfolding parses_at_def by (intro allI impI) (rule parse_list [OF xs])
next
  case (7 kvs)
  then have kvs: "\<forall>(k, v)\<in>set kvs. parses_at lim v" and "distinct (map fst kvs)" by auto
  show ?case unfolding parses_at_def
    by (intro allI impI) (rule parse_dict [OF kvs \<open>distinct (map fst kvs)\<close>])
qed

section \<open>Every decoded value is well formed\<close>

lemma deliver_inv:
  assumes "deliver v stk r = Inr st'" and "stack_ok lim stk"
    and "case r of None \<Rightarrow> True | Some w \<Rightarrow> json_wf w \<and> json_depth w \<le> lim"
    and "json_wf v" and "json_depth v \<le> lim - length stk"
  shows "dec_inv lim st'"
  using assms
proof (induction v stk r rule: deliver.induct)
  case (3 v kvs k stk r)
  then show ?case
    by (fastforce simp: dec_inv_def update_keys dest: update_vals)
qed (auto simp: dec_inv_def)

lemma deliver_st_scalar:
  "deliver_st v st = Inr st' \<Longrightarrow> dec_inv lim st \<Longrightarrow> json_wf v \<Longrightarrow> json_depth v = 0 \<Longrightarrow> dec_inv lim st'"
  unfolding deliver_st_def by (rule deliver_inv) (auto simp: dec_inv_def)

lemma close_list_inv:
  assumes "deliver (PList (rev xs)) stk r = Inr st'" and "dec_inv lim st" and "ps_stack st = FList xs # stk"
    and "ps_result st = r"
  shows "dec_inv lim st'"
  using assms by (intro deliver_inv [OF assms(1)]) (auto simp: dec_inv_def Suc_le_eq foldr_max_less)

lemma close_dict_inv:
  assumes "deliver (PDict kvs) stk r = Inr st'" and "dec_inv lim st" and "ps_stack st = FDict kvs # stk"
    and "ps_result st = r"
  shows "dec_inv lim st'"
  using assms
  by (intro deliver_inv [OF assms(1)]) (auto simp: dec_inv_def Suc_le_eq foldr_max_less case_prod_beta')

lemma num_run_append:
  "num_run q (xs @ ys) = (case num_run q xs of None \<Rightarrow> None | Some q' \<Rightarrow> num_run q' ys)"
  by (induction xs arbitrary: q) (auto split: option.splits)

lemma num_value_wf:
  "num_run NStart lit = Some ns \<Longrightarrow> num_accepting ns \<Longrightarrow> json_wf (num_value ns lit) \<and> json_depth (num_value ns lit) = 0"
  by (auto simp: num_value_def float_lit_def)

lemma step_value_inv:
  "step_value lim st c = Inr st' \<Longrightarrow> dec_inv lim st \<Longrightarrow> dec_inv lim st'"
  by (auto simp: step_value_def open_container_def dec_inv_def float_lit_def split: if_splits option.splits)

lemma step_after_inv:
  assumes "step_after st c = Inr st'" and "dec_inv lim st"
  shows "dec_inv lim st'"
proof (cases "is_ws c")
  case False
  show ?thesis
  proof (cases "ps_stack st")
    case (Cons f stk)
    then show ?thesis
      using assms False close_list_inv [OF _ assms(2)] close_dict_inv [OF _ assms(2)]
      by (cases f) (auto simp: step_after_def dec_inv_def split: if_splits)
  qed (use assms False in \<open>simp add: step_after_def\<close>)
qed (use assms in \<open>simp add: step_after_def\<close>)

lemma end_string_inv:
  assumes "end_string k s st = Inr st'" and "dec_inv lim st"
  shows "dec_inv lim st'"
proof (cases k)
  case True
  then show ?thesis using assms
    by (auto simp: end_string_def dec_inv_def split: list.splits frame.splits)
next
  case False
  then show ?thesis using assms deliver_st_scalar [of "PStr s" st st' lim] by (simp add: end_string_def)
qed

lemma dec_inv_mode: "dec_inv lim st \<Longrightarrow> mode_ok m \<Longrightarrow> dec_inv lim (st\<lparr>ps_mode := m\<rparr>)"
  by (simp add: dec_inv_def)

lemma step_str_inv:
  "step_str k acc e st c = Inr st' \<Longrightarrow> dec_inv lim st \<Longrightarrow> dec_inv lim st'"
  by (induction k acc e st c rule: step_str.induct)
     (auto intro: dec_inv_mode elim: end_string_inv split: if_splits option.splits)

lemma step_num_inv:
  assumes "step_num ns lit st c = Inr st'" and "dec_inv lim st" and "ps_mode st = MNum ns lit"
  shows "dec_inv lim st'"
proof -
  have run: "num_run NStart (rev lit) = Some ns" using assms(2,3) by (simp add: dec_inv_def)
  show ?thesis
  proof (cases "ns = NSign \<and> c = CHR ''I''")
    case True
    then show ?thesis using assms(1,2) by (auto simp: step_num_def dec_inv_def float_lit_def)
  next
    case False
    show ?thesis
    proof (cases "num_next ns c")
      case (Some ns')
      then show ?thesis using assms(1,2) False run by (auto simp: step_num_def dec_inv_def num_run_append)
    next
      case None
      then obtain st1 where acc: "num_accepting ns" and d: "deliver_st (num_value ns (rev lit)) st = Inr st1"
        and a: "step_after st1 c = Inr st'"
        using assms(1) False by (auto simp: step_num_def split: if_splits sum.splits)
      have "dec_inv lim st1"
        using deliver_st_scalar [OF d assms(2)] num_value_wf [OF run acc] by simp
      then show ?thesis by (rule step_after_inv [OF a])
    qed
  qed
qed

lemma step_lit_inv:
  assumes "step_lit w v st c = Inr st'" and "dec_inv lim st" and "ps_mode st = MLit w v"
  shows "dec_inv lim st'"
proof -
  have v: "json_wf v" "json_depth v = 0" using assms(2,3) by (simp_all add: dec_inv_def)
  show ?thesis
  proof (cases w)
    case (Cons d ds)
    show ?thesis
    proof (cases "ds = []")
      case True
      then show ?thesis using assms(1,2) Cons deliver_st_scalar [of v st st' lim] v
        by (simp add: step_lit_def split: if_splits)
    qed (use assms Cons in \<open>auto simp: step_lit_def dec_inv_def split: if_splits\<close>)
  qed (use assms in \<open>simp add: step_lit_def\<close>)
qed

lemma json_step_inv:
  assumes "json_step lim st c = Inr st'" and "dec_inv lim st"
  shows "dec_inv lim st'"
proof (cases "ps_mode st")
  case MValue
  then show ?thesis using assms step_value_inv by (simp add: json_step.simps)
next
  case MListFirst
  then show ?thesis using assms step_value_inv
    by (auto simp: json_step.simps split: if_splits list.splits frame.splits
             elim: close_list_inv [where xs = "[]", simplified])
next
  case MDictFirst
  then show ?thesis using assms
    by (auto simp: json_step.simps split: if_splits list.splits frame.splits
             intro: dec_inv_mode elim: close_dict_inv [where kvs = "[]", simplified])
next
  case MAfter
  then show ?thesis using assms step_after_inv by (simp add: json_step.simps)
next
  case (MStr k acc e)
  then show ?thesis using assms step_str_inv by (simp add: json_step.simps)
next
  case (MNum ns lit)
  then show ?thesis using assms step_num_inv by (simp add: json_step.simps)
next
  case (MLit w v)
  then show ?thesis using assms step_lit_inv by (simp add: json_step.simps)
qed (use assms in \<open>auto simp: json_step.simps intro: dec_inv_mode split: if_splits\<close>)

lemma json_run_inv:
  "json_run lim st s = Inr st' \<Longrightarrow> dec_inv lim st \<Longrightarrow> dec_inv lim st'"
  by (induction s arbitrary: st) (auto split: sum.splits dest: json_step_inv)

lemma loads_parse: "json_loads lim s = json_parse_from lim json_init s"
  by (simp add: json_loads_def json_parse_from_def)

lemma dumps_init:
  assumes "json_wf v" and "json_depth v \<le> lim"
  shows "json_parse_from lim json_init (json_dumps v) = Inr v"
  using parses_atD [OF parses_at_wf [OF assms(1)], where st = json_init and rest = "[]"] assms(2)
  by (simp add: json_init_def deliver_st_def follow_ok_def json_parse_from_Nil json_finish_def)

lemma decoded_wf:
  assumes "json_loads lim s = Inr v"
  shows "json_wf v \<and> json_depth v \<le> lim"
proof -
  obtain st where run: "json_run lim json_init s = Inr st" and fin: "json_finish st = Inr v"
    using assms by (auto simp: json_loads_def split: sum.splits)
  have "dec_inv lim json_init" by (simp add: json_init_def dec_inv_def)
  then have inv: "dec_inv lim st" by (rule json_run_inv [OF run])
  show ?thesis
  proof (cases "ps_mode st")
    case (MNum ns lit)
    with fin inv num_value_wf [of "rev lit" ns] show ?thesis
      by (auto simp: json_finish_def dec_inv_def split: if_splits)
  qed (use fin inv in \<open>auto simp: json_finish_def dec_inv_def split: list.splits option.splits prod.splits\<close>)
qed

lemma dict_member_wf:
  assumes "json_wf (PDict kvs)" and "map_of kvs k = Some v"
  shows "json_wf v \<and> json_depth v < json_depth (PDict kvs)"
proof -
  from assms(2) have kv: "(k, v) \<in> set kvs" by (rule map_of_SomeD)
  with assms(1) json_depth_PDict [OF kv] show ?thesis by auto
qed

declare json_step.simps [simp]

section \<open>Round trip\<close>

text \<open>
  C7. Every value \<^verbatim>\<open>json.loads\<close> returns survives printing and reading again: the
  decoder only produces well-formed values within its depth budget.
\<close>

theorem json_loads_dumps:
  assumes "json_loads lim s = Inr v"
  shows "json_loads lim (json_dumps v) = Inr v"
  using decoded_wf [OF assms] by (simp add: loads_parse dumps_init)

theorem json_loads_dumps_witness:
  \<open>json_loads 3 (json_dumps (PDict [(''a'', PList [PInt 0, PFloat ''2.50'', PStr [CHR 0xE9]])])) =
   Inr (PDict [(''a'', PList [PInt 0, PFloat ''2.50'', PStr [CHR 0xE9]])])\<close>
proof -
  have dec: \<open>json_loads 3 ('' {"a" : [-0, 2.50, "'' @ CHR 0x5C # ''u00e9"]} '') = Inr (PDict [(''a'', PList [PInt 0, PFloat ''2.50'', PStr [CHR 0xE9]])])\<close>
    by code_simp
  show ?thesis by (rule json_loads_dumps [OF dec])
qed

section \<open>The encoder's alphabet\<close>

lemma printable_ascii_append [simp]:
  "printable_ascii (xs @ ys) \<longleftrightarrow> printable_ascii xs \<and> printable_ascii ys"
  by (simp add: printable_ascii_def)

lemma printable_ascii_Cons [simp]:
  "printable_ascii (c # cs) \<longleftrightarrow> 32 \<le> (of_char c :: nat) \<and> (of_char c :: nat) < 127 \<and> printable_ascii cs"
  by (simp add: printable_ascii_def)

lemma printable_ascii_Nil [simp]: "printable_ascii []"
  by (simp add: printable_ascii_def)

lemma printable_ascii_concat [simp]:
  "printable_ascii (concat xss) \<longleftrightarrow> (\<forall>xs\<in>set xss. printable_ascii xs)"
  by (induction xss) simp_all

lemma printable_join:
  "printable_ascii sep \<Longrightarrow> \<forall>x\<in>set xs. printable_ascii x \<Longrightarrow> printable_ascii (join sep xs)"
  by (induction sep xs rule: join.induct) simp_all

lemma printable_digit: "is_digit c \<Longrightarrow> 32 \<le> (of_char c :: nat) \<and> (of_char c :: nat) < 127"
  by (simp add: is_digit_def)

lemma printable_int_repr: "printable_ascii (int_repr i)"
proof -
  have "printable_ascii (nat_digits n)" for n
    using nat_digits_digits [of n] printable_digit by (auto simp: printable_ascii_def list_all_iff)
  then show ?thesis by (simp add: int_repr_def)
qed

lemma num_next_printable:
  "num_next q c = Some q' \<Longrightarrow> 32 \<le> (of_char c :: nat) \<and> (of_char c :: nat) < 127"
  by (cases q) (auto simp: printable_digit split: if_splits)

lemma num_run_printable: "num_run q w = Some q' \<Longrightarrow> printable_ascii w"
  by (induction q w rule: num_run.induct) (auto split: option.splits dest: num_next_printable)

lemma printable_float_lit: "float_lit f \<Longrightarrow> printable_ascii f"
  by (auto simp: float_lit_def split: option.splits dest: num_run_printable)

lemma printable_hex_digit: "d < 16 \<Longrightarrow> 32 \<le> (of_char (hex_digit d) :: nat) \<and> (of_char (hex_digit d) :: nat) < 127"
  by (simp add: hex_digit_def)

lemma printable_dumps_char: "printable_ascii (dumps_char c)"
proof -
  have "(of_char c :: nat) < 256" by (rule nat_of_char_less_256)
  then have "(of_char c :: nat) div 16 < 16" by (simp add: less_mult_imp_div_less)
  then show ?thesis
    by (simp add: dumps_char_def hex2_def printable_hex_digit)
qed

lemma printable_dumps_str: "printable_ascii (dumps_str s)"
  by (simp add: dumps_str_def printable_dumps_char)

lemma printable_dumps: "json_wf v \<Longrightarrow> printable_ascii (json_dumps v)"
proof (induction v rule: json_dumps.induct)
  case (6 xs)
  then show ?case by (auto intro!: printable_join)
next
  case (7 kvs)
  then show ?case by (fastforce intro!: printable_join simp: printable_dumps_str)
qed (simp_all add: printable_int_repr printable_float_lit printable_dumps_str)

end
