(* ===== verification/GatewayAgent.thy ===== *)
theory GatewayAgent
  imports Json
begin

text \<open>
  \<^verbatim>\<open>src/examples/gateway_agent.py\<close>: an agent that registers with the job gateway
  over HTTP, opens a websocket to the same host, announces itself, and answers every
  \<open>job\<close> message with an acknowledgement on the socket and a result submission over
  HTTP. The script's I/O is an explicit trace of effects; whether the network carries
  a call is an oracle \<open>net\<close> indexed by the position of the call in the trace, so every
  pattern of transport failures is covered. The incoming messages are a list of text
  frames, followed by a normal or an abnormal close.
\<close>

section \<open>Effects and the I/O layer\<close>

datatype effect =
    HttpPost string pyval     \<comment> \<open>\<^verbatim>\<open>requests.post(url, json=body)\<close>\<close>
  | WsConnect string          \<comment> \<open>\<^verbatim>\<open>websockets.connect(url)\<close>\<close>
  | WsSend string             \<comment> \<open>\<^verbatim>\<open>await ws.send(text)\<close>\<close>
  | WsClose                   \<comment> \<open>leaving \<^verbatim>\<open>async with\<close> closes the socket\<close>
  | Stdout string             \<comment> \<open>\<^verbatim>\<open>print(...)\<close>\<close>

text \<open>
  A computation of the script reads and extends the trace and either returns or raises.
\<close>

type_synonym 'a io = "effect list \<Rightarrow> 'a result \<times> effect list"

definition io_return :: "'a \<Rightarrow> 'a io" where
  "io_return a t = (Inr a, t)"

definition io_raise :: "py_error \<Rightarrow> 'a io" where
  "io_raise e t = (Inl e, t)"

definition io_bind :: "'a io \<Rightarrow> ('a \<Rightarrow> 'b io) \<Rightarrow> 'b io" where
  "io_bind m f t = (case m t of (Inl e, t') \<Rightarrow> (Inl e, t') | (Inr a, t') \<Rightarrow> f a t')"

text \<open>Lift a computation that may raise but has no effect.\<close>

definition io_of :: "'a result \<Rightarrow> ('a \<Rightarrow> 'b io) \<Rightarrow> 'b io" where
  "io_of r f = (case r of Inl e \<Rightarrow> io_raise e | Inr a \<Rightarrow> f a)"

definition io_print :: "string \<Rightarrow> unit io" where
  "io_print s t = (Inr (), t @ [Stdout s])"

text \<open>A network call: attempted (so it is in the trace), and it fails when the oracle says so.\<close>

definition io_net :: "(nat \<Rightarrow> bool) \<Rightarrow> effect \<Rightarrow> unit io" where
  "io_net net e t = ((if net (length t) then Inr () else Inl ConnectionError), t @ [e])"

text \<open>\<^verbatim>\<open>async with\<close>: the exit action runs whether the body returned or raised.\<close>

definition io_finally :: "'a io \<Rightarrow> unit io \<Rightarrow> 'a io" where
  "io_finally m c t =
     (case m t of (r, t') \<Rightarrow> (case c t' of (Inl e, t'') \<Rightarrow> (Inl e, t'') | (Inr u, t'') \<Rightarrow> (r, t'')))"

definition io_close :: "unit io" where
  "io_close t = (Inr (), t @ [WsClose])"

section \<open>Library calls\<close>

text \<open>
  \<^verbatim>\<open>requests\<close> picks its transport adapter by the lower-cased URL prefix
  (\<^verbatim>\<open>http://\<close>, \<^verbatim>\<open>https://\<close>); \<^verbatim>\<open>websockets\<close> accepts the URL schemes
  \<open>ws\<close> and \<open>wss\<close> only (\<^verbatim>\<open>urlparse\<close> lower-cases the scheme).
\<close>

definition http_url_ok :: "string \<Rightarrow> bool" where
  "http_url_ok u \<longleftrightarrow> prefix ''http://'' (lower u) \<or> prefix ''https://'' (lower u)"

definition ws_url_ok :: "string \<Rightarrow> bool" where
  "ws_url_ok u \<longleftrightarrow>
     CHR '':'' \<in> set u \<and> lower (takeWhile (\<lambda>c. c \<noteq> CHR '':'') u) \<in> {''ws'', ''wss''}"

definition http_post :: "(nat \<Rightarrow> bool) \<Rightarrow> string \<Rightarrow> pyval \<Rightarrow> unit io" where
  "http_post net url body =
     (if http_url_ok url then io_net net (HttpPost url body) else io_raise (InvalidURL url))"

definition ws_connect :: "(nat \<Rightarrow> bool) \<Rightarrow> string \<Rightarrow> unit io" where
  "ws_connect net url = (if ws_url_ok url then io_net net (WsConnect url) else io_raise (InvalidURL url))"

definition ws_send :: "(nat \<Rightarrow> bool) \<Rightarrow> string \<Rightarrow> unit io" where
  "ws_send net s = io_net net (WsSend s)"

section \<open>The script\<close>

subsection \<open>Configuration (lines 8 to 10)\<close>

text \<open>\<^verbatim>\<open>os.getenv('GATEWAY_URL', 'http://localhost:3000')\<close>; \<open>None\<close> is an unset variable.\<close>

definition gateway_url :: "string option \<Rightarrow> string" where
  "gateway_url env = (case env of None \<Rightarrow> ''http://localhost:3000'' | Some g \<Rightarrow> g)"

definition AGENT_ID :: string where
  "AGENT_ID = ''agent-1''"

definition WALLET :: string where
  "WALLET = ''0xYourWalletAddress''"

subsection \<open>Messages and URLs\<close>

definition agents_url :: "string \<Rightarrow> string" where
  "agents_url g = g @ ''/agents''"

definition register_body :: pyval where
  "register_body = PDict [(''id'', PStr AGENT_ID), (''wallet'', PStr WALLET)]"

definition ws_url :: "string \<Rightarrow> string" where
  "ws_url g = str_replace ''http'' ''ws'' g"

definition register_msg :: string where
  "register_msg =
     json_dumps (PDict [(''type'', PStr ''register''), (''id'', PStr AGENT_ID), (''wallet'', PStr WALLET)])"

text \<open>\<^verbatim>\<open>print('job received', job)\<close>: the arguments joined by a space, then a newline.\<close>

definition job_line :: "pyval \<Rightarrow> string" where
  "job_line job = ''job received '' @ py_str job @ [CHR 0x0A]"

definition ack_value :: "pyval \<Rightarrow> pyval" where
  "ack_value jid = PDict [(''type'', PStr ''ack''), (''id'', PStr AGENT_ID), (''jobId'', jid)]"

definition ack_msg :: "pyval \<Rightarrow> string" where
  "ack_msg jid = json_dumps (ack_value jid)"

text \<open>The f-string \<^verbatim>\<open>f"{GATEWAY}/jobs/{job['jobId']}/submit"\<close> formats the id with \<^verbatim>\<open>str()\<close>.\<close>

definition submit_url :: "string \<Rightarrow> pyval \<Rightarrow> string" where
  "submit_url g jid = g @ ''/jobs/'' @ py_str jid @ ''/submit''"

definition submit_body :: pyval where
  "submit_body = PDict [(''address'', PStr WALLET), (''result'', PStr ''result data'')]"

subsection \<open>The message handler (lines 18 to 23)\<close>

text \<open>
  One iteration of \<^verbatim>\<open>async for message in ws\<close>. Line 23 reads \<^verbatim>\<open>job['jobId']\<close>
  a second time; \<open>job\<close> is the same dictionary and nothing changed it, so the value
  read on line 22 is used.
\<close>

definition handle_message :: "nat \<Rightarrow> (nat \<Rightarrow> bool) \<Rightarrow> string \<Rightarrow> string \<Rightarrow> unit io" where
  "handle_message lim net g message =
     io_of (json_loads lim message) (\<lambda>msg.
     io_of (py_get msg ''type'') (\<lambda>ty.
       if ty = PStr ''job'' then
         io_of (py_getitem msg ''job'') (\<lambda>job.
         io_bind (io_print (job_line job)) (\<lambda>_.
         io_of (py_getitem job ''jobId'') (\<lambda>jid.
         io_bind (ws_send net (ack_msg jid)) (\<lambda>_.
         http_post net (submit_url g jid) submit_body))))
       else io_return ()))"

fun agent_loop :: "nat \<Rightarrow> (nat \<Rightarrow> bool) \<Rightarrow> string \<Rightarrow> string list \<Rightarrow> unit io" where
  "agent_loop lim net g [] = io_return ()"
| "agent_loop lim net g (m # ms) = io_bind (handle_message lim net g m) (\<lambda>_. agent_loop lim net g ms)"

subsection \<open>main and the module (lines 12 to 25)\<close>

text \<open>
  \<open>closed_ok\<close>: the server closed the socket normally, which ends \<^verbatim>\<open>async for\<close>;
  otherwise the iteration raises \<^verbatim>\<open>ConnectionClosedError\<close>.
\<close>

definition agent_main :: "nat \<Rightarrow> (nat \<Rightarrow> bool) \<Rightarrow> string \<Rightarrow> string list \<Rightarrow> bool \<Rightarrow> unit io" where
  "agent_main lim net g msgs closed_ok =
     io_bind (ws_connect net (ws_url g)) (\<lambda>_.
     io_finally
       (io_bind (ws_send net register_msg) (\<lambda>_.
        io_bind (agent_loop lim net g msgs) (\<lambda>_.
        if closed_ok then io_return () else io_raise ConnectionClosedError)))
       io_close)"

definition gateway_agent :: "nat \<Rightarrow> (nat \<Rightarrow> bool) \<Rightarrow> string option \<Rightarrow> string list \<Rightarrow> bool \<Rightarrow> unit io" where
  "gateway_agent lim net env msgs closed_ok =
     (let g = gateway_url env in
      io_bind (http_post net (agents_url g) register_body) (\<lambda>_. agent_main lim net g msgs closed_ok))"

section \<open>Specification vocabulary\<close>

text \<open>
  \<open>job_effects g job jid\<close>: what one job message causes when every call goes
  through. \<open>io_inv P m\<close>: running \<open>m\<close> from a trace satisfying \<open>P\<close> gives a trace
  satisfying \<open>P\<close>, whether \<open>m\<close> returns or raises. \<open>submits_acked g tr\<close>: every
  result submission in \<open>tr\<close> comes right after the acknowledgement of the same job,
  and is posted to that job's URL.
\<close>

definition job_effects :: "string \<Rightarrow> pyval \<Rightarrow> pyval \<Rightarrow> effect list" where
  "job_effects g job jid =
     [Stdout (job_line job), WsSend (ack_msg jid), HttpPost (submit_url g jid) submit_body]"

definition io_inv :: "(effect list \<Rightarrow> bool) \<Rightarrow> 'a io \<Rightarrow> bool" where
  "io_inv P m \<longleftrightarrow> (\<forall>t r t'. P t \<longrightarrow> m t = (r, t') \<longrightarrow> P t')"

definition submits_acked :: "string \<Rightarrow> effect list \<Rightarrow> bool" where
  "submits_acked g tr \<longleftrightarrow>
     (\<forall>xs u ys. tr = xs @ HttpPost u submit_body # ys \<longrightarrow>
        (\<exists>zs jid. xs = zs @ [WsSend (ack_msg jid)] \<and> u = submit_url g jid))"

text \<open>\<open>ws_sent_ascii tr\<close>: every text frame sent on the socket in \<open>tr\<close> is printable ASCII.\<close>

definition ws_sent_ascii :: "effect list \<Rightarrow> bool" where
  "ws_sent_ascii tr \<longleftrightarrow> list_all (\<lambda>e. case e of WsSend s \<Rightarrow> printable_ascii s | _ \<Rightarrow> True) tr"

section \<open>Evaluation rules of the I/O layer\<close>

lemma io_return_apply [trace_simps]: "io_return a t = (Inr a, t)"
  by (simp add: io_return_def)
lemma io_raise_apply [trace_simps]: "io_raise e t = (Inl e, t)"
  by (simp add: io_raise_def)
lemma io_of_Inl [trace_simps]: "io_of (Inl e) f = io_raise e"
  by (simp add: io_of_def)
lemma io_of_Inr [trace_simps]: "io_of (Inr a) f = f a"
  by (simp add: io_of_def)
lemma io_bind_print [trace_simps]: "io_bind (io_print s) f t = f () (t @ [Stdout s])"
  by (simp add: io_bind_def io_print_def)
lemma io_bind_net [trace_simps]:
  "io_bind (io_net net e) f t = (if net (length t) then f () (t @ [e]) else (Inl ConnectionError, t @ [e]))"
  by (simp add: io_bind_def io_net_def)
lemma io_net_apply [trace_simps]:
  "io_net net e t = ((if net (length t) then Inr () else Inl ConnectionError), t @ [e])"
  by (simp add: io_net_def)

lemma io_bind_raise [trace_simps]: "io_bind (io_raise e) f = io_raise e"
  by (rule ext) (simp add: io_bind_def io_raise_def)

lemma io_bind_assoc: "io_bind (io_bind m f) h = io_bind m (\<lambda>x. io_bind (f x) h)"
  by (rule ext) (simp add: io_bind_def split: prod.splits sum.splits)

lemma io_bind_return: "io_bind (io_return a) f = f a"
  by (rule ext) (simp add: io_bind_def io_return_def)

section \<open>The message handler\<close>

lemma handle_message_shape:
  assumes "handle_message lim net g m t = (r, t')"
  shows "\<exists>es job jid. t' = t @ es \<and> prefix es (job_effects g job jid)"
  using assms
  by (auto simp: handle_message_def ws_send_def http_post_def job_effects_def io_of_def trace_simps
      split: sum.splits if_splits)

text \<open>
  C1. A message that decodes to a dictionary whose \<open>type\<close> is \<open>job\<close> and whose
  \<open>job\<close> is a dictionary with a \<open>jobId\<close> makes the agent print the job, send on the
  socket the acknowledgement carrying that same \<open>jobId\<close>, and post the result to the
  job's submit URL, in this order, when the two network calls go through.
\<close>

lemma handle_message_job:
  assumes "json_loads lim m = Inr (PDict kvs)"
      and "map_of kvs ''type'' = Some (PStr ''job'')"
      and "map_of kvs ''job'' = Some (PDict jkvs)"
      and "map_of jkvs ''jobId'' = Some jid"
      and "http_url_ok (submit_url g jid)"
      and "net (Suc (length t))" and "net (Suc (Suc (length t)))"
  shows "handle_message lim net g m t = (Inr (), t @ job_effects g (PDict jkvs) jid)"
  using assms
  by (simp add: handle_message_def ws_send_def http_post_def job_effects_def trace_simps)
section \<open>Acknowledgement before submission, on every trace\<close>

lemma io_invD: "io_inv P m \<Longrightarrow> m t = (r, t') \<Longrightarrow> P t \<Longrightarrow> P t'"
  by (auto simp: io_inv_def)

lemma io_inv_return [intro!]: "io_inv P (io_return a)"
  by (simp add: io_inv_def io_return_def)

lemma io_inv_raise [intro!]: "io_inv P (io_raise e)"
  by (simp add: io_inv_def io_raise_def)

lemma io_inv_bind [intro!]:
  assumes m: "io_inv P m" and f: "\<And>a. io_inv P (f a)"
  shows "io_inv P (io_bind m f)"
  unfolding io_inv_def
proof (intro allI impI)
  fix t r t'
  assume "P t" and run: "io_bind m f t = (r, t')"
  obtain x t1 where mt: "m t = (x, t1)" by fastforce
  from m mt \<open>P t\<close> have "P t1" by (rule io_invD)
  show "P t'"
  proof (cases x)
    case (Inl e)
    with run mt show ?thesis using \<open>P t1\<close> by (simp add: io_bind_def)
  next
    case (Inr a)
    with run mt have "f a t1 = (r, t')" by (simp add: io_bind_def)
    from f this \<open>P t1\<close> show ?thesis by (rule io_invD)
  qed
qed

lemma io_inv_of [intro!]: "(\<And>a. io_inv P (f a)) \<Longrightarrow> io_inv P (io_of r f)"
  by (auto simp: io_of_def split: sum.splits)

lemma io_inv_If [intro!]: "io_inv P m1 \<Longrightarrow> io_inv P m2 \<Longrightarrow> io_inv P (if b then m1 else m2)"
  by simp

lemma io_inv_finally [intro!]:
  assumes m: "io_inv P m" and c: "io_inv P c"
  shows "io_inv P (io_finally m c)"
  unfolding io_inv_def
proof (intro allI impI)
  fix t r t'
  assume "P t" and run: "io_finally m c t = (r, t')"
  obtain x t1 where mt: "m t = (x, t1)" by fastforce
  obtain y t2 where ct: "c t1 = (y, t2)" by fastforce
  from m mt \<open>P t\<close> have "P t1" by (rule io_invD)
  with c ct have "P t2" by (rule io_invD)
  moreover from run mt ct have "t' = t2" by (simp add: io_finally_def split: sum.splits)
  ultimately show "P t'" by simp
qed

lemma io_inv_net [intro!]: "(\<And>t. P t \<Longrightarrow> P (t @ [e])) \<Longrightarrow> io_inv P (io_net net e)"
  by (simp add: io_inv_def io_net_def)

lemma io_inv_print [intro!]: "(\<And>t. P t \<Longrightarrow> P (t @ [Stdout s])) \<Longrightarrow> io_inv P (io_print s)"
  by (simp add: io_inv_def io_print_def)

lemma io_inv_close [intro!]: "(\<And>t. P t \<Longrightarrow> P (t @ [WsClose])) \<Longrightarrow> io_inv P io_close"
  by (simp add: io_inv_def io_close_def)

lemma submits_acked_Nil: "submits_acked g []"
  by (simp add: submits_acked_def)

lemma submits_acked_snoc:
  assumes "submits_acked g tr"
      and "\<And>u. e = HttpPost u submit_body \<Longrightarrow> \<exists>zs jid. tr = zs @ [WsSend (ack_msg jid)] \<and> u = submit_url g jid"
  shows "submits_acked g (tr @ [e])"
  unfolding submits_acked_def
proof (intro allI impI)
  fix xs u ys
  assume eq: "tr @ [e] = xs @ HttpPost u submit_body # ys"
  show "\<exists>zs jid. xs = zs @ [WsSend (ack_msg jid)] \<and> u = submit_url g jid"
  proof (cases ys rule: rev_cases)
    case Nil
    with eq assms(2) show ?thesis by auto
  next
    case (snoc ys0 y)
    with eq have "tr = xs @ HttpPost u submit_body # ys0" by simp
    with assms(1) show ?thesis by (simp add: submits_acked_def)
  qed
qed

lemma submits_acked_other:
  "submits_acked g tr \<Longrightarrow> (\<And>u. e \<noteq> HttpPost u submit_body) \<Longrightarrow> submits_acked g (tr @ [e])"
  by (rule submits_acked_snoc) auto

lemma submits_acked_job_effects:
  assumes "submits_acked g t" and "prefix es (job_effects g job jid)"
  shows "submits_acked g (t @ es)"
proof -
  have s1: "submits_acked g (t @ [Stdout (job_line job)])"
    using assms(1) by (rule submits_acked_other) simp
  then have s2: "submits_acked g (t @ [Stdout (job_line job), WsSend (ack_msg jid)])"
    using submits_acked_other [OF s1, of "WsSend (ack_msg jid)"] by simp
  then have s3: "submits_acked g (t @ [Stdout (job_line job), WsSend (ack_msg jid), HttpPost (submit_url g jid) submit_body])"
    using submits_acked_snoc [OF s2, of "HttpPost (submit_url g jid) submit_body"] by auto
  from assms(2) have "es = [] \<or> es = [Stdout (job_line job)] \<or> es = [Stdout (job_line job), WsSend (ack_msg jid)]
      \<or> es = job_effects g job jid"
    by (auto simp: job_effects_def prefix_Cons)
  with assms(1) s1 s2 s3 show ?thesis by (auto simp: job_effects_def)
qed

lemma handle_message_submits_acked: "io_inv (submits_acked g) (handle_message lim net g m)"
  unfolding io_inv_def
  by (auto dest!: handle_message_shape intro: submits_acked_job_effects)

lemma agent_loop_submits_acked: "io_inv (submits_acked g) (agent_loop lim net g ms)"
  by (induction ms) (auto intro: handle_message_submits_acked)

lemma register_body_not_submit: "register_body \<noteq> submit_body"
  by (simp add: register_body_def submit_body_def)

lemma agent_main_submits_acked: "io_inv (submits_acked g) (agent_main lim net g msgs closed_ok)"
proof -
  have close: "io_inv (submits_acked g) io_close"
    by (rule io_inv_close) (simp add: submits_acked_other)
  have reg: "io_inv (submits_acked g) (ws_send net register_msg)"
    unfolding ws_send_def by (rule io_inv_net) (simp add: submits_acked_other)
  have conn: "io_inv (submits_acked g) (ws_connect net (ws_url g))"
    unfolding ws_connect_def by (auto intro: submits_acked_other)
  show ?thesis
    unfolding agent_main_def
    by (intro io_inv_bind [OF conn] io_inv_finally [OF _ close] io_inv_bind [OF reg]
        io_inv_bind [OF agent_loop_submits_acked] io_inv_If io_inv_return io_inv_raise)
qed

text \<open>
  C2. In every run of the script, whatever the incoming messages, the environment
  variable and the network failures, each result submission in the trace is
  immediately preceded by the socket acknowledgement of the same job id, and is posted
  to that job's submit URL.
\<close>

theorem gateway_agent_submit_after_ack:
  assumes "gateway_agent lim net env msgs closed_ok [] = (r, tr)"
      and "tr = xs @ HttpPost u submit_body # ys"
  shows "\<exists>zs jid. xs = zs @ [WsSend (ack_msg jid)] \<and> u = submit_url (gateway_url env) jid"
proof -
  let ?g = "gateway_url env"
  have post: "io_inv (submits_acked ?g) (http_post net (agents_url ?g) register_body)"
    unfolding http_post_def by (auto intro: submits_acked_other simp: register_body_not_submit)
  have "io_inv (submits_acked ?g) (gateway_agent lim net env msgs closed_ok)"
    unfolding gateway_agent_def Let_def by (intro io_inv_bind [OF post] agent_main_submits_acked)
  then have "submits_acked ?g tr"
    using assms(1) submits_acked_Nil by (rule io_invD)
  with assms(2) show ?thesis unfolding submits_acked_def by blast
qed

theorem handle_message_job_witness:
  \<open>handle_message 1000 (\<lambda>_. True) ''http://localhost:3000''
     ''{"type": "job", "job": {"jobId": 5}}'' [] =
   (Inr (), job_effects ''http://localhost:3000'' (PDict [(''jobId'', PInt 5)]) (PInt 5))\<close>
proof -
  have dec: \<open>json_loads 1000 ''{"type": "job", "job": {"jobId": 5}}'' =
      Inr (PDict [(''type'', PStr ''job''), (''job'', PDict [(''jobId'', PInt 5)])])\<close>
    by code_simp
  have url: "http_url_ok (submit_url ''http://localhost:3000'' (PInt 5))"
    by code_simp
  have \<open>handle_message 1000 (\<lambda>_. True) ''http://localhost:3000''
     ''{"type": "job", "job": {"jobId": 5}}'' [] =
   (Inr (), [] @ job_effects ''http://localhost:3000'' (PDict [(''jobId'', PInt 5)]) (PInt 5))\<close>
    by (rule handle_message_job [OF dec _ _ _ url]) simp_all
  then show ?thesis by simp
qed

theorem gateway_agent_submit_after_ack_witness:
  "\<exists>zs jid. [HttpPost ''http://localhost:3000/agents'' register_body, WsConnect ''ws://localhost:3000'',
       WsSend register_msg, Stdout (job_line (PDict [(''jobId'', PInt 5)])), WsSend (ack_msg (PInt 5))] =
     zs @ [WsSend (ack_msg jid)] \<and>
     ''http://localhost:3000/jobs/5/submit'' = submit_url (gateway_url None) jid"
proof -
  have run: \<open>gateway_agent 1000 (\<lambda>_. True) None [''{"type": "job", "job": {"jobId": 5}}''] True [] =
      (Inr (), [HttpPost ''http://localhost:3000/agents'' register_body, WsConnect ''ws://localhost:3000'',
       WsSend register_msg, Stdout (job_line (PDict [(''jobId'', PInt 5)])), WsSend (ack_msg (PInt 5))] @
       HttpPost ''http://localhost:3000/jobs/5/submit'' submit_body # [WsClose])\<close>
    by code_simp
  show ?thesis
    by (rule gateway_agent_submit_after_ack [OF run refl])
qed

section \<open>The acknowledgement carries the job id\<close>

lemma ack_value_wf:
  assumes "json_wf jid" and "Suc (json_depth jid) \<le> lim"
  shows "json_wf (ack_value jid) \<and> json_depth (ack_value jid) \<le> lim"
  using assms by (simp add: ack_value_def)

lemma handle_message_sent:
  assumes "handle_message lim net g m t = (r, t')" and "WsSend s \<in> set t'" and "WsSend s \<notin> set t"
  shows "\<exists>kvs jkvs jid. json_loads lim m = Inr (PDict kvs) \<and> map_of kvs ''type'' = Some (PStr ''job'') \<and>
           map_of kvs ''job'' = Some (PDict jkvs) \<and> map_of jkvs ''jobId'' = Some jid \<and> s = ack_msg jid"
  using assms
  by (auto simp: handle_message_def io_of_def ws_send_def http_post_def trace_simps py_getitem_Inr_iff
      py_get_Inr_iff split: sum.splits if_splits option.splits)

text \<open>
  C6. Every frame the handler sends on the socket while handling a message is the
  acknowledgement of a job message: the message decodes to an object of type \<open>job\<close>
  whose \<open>job\<close> object has a \<open>jobId\<close>, and \<^verbatim>\<open>json.loads\<close>, under the same
  recursion budget, decodes the frame to \<open>{"type": "ack", "id": AGENT_ID, "jobId": jid}\<close>
  with exactly that \<open>jobId\<close>, whatever its value.
\<close>

theorem ack_read_back:
  assumes "handle_message lim net g m t = (r, t')" and "WsSend s \<in> set t'" and "WsSend s \<notin> set t"
  shows "\<exists>kvs jkvs jid. json_loads lim m = Inr (PDict kvs) \<and> map_of kvs ''type'' = Some (PStr ''job'') \<and>
           map_of kvs ''job'' = Some (PDict jkvs) \<and> map_of jkvs ''jobId'' = Some jid \<and>
           json_loads lim s = Inr (ack_value jid)"
proof -
  obtain kvs jkvs jid where dec: "json_loads lim m = Inr (PDict kvs)" and ty: "map_of kvs ''type'' = Some (PStr ''job'')"
      and job: "map_of kvs ''job'' = Some (PDict jkvs)" and jd: "map_of jkvs ''jobId'' = Some jid"
      and s: "s = ack_msg jid"
    using handle_message_sent [OF assms] by blast
  from decoded_wf [OF dec] have m: "json_wf (PDict kvs)" "json_depth (PDict kvs) \<le> lim" by auto
  from dict_member_wf [OF m(1) job] have j: "json_wf (PDict jkvs)" "json_depth (PDict jkvs) < json_depth (PDict kvs)"
    by auto
  from dict_member_wf [OF j(1) jd] have "json_wf jid" "json_depth jid < json_depth (PDict jkvs)"
    by auto
  with m(2) j(2) have "json_wf (ack_value jid) \<and> json_depth (ack_value jid) \<le> lim"
    by (intro ack_value_wf) simp_all
  then have "json_loads lim s = Inr (ack_value jid)" by (simp add: s ack_msg_def loads_parse dumps_init)
  with dec ty job jd show ?thesis by blast
qed

theorem ack_read_back_witness:
  \<open>\<exists>kvs jkvs jid. json_loads 1000 ''{"type": "job", "job": {"jobId": [5, "x"]}}'' = Inr (PDict kvs) \<and>
     map_of kvs ''type'' = Some (PStr ''job'') \<and> map_of kvs ''job'' = Some (PDict jkvs) \<and>
     map_of jkvs ''jobId'' = Some jid \<and> json_loads 1000 (ack_msg (PList [PInt 5, PStr ''x''])) = Inr (ack_value jid)\<close>
proof -
  have run: \<open>handle_message 1000 (\<lambda>_. True) ''http://localhost:3000'' ''{"type": "job", "job": {"jobId": [5, "x"]}}'' [] =
      (Inr (), [Stdout (job_line (PDict [(''jobId'', PList [PInt 5, PStr ''x''])])), WsSend (ack_msg (PList [PInt 5, PStr ''x''])),
        HttpPost (submit_url ''http://localhost:3000'' (PList [PInt 5, PStr ''x''])) submit_body])\<close>
    by code_simp
  show ?thesis by (rule ack_read_back [OF run]) simp_all
qed

section \<open>Error paths\<close>

text \<open>
  The script handles no exception (spec section 7): one failing message ends the
  session. \<open>agent_loop_append\<close> splits the message stream at that message.
\<close>

lemma agent_loop_append:
  "agent_loop lim net g (xs @ ys) = io_bind (agent_loop lim net g xs) (\<lambda>_. agent_loop lim net g ys)"
  by (induction xs) (simp_all add: io_bind_assoc io_bind_return)

text \<open>
  C8. When handling a message raises, the exception leaves \<open>main\<close>: the socket is
  closed right after the failing message's effects, no later message is handled, and
  how the server would have closed the socket no longer matters.
\<close>

theorem agent_main_handler_error:
  assumes "ws_url_ok (ws_url g)" and "net (length t)" and "net (Suc (length t))"
      and "agent_loop lim net g ms1 (t @ [WsConnect (ws_url g), WsSend register_msg]) = (Inr (), t1)"
      and "handle_message lim net g m t1 = (Inl e, t2)"
  shows "agent_main lim net g (ms1 @ m # ms2) closed_ok t = (Inl e, t2 @ [WsClose])"
  using assms
  by (simp add: agent_main_def ws_connect_def ws_send_def agent_loop_append trace_simps
                io_finally_def io_bind_def io_close_def)

text \<open>
  C9. A message that is not a job message has no effect: text that is not JSON raises
  the decoder's error, a JSON value that is not an object raises
  \<^verbatim>\<open>AttributeError\<close> at \<^verbatim>\<open>msg.get\<close>, and an object whose \<open>type\<close> is not
  \<open>job\<close> is skipped.
\<close>

theorem handle_message_no_job:
  assumes "\<not> (\<exists>kvs. json_loads lim m = Inr (PDict kvs) \<and> map_of kvs ''type'' = Some (PStr ''job''))"
  shows "handle_message lim net g m t =
    ((case json_loads lim m of
        Inl e \<Rightarrow> Inl e
      | Inr (PDict kvs) \<Rightarrow> Inr ()
      | Inr v \<Rightarrow> Inl (AttributeError (type_name v))), t)"
proof (cases "json_loads lim m")
  case (Inr v)
  with assms show ?thesis
    by (cases v) (auto simp: handle_message_def trace_simps split: option.splits)
qed (simp add: handle_message_def trace_simps)

text \<open>
  C10. A job message whose job has no \<open>jobId\<close> is printed and then raises
  \<^verbatim>\<open>KeyError('jobId')\<close>: it is neither acknowledged nor submitted.
\<close>

theorem handle_message_missing_jobId:
  assumes "json_loads lim m = Inr (PDict kvs)"
      and "map_of kvs ''type'' = Some (PStr ''job'')"
      and "map_of kvs ''job'' = Some (PDict jkvs)"
      and "map_of jkvs ''jobId'' = None"
  shows "handle_message lim net g m t = (Inl (KeyError ''jobId''), t @ [Stdout (job_line (PDict jkvs))])"
  using assms by (simp add: handle_message_def trace_simps)

section \<open>The websocket URL\<close>

text \<open>
  C11. \<^verbatim>\<open>GATEWAY.replace('http', 'ws')\<close> swaps only the scheme of an \<open>http\<close> URL
  exactly when no other \<open>http\<close> occurs in it; otherwise host or path are rewritten too.
\<close>

theorem ws_url_scheme_swap: "ws_url (''http'' @ r) = ''ws'' @ r \<longleftrightarrow> \<not> sublist ''http'' r"
proof -
  have "ws_url (''http'' @ r) = ''ws'' @ str_replace ''http'' ''ws'' r"
    by (simp add: ws_url_def str_replace_prefix)
  then show ?thesis
    using str_replace_http_gone [of r] str_replace_no_match [of "''http''" r "''ws''"] by auto
qed

lemma lower_HTTP: "lower ''HTTP://'' = ''http://''"
  by code_simp

text \<open>
  C12. With the scheme written in capitals, \<^verbatim>\<open>requests\<close> accepts the gateway URL
  (it compares schemes case-insensitively), so the agent registers, but the
  case-sensitive replacement leaves the scheme \<open>HTTP\<close> and \<^verbatim>\<open>websockets\<close> refuses
  the URL: the agent is registered and never listens.
\<close>

theorem gateway_agent_upper_scheme:
  assumes "net 0"
  shows "gateway_agent lim net (Some (''HTTP://'' @ h)) msgs closed_ok [] =
         (Inl (InvalidURL (''HTTP://'' @ str_replace ''http'' ''ws'' h)),
          [HttpPost (''HTTP://'' @ h @ ''/agents'') register_body])"
proof -
  have ws: "ws_url (''HTTP://'' @ h) = ''HTTP://'' @ str_replace ''http'' ''ws'' h"
    by (simp add: ws_url_def str_replace_Cons)
  have "\<not> ws_url_ok (''HTTP://'' @ str_replace ''http'' ''ws'' h)"
    using length_lower [of "''HTTP''"] by (auto simp: ws_url_ok_def)
  moreover have "lower (''HTTP://'' @ h @ ''/agents'') = ''http://'' @ lower (h @ ''/agents'')"
    by (simp only: lower_append lower_HTTP)
  then have "http_url_ok (''HTTP://'' @ h @ ''/agents'')"
    unfolding http_url_ok_def by (simp only: prefix_append) simp
  ultimately show ?thesis
    using assms ws by (simp add: gateway_agent_def gateway_url_def agents_url_def http_post_def agent_main_def
                              ws_connect_def trace_simps)
qed

section \<open>Witnesses of the error paths\<close>

theorem agent_main_handler_error_witness:
  \<open>agent_main 1000 (\<lambda>_. True) ''http://localhost:3000''
     ([''{"type": "ping"}''] @ ''{"type": "job", "job": {}}'' # [''{"type": "job", "job": {"jobId": 1}}'']) True [] =
   (Inl (KeyError ''jobId''),
    [WsConnect ''ws://localhost:3000'', WsSend register_msg, Stdout (job_line (PDict [])), WsClose])\<close>
proof -
  have url: "ws_url_ok (ws_url ''http://localhost:3000'')" by code_simp
  have ws: "ws_url ''http://localhost:3000'' = ''ws://localhost:3000''" by code_simp
  have loop: \<open>agent_loop 1000 (\<lambda>_. True) ''http://localhost:3000'' [''{"type": "ping"}'']
      ([] @ [WsConnect (ws_url ''http://localhost:3000''), WsSend register_msg]) =
      (Inr (), [WsConnect ''ws://localhost:3000'', WsSend register_msg])\<close>
    by code_simp
  have h: \<open>handle_message 1000 (\<lambda>_. True) ''http://localhost:3000'' ''{"type": "job", "job": {}}''
      [WsConnect ''ws://localhost:3000'', WsSend register_msg] =
      (Inl (KeyError ''jobId''), [WsConnect ''ws://localhost:3000'', WsSend register_msg, Stdout (job_line (PDict []))])\<close>
    by code_simp
  from agent_main_handler_error [OF url _ _ loop h] show ?thesis by simp
qed

theorem handle_message_no_job_witness:
  "handle_message 10 (\<lambda>_. True) ''http://localhost:3000'' ''[1, 2]'' [] = (Inl (AttributeError ''list''), [])"
proof -
  have dec: "json_loads 10 ''[1, 2]'' = Inr (PList [PInt 1, PInt 2])" by code_simp
  then have "\<not> (\<exists>kvs. json_loads 10 ''[1, 2]'' = Inr (PDict kvs) \<and> map_of kvs ''type'' = Some (PStr ''job''))"
    by simp
  from handle_message_no_job [OF this, where net = "\<lambda>_. True" and g = "''http://localhost:3000''" and t = "[]"]
  show ?thesis by (simp add: dec)
qed

theorem handle_message_missing_jobId_witness:
  \<open>handle_message 10 (\<lambda>_. True) ''http://localhost:3000'' ''{"type": "job", "job": {"id": 3}}'' [] =
   (Inl (KeyError ''jobId''), [Stdout (job_line (PDict [(''id'', PInt 3)]))])\<close>
proof -
  have dec: \<open>json_loads 10 ''{"type": "job", "job": {"id": 3}}'' =
      Inr (PDict [(''type'', PStr ''job''), (''job'', PDict [(''id'', PInt 3)])])\<close>
    by code_simp
  have ty: "map_of [(''type'', PStr ''job''), (''job'', PDict [(''id'', PInt 3)])] ''type'' = Some (PStr ''job'')"
    by code_simp
  have job: "map_of [(''type'', PStr ''job''), (''job'', PDict [(''id'', PInt 3)])] ''job'' = Some (PDict [(''id'', PInt 3)])"
    by code_simp
  have jid: "map_of [(''id'', PInt 3)] ''jobId'' = None"
    by code_simp
  from handle_message_missing_jobId [OF dec ty job jid] show ?thesis by simp
qed

theorem ws_url_scheme_swap_witness: "ws_url ''http://httpbin.org'' \<noteq> ''ws://httpbin.org''"
proof -
  have "sublist ''http'' ''://httpbin.org''" by code_simp
  with ws_url_scheme_swap [of "''://httpbin.org''"] show ?thesis by simp
qed

theorem gateway_agent_upper_scheme_witness:
  "gateway_agent 1000 (\<lambda>_. True) (Some ''HTTP://localhost:3000'') [] True [] =
   (Inl (InvalidURL ''HTTP://localhost:3000''), [HttpPost ''HTTP://localhost:3000/agents'' register_body])"
proof -
  have "str_replace ''http'' ''ws'' ''localhost:3000'' = ''localhost:3000''" by code_simp
  with gateway_agent_upper_scheme [where net = "\<lambda>_. True" and h = "''localhost:3000''"]
  show ?thesis by simp
qed

section \<open>Only printable ASCII on the socket\<close>

lemma ws_sent_ascii_snoc [simp]:
  "ws_sent_ascii (tr @ [e]) \<longleftrightarrow> ws_sent_ascii tr \<and> (case e of WsSend s \<Rightarrow> printable_ascii s | _ \<Rightarrow> True)"
  by (simp add: ws_sent_ascii_def)

lemma io_inv_of_Inr: "(\<And>a. r = Inr a \<Longrightarrow> io_inv P (f a)) \<Longrightarrow> io_inv P (io_of r f)"
  by (auto simp: io_of_def split: sum.splits)

lemma getitem_wf:
  "json_wf v \<Longrightarrow> py_getitem v k = Inr w \<Longrightarrow> json_wf w"
  by (auto simp: py_getitem_Inr_iff dest: dict_member_wf)

lemma handle_message_ascii: "io_inv ws_sent_ascii (handle_message lim net g m)"
  unfolding handle_message_def
proof (intro io_inv_of_Inr io_inv_of io_inv_If io_inv_bind io_inv_print io_inv_return)
  fix msg job jid
  assume dec: "json_loads lim m = Inr msg" and jb: "py_getitem msg ''job'' = Inr job"
    and jd: "py_getitem job ''jobId'' = Inr jid"
  have "json_wf jid"
    using decoded_wf [OF dec] by (blast intro: getitem_wf [OF _ jb] getitem_wf [OF _ jd])
  then have "json_wf (ack_value jid)" by (simp add: ack_value_def)
  then have "printable_ascii (ack_msg jid)" unfolding ack_msg_def by (rule printable_dumps)
  then show "io_inv ws_sent_ascii (ws_send net (ack_msg jid))"
    unfolding ws_send_def by (intro io_inv_net) simp
next
  fix jid
  show "io_inv ws_sent_ascii (http_post net (submit_url g jid) submit_body)"
    unfolding http_post_def by auto
qed simp_all

lemma agent_loop_ascii: "io_inv ws_sent_ascii (agent_loop lim net g ms)"
  by (induction ms) (auto intro: handle_message_ascii)

lemma register_msg_ascii: "printable_ascii register_msg"
  unfolding register_msg_def by (rule printable_dumps) simp

text \<open>
  C19. In every run of the script, whatever the incoming messages, the environment
  variable and the network failures, every text frame the agent sends on the websocket
  (the registration and each acknowledgement, whose \<open>jobId\<close> is whatever value the
  gateway sent) consists of printable ASCII characters only.
\<close>

theorem gateway_agent_ws_ascii:
  assumes "gateway_agent lim net env msgs closed_ok [] = (r, tr)"
  shows "ws_sent_ascii tr"
proof -
  have "io_inv ws_sent_ascii (gateway_agent lim net env msgs closed_ok)"
    unfolding gateway_agent_def agent_main_def Let_def http_post_def ws_connect_def ws_send_def
    by (intro io_inv_bind io_inv_If io_inv_finally io_inv_net io_inv_raise io_inv_return io_inv_close
        agent_loop_ascii) (simp_all add: register_msg_ascii)
  then show ?thesis
    using assms by (rule io_invD) (simp add: ws_sent_ascii_def)
qed

theorem gateway_agent_ws_ascii_witness:
  \<open>ws_sent_ascii [HttpPost ''http://localhost:3000/agents'' register_body, WsConnect ''ws://localhost:3000'',
     WsSend register_msg, Stdout (job_line (PDict [(''jobId'', PStr [CHR 0xE9])])), WsSend (ack_msg (PStr [CHR 0xE9])),
     HttpPost (''http://localhost:3000/jobs/'' @ [CHR 0xE9] @ ''/submit'') submit_body, WsClose]\<close>
proof -
  have run: \<open>gateway_agent 1000 (\<lambda>_. True) None [''{"type": "job", "job": {"jobId": "'' @ CHR 0x5C # ''u00e9"}}''] True [] =
      (Inr (), [HttpPost ''http://localhost:3000/agents'' register_body, WsConnect ''ws://localhost:3000'',
       WsSend register_msg, Stdout (job_line (PDict [(''jobId'', PStr [CHR 0xE9])])), WsSend (ack_msg (PStr [CHR 0xE9])),
       HttpPost (''http://localhost:3000/jobs/'' @ [CHR 0xE9] @ ''/submit'') submit_body, WsClose])\<close>
    by code_simp
  show ?thesis by (rule gateway_agent_ws_ascii [OF run])
qed

end
