(* ===== verification/AgentStream.thy ===== *)
theory AgentStream
  imports GatewayAgent
begin

text \<open>
  The loop \<^verbatim>\<open>async for message in ws\<close> of \<^verbatim>\<open>gateway_agent.py\<close> (lines 17 to 23)
  over the connection as the server drives it: the \<open>i\<close>-th receive yields a text frame
  or the end of the connection (a normal close, or an abnormal one that makes the
  iteration raise \<^verbatim>\<open>ConnectionClosedError\<close>). The server may keep the socket open
  for ever, so the loop is a \<^theory_text>\<open>partial_function (option)\<close>: \<open>None\<close> is a loop that
  never returns. The loop runs for ever while the server keeps the connection open
  and sends frames that are not jobs. Network calls always return in this model (they
  succeed or raise); \<^verbatim>\<open>requests.post\<close> without a timeout may also block for ever,
  which is not modelled, so nothing here claims that the loop ends.
\<close>

section \<open>The receive loop\<close>

text \<open>One receive on the socket: a text frame, or the end of the connection (\<open>True\<close>: a normal close).\<close>

datatype ws_event = WsFrame string | WsEnd bool

partial_function (option) agent_recv ::
  "nat \<Rightarrow> (nat \<Rightarrow> bool) \<Rightarrow> string \<Rightarrow> (nat \<Rightarrow> ws_event) \<Rightarrow> nat \<Rightarrow> effect list \<Rightarrow> (unit result \<times> effect list) option" where
  "agent_recv lim net g rx i t =
     (case rx i of
        WsEnd ok \<Rightarrow> Some (if ok then Inr () else Inl ConnectionClosedError, t)
      | WsFrame m \<Rightarrow>
          (case handle_message lim net g m t of
             (Inl e, t') \<Rightarrow> Some (Inl e, t')
           | (Inr u, t') \<Rightarrow> agent_recv lim net g rx (Suc i) t'))"


section \<open>A lemma on the handler\<close>

lemma handle_message_skip:
  assumes "json_loads lim m = Inr (PDict kvs)" and "map_of kvs ''type'' \<noteq> Some (PStr ''job'')"
  shows "handle_message lim net g m t = (Inr (), t)"
  using assms by (auto simp: handle_message_def trace_simps split: option.splits)

text \<open>
  C21. While the server keeps the connection open and sends only JSON objects whose
  \<open>type\<close> is not \<open>job\<close>, the loop never returns: the agent keeps serving.
\<close>

theorem agent_recv_open_forever:
  assumes "\<And>j. \<exists>m kvs. rx j = WsFrame m \<and> json_loads lim m = Inr (PDict kvs) \<and> map_of kvs ''type'' \<noteq> Some (PStr ''job'')"
  shows "agent_recv lim net g rx i t = None"
proof -
  have "\<forall>i t. agent_recv lim net g rx i t = None"
  proof (induction rule: agent_recv.fixp_induct)
    case 1
    have adm: "option.admissible (\<lambda>f. \<forall>x y. f x = Some y \<longrightarrow>
        (case x of (((((l, n), g'), r), i), t) \<Rightarrow> \<not> (l = lim \<and> n = net \<and> g' = g \<and> r = rx)))"
      by (rule option_admissible)
    have eq: "(\<lambda>f. \<forall>x y. f x = Some y \<longrightarrow>
        (case x of (((((l, n), g'), r), i), t) \<Rightarrow> \<not> (l = lim \<and> n = net \<and> g' = g \<and> r = rx))) =
      (\<lambda>f. \<forall>i t. f (((((lim, net), g), rx), i), t) = None)"
      by (fastforce simp: fun_eq_iff split: prod.splits)
    show ?case using adm by (simp only: eq curry_conv)
  next
    case 2
    show ?case by simp
  next
    case (3 f)
    show ?case
    proof (intro allI)
      fix i t
      from assms obtain m kvs where "rx i = WsFrame m" and "json_loads lim m = Inr (PDict kvs)"
          and "map_of kvs ''type'' \<noteq> Some (PStr ''job'')"
        by blast
      with 3 show "(case rx i of
          WsFrame m \<Rightarrow> (case handle_message lim net g m t of (Inl e, t') \<Rightarrow> Some (Inl e, t')
                                  | (Inr u, t') \<Rightarrow> f lim net g rx (Suc i) t')
        | WsEnd ok \<Rightarrow> Some (if ok then Inr () else Inl ConnectionClosedError, t)) = None"
        by (simp add: handle_message_skip)
    qed
  qed
  then show ?thesis by blast
qed

section \<open>Witnesses\<close>

theorem agent_recv_open_forever_witness:
  "agent_recv 10 (\<lambda>_. True) ''http://localhost:3000'' (\<lambda>_. WsFrame ''{}'') 0 [] = None"
proof -
  have "json_loads 10 ''{}'' = Inr (PDict [])" by code_simp
  then show ?thesis by (intro agent_recv_open_forever) simp
qed

end
