(* ===== verification/Chain.thy ===== *)
theory Chain
  imports Prelude
begin

text \<open>
  The Ethereum side that \<^verbatim>\<open>src/examples/web3py-quickstart.py\<close> talks to: contract
  calls, transactions and signed transactions; the JSON-RPC interface the script uses
  (\<open>rpc\<close>: transaction count, gas estimation, fee data, raw transaction submission);
  and two nodes that implement it. \<open>geth_node\<close> keeps sent transactions in a pool
  until a block includes them, and answers \<^verbatim>\<open>eth_getTransactionCount\<close> for the
  \<open>latest\<close> block, as go-ethereum does; \<open>dev_node\<close> mines every accepted
  transaction at once, as a development chain with automining does. The node's
  admission rule (nonce too low, slot replacement only with a 10\% price bump) is
  go-ethereum's transaction pool rule, after its check that the priority fee does not
  exceed the fee cap. The blocks the environment mines between calls
  form the step relation \<open>node_step\<close>, whose reachable states keep every account's
  mined nonces consecutive from 0.
\<close>

section \<open>Transactions\<close>

type_synonym address = "160 word"
type_synonym bytes = "8 word list"

text \<open>A Python argument of a contract call, as the script hands it to web3.\<close>

datatype arg = ArgInt int | ArgStr string | ArgBool bool | ArgBytes bytes | ArgList "arg list"

record call =
  fn_name :: string
  fn_args :: "arg list"

record tx =
  tx_from :: address
  tx_to :: address
  tx_nonce :: nat
  tx_max_fee :: nat
  tx_tip :: nat
  tx_call :: call

record signed_tx =
  stx :: tx
  signer :: address

section \<open>The RPC interface\<close>

text \<open>
  What the script needs from a node \<open>'n\<close>: the transaction count of an address at
  the \<open>latest\<close> block, whether \<^verbatim>\<open>eth_estimateGas\<close> succeeds for a call, the base
  fee of the latest block and the suggested priority fee, and the effect of
  \<^verbatim>\<open>eth_sendRawTransaction\<close>.
\<close>

record 'n rpc =
  rpc_count :: "'n \<Rightarrow> address \<Rightarrow> nat"
  rpc_estimate_ok :: "'n \<Rightarrow> address \<Rightarrow> address \<Rightarrow> call \<Rightarrow> bool"
  rpc_base_fee :: "'n \<Rightarrow> nat"
  rpc_tip :: "'n \<Rightarrow> nat"
  rpc_send :: "'n \<Rightarrow> signed_tx \<Rightarrow> 'n result"

section \<open>A node with a transaction pool\<close>

record node =
  mined :: "signed_tx list"
  pool :: "signed_tx list"
  base_fee :: nat
  tip_hint :: nat

definition genesis :: "nat \<Rightarrow> nat \<Rightarrow> node" where
  "genesis b t = \<lparr>mined = [], pool = [], base_fee = b, tip_hint = t\<rparr>"

definition tx_count :: "node \<Rightarrow> address \<Rightarrow> nat" where
  "tx_count n a = length (filter (\<lambda>s. signer s = a) (mined n))"

definition same_slot :: "signed_tx \<Rightarrow> signed_tx \<Rightarrow> bool" where
  "same_slot s p \<longleftrightarrow> signer p = signer s \<and> tx_nonce (stx p) = tx_nonce (stx s)"

text \<open>
  go-ethereum's replacement rule (\<^verbatim>\<open>legacypool\<close> list \<open>Add\<close> with \<open>PriceBump\<close> 10):
  the new transaction must have a strictly higher fee cap and tip, each at least the
  old one times 110, divided by 100 and rounded down (go-ethereum's big-integer threshold).
\<close>

definition price_bump :: "signed_tx \<Rightarrow> signed_tx \<Rightarrow> bool" where
  "price_bump old new \<longleftrightarrow>
     tx_max_fee (stx old) < tx_max_fee (stx new) \<and> tx_tip (stx old) < tx_tip (stx new) \<and>
     110 * tx_max_fee (stx old) div 100 \<le> tx_max_fee (stx new) \<and> 110 * tx_tip (stx old) div 100 \<le> tx_tip (stx new)"

definition pool_send :: "node \<Rightarrow> signed_tx \<Rightarrow> node result" where
  "pool_send n s =
     (if tx_max_fee (stx s) < tx_tip (stx s)
      then Inl (ValueError ''max priority fee per gas higher than max fee per gas'')
      else if tx_nonce (stx s) < tx_count n (signer s) then Inl (ValueError ''nonce too low'')
      else case find (same_slot s) (pool n) of
        None \<Rightarrow> Inr (n\<lparr>pool := pool n @ [s]\<rparr>)
      | Some p \<Rightarrow>
          if p = s then Inl (ValueError ''already known'')
          else if price_bump p s then Inr (n\<lparr>pool := map (\<lambda>q. if q = p then s else q) (pool n)\<rparr>)
          else Inl (ValueError ''replacement transaction underpriced''))"

definition include_tx :: "node \<Rightarrow> signed_tx \<Rightarrow> node" where
  "include_tx n s = n\<lparr>mined := mined n @ [s], pool := remove1 s (pool n)\<rparr>"

text \<open>
  The contracts' behaviour is not in this repository: \<open>ok\<close> says whether a call
  estimates without reverting, given the mined history.
\<close>

definition geth_node :: "(signed_tx list \<Rightarrow> address \<Rightarrow> address \<Rightarrow> call \<Rightarrow> bool) \<Rightarrow> node rpc" where
  "geth_node ok =
     \<lparr>rpc_count = tx_count, rpc_estimate_ok = (\<lambda>n. ok (mined n)), rpc_base_fee = base_fee,
      rpc_tip = tip_hint, rpc_send = pool_send\<rparr>"

definition dev_send :: "node \<Rightarrow> signed_tx \<Rightarrow> node result" where
  "dev_send n s = (case pool_send n s of Inl e \<Rightarrow> Inl e | Inr n' \<Rightarrow> Inr (include_tx n' s))"

definition dev_node :: "(signed_tx list \<Rightarrow> address \<Rightarrow> address \<Rightarrow> call \<Rightarrow> bool) \<Rightarrow> node rpc" where
  "dev_node ok = (geth_node ok)\<lparr>rpc_send := dev_send\<rparr>"

section \<open>What the environment does between two calls\<close>

inductive node_step :: "node \<Rightarrow> node \<Rightarrow> bool" where
  mine: "s \<in> set (pool n) \<Longrightarrow> tx_nonce (stx s) = tx_count n (signer s) \<Longrightarrow> node_step n (include_tx n s)"
| fees: "node_step n (n\<lparr>base_fee := b, tip_hint := t\<rparr>)"
| other: "pool_send n s = Inr n' \<Longrightarrow> node_step n n'"

definition node_wf :: "node \<Rightarrow> bool" where
  "node_wf n \<longleftrightarrow>
     (\<forall>a. map (\<lambda>s. tx_nonce (stx s)) (filter (\<lambda>s. signer s = a) (mined n)) = [0..<tx_count n a])
   \<and> (\<forall>s \<in> set (pool n). tx_count n (signer s) \<le> tx_nonce (stx s))
   \<and> distinct (map (\<lambda>s. (signer s, tx_nonce (stx s))) (pool n))"

section \<open>Lemmas: admission, inclusion, and the invariant\<close>

lemma same_slot_refl [simp]: "same_slot s s"
  by (simp add: same_slot_def)

lemma pool_send_Inr:
  assumes "pool_send n s = Inr n'"
  shows "mined n' = mined n" and "base_fee n' = base_fee n" and "tip_hint n' = tip_hint n"
    and "find (same_slot s) (pool n') = Some s"
  using assms
  by (auto simp: pool_send_def find_append_new find_replace split: if_splits option.splits)

lemma tx_count_pool_send: "pool_send n s = Inr n' \<Longrightarrow> tx_count n' = tx_count n"
  by (simp add: tx_count_def pool_send_Inr(1) fun_eq_iff)

lemma same_slot_eq: "same_slot s1 = same_slot s2 \<longleftrightarrow> signer s1 = signer s2 \<and> tx_nonce (stx s1) = tx_nonce (stx s2)"
  by (auto simp: same_slot_def fun_eq_iff)

lemma pool_send_same_fees_rejected:
  assumes "find (same_slot s) (pool n) = Some p" and "tx_max_fee (stx p) = tx_max_fee (stx s)"
  shows "\<exists>e. pool_send n s = Inl e"
  using assms by (auto simp: pool_send_def price_bump_def)

lemma dev_send_empty_pool:
  assumes "pool n = []" and "tx_count n (signer s) \<le> tx_nonce (stx s)"
      and "tx_tip (stx s) \<le> tx_max_fee (stx s)"
  shows "dev_send n s = Inr (n\<lparr>mined := mined n @ [s]\<rparr>)"
  using assms by (simp add: dev_send_def pool_send_def include_tx_def)

lemma tx_count_snoc: "tx_count (n\<lparr>mined := mined n @ [s]\<rparr>) a = tx_count n a + (if signer s = a then 1 else 0)"
  by (simp add: tx_count_def)

lemma mined_include_tx [simp]: "mined (include_tx n s) = mined n @ [s]"
  by (simp add: include_tx_def)

lemma pool_include_tx [simp]: "pool (include_tx n s) = remove1 s (pool n)"
  by (simp add: include_tx_def)

lemma pool_send_wf:
  assumes wf: "node_wf n" and sent: "pool_send n s = Inr n'"
  shows "node_wf n'"
proof (cases "find (same_slot s) (pool n)")
  case None
  with sent have n': "n' = n\<lparr>pool := pool n @ [s]\<rparr>" and "tx_count n (signer s) \<le> tx_nonce (stx s)"
    by (auto simp: pool_send_def split: if_splits)
  moreover from None have "\<forall>q \<in> set (pool n). \<not> same_slot s q"
    by (simp add: find_None_iff)
  ultimately show ?thesis
    using wf by (auto simp: node_wf_def tx_count_def same_slot_def)
next
  case (Some p)
  with sent have n': "n' = n\<lparr>pool := map (\<lambda>q. if q = p then s else q) (pool n)\<rparr>"
      and le: "tx_count n (signer s) \<le> tx_nonce (stx s)"
    by (auto simp: pool_send_def split: if_splits)
  from Some have "same_slot s p"
    by (auto simp: find_Some_iff)
  then have "(\<lambda>q. (signer q, tx_nonce (stx q))) s = (\<lambda>q. (signer q, tx_nonce (stx q))) p"
    by (simp add: same_slot_def)
  then have slots: "map (\<lambda>q. (signer q, tx_nonce (stx q))) (pool n') = map (\<lambda>q. (signer q, tx_nonce (stx q))) (pool n)"
    by (simp add: n' map_replace_same)
  have m: "mined n' = mined n" and c: "tx_count n' = tx_count n"
    by (simp_all add: n' tx_count_def fun_eq_iff)
  have pool: "tx_count n' (signer q) \<le> tx_nonce (stx q)" if "q \<in> set (pool n')" for q
  proof -
    from that set_map_replace have "q = s \<or> q \<in> set (pool n)"
      by (fastforce simp: n')
    with wf le show ?thesis
      by (auto simp: node_wf_def c)
  qed
  show ?thesis
    unfolding node_wf_def
  proof (intro conjI)
    show "\<forall>a. map (\<lambda>s. tx_nonce (stx s)) (filter (\<lambda>s. signer s = a) (mined n')) = [0..<tx_count n' a]"
      using wf by (simp add: node_wf_def m c)
    show "\<forall>s \<in> set (pool n'). tx_count n' (signer s) \<le> tx_nonce (stx s)"
      using pool by blast
    show "distinct (map (\<lambda>s. (signer s, tx_nonce (stx s))) (pool n'))"
      using wf by (simp add: node_wf_def slots)
  qed
qed

lemma include_tx_wf:
  assumes wf: "node_wf n" and s: "s \<in> set (pool n)" and k: "tx_nonce (stx s) = tx_count n (signer s)"
  shows "node_wf (include_tx n s)"
proof -
  let ?slot = "\<lambda>q. (signer q, tx_nonce (stx q))"
  have cnt: "tx_count (include_tx n s) a = tx_count n a + (if signer s = a then 1 else 0)" for a
    by (simp add: tx_count_def)
  have mined: "map (\<lambda>q. tx_nonce (stx q)) (filter (\<lambda>q. signer q = a) (mined (include_tx n s)))
      = [0..<tx_count (include_tx n s) a]" for a
    using wf k by (simp add: node_wf_def cnt)
  have pool: "tx_count (include_tx n s) (signer q) \<le> tx_nonce (stx q)" if q: "q \<in> set (pool (include_tx n s))" for q
  proof -
    have qp: "q \<in> set (pool n)" and ne: "?slot q \<noteq> ?slot s"
      using q wf s by (auto simp: node_wf_def dest: subsetD [OF set_remove1_subset]
          distinct_map_remove1_other)
    with wf have "tx_count n (signer q) \<le> tx_nonce (stx q)"
      by (auto simp: node_wf_def)
    with ne k show ?thesis by (auto simp: cnt)
  qed
  have "distinct (map ?slot (pool (include_tx n s)))"
    using wf by (simp add: node_wf_def distinct_map_remove1)
  with mined pool show ?thesis
    by (simp add: node_wf_def)
qed

lemma node_step_wf: "node_step n n' \<Longrightarrow> node_wf n \<Longrightarrow> node_wf n'"
proof (induction rule: node_step.induct)
  case (mine s n)
  from mine.prems mine.hyps show ?case by (rule include_tx_wf)
next
  case (fees n b t)
  then show ?case by (simp add: node_wf_def tx_count_def)
next
  case (other n s n')
  from other.prems other.hyps show ?case by (rule pool_send_wf)
qed

lemma genesis_wf: "node_wf (genesis b t)"
  by (simp add: node_wf_def genesis_def tx_count_def)

lemma node_steps_wf: "node_step\<^sup>*\<^sup>* n n' \<Longrightarrow> node_wf n \<Longrightarrow> node_wf n'"
  by (induction rule: rtranclp_induct) (auto intro: node_step_wf)

lemma mined_nonce_lt:
  assumes "node_wf n" and "s \<in> set (mined n)"
  shows "tx_nonce (stx s) < tx_count n (signer s)"
proof -
  have "tx_nonce (stx s) \<in> set (map (\<lambda>q. tx_nonce (stx q)) (filter (\<lambda>q. signer q = signer s) (mined n)))"
    using assms(2) by auto
  with assms(1) show ?thesis by (simp add: node_wf_def)
qed

lemma pool_send_evicts_slot:
  assumes wf: "node_wf m" and sent: "pool_send m s = Inr m'" and slot: "same_slot s q" and ne: "q \<noteq> s"
  shows "q \<notin> set (pool m')"
proof (cases "find (same_slot s) (pool m)")
  case None
  then have "q \<notin> set (pool m)" using slot by (auto simp: find_None_iff)
  moreover from None sent have "pool m' = pool m @ [s]" by (auto simp: pool_send_def split: if_splits)
  ultimately show ?thesis using ne by simp
next
  case (Some p)
  then have p: "p \<in> set (pool m)" "same_slot s p" by (auto simp: find_Some_iff)
  from Some sent have m': "pool m' = map (\<lambda>x. if x = p then s else x) (pool m)"
    by (auto simp: pool_send_def split: if_splits)
  show ?thesis
  proof
    assume "q \<in> set (pool m')"
    with m' ne have q: "q \<in> set (pool m)" "q \<noteq> p" by (auto split: if_splits)
    have "inj_on (\<lambda>x. (signer x, tx_nonce (stx x))) (set (pool m))"
      using wf by (simp add: node_wf_def distinct_map)
    moreover have "(signer q, tx_nonce (stx q)) = (signer p, tx_nonce (stx p))"
      using slot p(2) by (simp add: same_slot_def)
    ultimately show False using q p(1) by (auto dest: inj_onD)
  qed
qed

lemma pool_send_nonce_ge: "pool_send m s = Inr m' \<Longrightarrow> tx_count m (signer s) \<le> tx_nonce (stx s)"
  by (auto simp: pool_send_def split: if_splits)

lemma pool_send_tip_error:
  "pool_send n s = Inl e \<Longrightarrow>
   e = ValueError ''max priority fee per gas higher than max fee per gas'' \<longleftrightarrow> tx_max_fee (stx s) < tx_tip (stx s)"
  by (auto simp: pool_send_def split: if_splits option.splits)

lemma pool_send_Inr_tip: "pool_send n s = Inr n' \<Longrightarrow> tx_tip (stx s) \<le> tx_max_fee (stx s)"
  by (auto simp: pool_send_def split: if_splits option.splits)

end
