(* ===== verification/Web3Client.thy ===== *)
theory Web3Client
  imports Chain
begin

text \<open>
  \<^verbatim>\<open>src/examples/web3py-quickstart.py\<close>: three functions that post a job, apply for
  one, and commit and then reveal a validation vote, each by building a contract
  transaction with web3, signing it with the local key and sending it raw. The
  functions are written over the RPC interface \<open>'n rpc\<close> of \<open>Chain\<close>, so their
  lemmas hold for every node; the corollaries instantiate them with \<open>geth_node\<close> and
  \<open>dev_node\<close>.
\<close>

section \<open>web3 and eth-account calls\<close>

text \<open>
  A script function runs against the node and either returns or raises; a raise does
  not undo what the node already accepted, so the node is returned in both cases.
\<close>

type_synonym 'n chain_io = "'n \<Rightarrow> unit result \<times> 'n"

text \<open>The \<^verbatim>\<open>LocalAccount\<close> made by \<^verbatim>\<open>w3.eth.account.from_key\<close>.\<close>

record account =
  acct_address :: address

text \<open>\<^verbatim>\<open>w3.eth.get_transaction_count(address)\<close>: block identifier \<open>latest\<close> by default.\<close>

definition get_transaction_count :: "'n rpc \<Rightarrow> 'n \<Rightarrow> address \<Rightarrow> nat" where
  "get_transaction_count r n a = rpc_count r n a"

text \<open>
  \<^verbatim>\<open>ContractFunction.build_transaction({"from": ..., "nonce": ...})\<close>: web3 fills
  the gas limit by \<^verbatim>\<open>eth_estimateGas\<close> (a revert raises
  \<^verbatim>\<open>ContractLogicError\<close>), the priority fee from the node and the fee cap as the
  priority fee plus twice the latest base fee; the given \<open>from\<close> and \<open>nonce\<close> are kept.
\<close>

definition build_transaction :: "'n rpc \<Rightarrow> 'n \<Rightarrow> address \<Rightarrow> call \<Rightarrow> address \<Rightarrow> nat \<Rightarrow> tx result" where
  "build_transaction r n to c from nonce =
     (if rpc_estimate_ok r n from to c then
        Inr \<lparr>tx_from = from, tx_to = to, tx_nonce = nonce,
             tx_max_fee = rpc_tip r n + 2 * rpc_base_fee r n, tx_tip = rpc_tip r n, tx_call = c\<rparr>
      else Inl ContractLogicError)"

text \<open>\<^verbatim>\<open>account.sign_transaction(tx)\<close> refuses a \<open>from\<close> that is not the key's address.\<close>

definition sign_transaction :: "account \<Rightarrow> tx \<Rightarrow> signed_tx result" where
  "sign_transaction acct t =
     (if tx_from t = acct_address acct then Inr \<lparr>stx = t, signer = acct_address acct\<rparr>
      else Inl (TypeError ''from field must match the key address''))"

section \<open>The script\<close>

text \<open>
  The block that each function repeats (lines 20 to 25, 30 to 35, 40 to 45, 47 to 52):
  read the nonce, build the transaction with it, sign it, send it.
\<close>

definition send_contract_tx :: "'n rpc \<Rightarrow> account \<Rightarrow> address \<Rightarrow> call \<Rightarrow> 'n chain_io" where
  "send_contract_tx r acct to c n =
     (let nonce = get_transaction_count r n (acct_address acct) in
      case build_transaction r n to c (acct_address acct) nonce of
        Inl e \<Rightarrow> (Inl e, n)
      | Inr t \<Rightarrow> (case sign_transaction acct t of
                  Inl e \<Rightarrow> (Inl e, n)
                | Inr s \<Rightarrow> (case rpc_send r n s of
                            Inl e \<Rightarrow> (Inl e, n)
                          | Inr n' \<Rightarrow> (Inr (), n'))))"

text \<open>\<^verbatim>\<open>Web3.to_wei(1, "ether")\<close>.\<close>

definition one_ether :: int where
  "one_ether = 10 ^ 18"

text \<open>
  \<^verbatim>\<open>post_job\<close>: \<open>now\<close> is \<^verbatim>\<open>int(time.time())\<close>, \<open>keccak\<close> is
  \<^verbatim>\<open>Web3.keccak\<close> on the UTF-8 text.
\<close>

definition post_job :: "'n rpc \<Rightarrow> (string \<Rightarrow> bytes) \<Rightarrow> account \<Rightarrow> address \<Rightarrow> int \<Rightarrow> 'n chain_io" where
  "post_job r keccak acct registry now n =
     (let reward = one_ether; deadline = now + 3600; spec_hash = keccak ''spec'' in
      send_contract_tx r acct registry
        \<lparr>fn_name = ''createJob'',
         fn_args = [ArgInt reward, ArgInt deadline, ArgBytes spec_hash, ArgStr ''ipfs://job'']\<rparr> n)"

definition apply_job :: "'n rpc \<Rightarrow> account \<Rightarrow> address \<Rightarrow> arg \<Rightarrow> arg \<Rightarrow> arg \<Rightarrow> 'n chain_io" where
  "apply_job r acct registry job_id subdomain proof n =
     send_contract_tx r acct registry
       \<lparr>fn_name = ''applyForJob'', fn_args = [job_id, subdomain, proof]\<rparr> n"

definition commit_call :: "arg \<Rightarrow> arg \<Rightarrow> arg \<Rightarrow> arg \<Rightarrow> call" where
  "commit_call job_id commit_hash subdomain proof =
     \<lparr>fn_name = ''commitValidation'', fn_args = [job_id, commit_hash, subdomain, proof]\<rparr>"

definition reveal_call :: "arg \<Rightarrow> arg \<Rightarrow> arg \<Rightarrow> arg \<Rightarrow> arg \<Rightarrow> call" where
  "reveal_call job_id approve salt subdomain proof =
     \<lparr>fn_name = ''revealValidation'', fn_args = [job_id, approve, salt, subdomain, proof]\<rparr>"

definition commit_and_reveal ::
  "'n rpc \<Rightarrow> account \<Rightarrow> address \<Rightarrow> arg \<Rightarrow> arg \<Rightarrow> arg \<Rightarrow> arg \<Rightarrow> arg \<Rightarrow> arg \<Rightarrow> 'n chain_io" where
  "commit_and_reveal r acct validation job_id commit_hash subdomain proof approve salt n =
     (case send_contract_tx r acct validation (commit_call job_id commit_hash subdomain proof) n of
        (Inl e, n1) \<Rightarrow> (Inl e, n1)
      | (Inr u, n1) \<Rightarrow> send_contract_tx r acct validation (reveal_call job_id approve salt subdomain proof) n1)"

section \<open>Specification vocabulary\<close>

text \<open>
  \<open>signed_call r n acct to c\<close>: the signed transaction the send block produces for
  call \<open>c\<close> against node state \<open>n\<close>.
\<close>

definition signed_call :: "'n rpc \<Rightarrow> 'n \<Rightarrow> account \<Rightarrow> address \<Rightarrow> call \<Rightarrow> signed_tx" where
  "signed_call r n acct to c =
     \<lparr>stx = \<lparr>tx_from = acct_address acct, tx_to = to, tx_nonce = rpc_count r n (acct_address acct),
            tx_max_fee = rpc_tip r n + 2 * rpc_base_fee r n, tx_tip = rpc_tip r n, tx_call = c\<rparr>,
      signer = acct_address acct\<rparr>"

section \<open>The send block\<close>

lemma send_contract_tx_eq:
  "send_contract_tx r acct to c n =
     (if rpc_estimate_ok r n (acct_address acct) to c then
        (case rpc_send r n (signed_call r n acct to c) of Inl e \<Rightarrow> (Inl e, n) | Inr n' \<Rightarrow> (Inr (), n'))
      else (Inl ContractLogicError, n))"
  by (simp add: send_contract_tx_def get_transaction_count_def build_transaction_def
      sign_transaction_def signed_call_def)

lemma send_contract_tx_Inr:
  "send_contract_tx r acct to c n = (Inr u, n') \<longleftrightarrow>
     rpc_estimate_ok r n (acct_address acct) to c \<and> rpc_send r n (signed_call r n acct to c) = Inr n'"
  by (auto simp: send_contract_tx_eq split: sum.splits)

text \<open>
  C3. When the send block of a script function succeeds, the one transaction it
  submitted is signed by the account, addressed to the contract, carries the call, and
  its nonce is the account's transaction count reported by the node at call time.
\<close>

theorem send_contract_tx_nonce:
  assumes "send_contract_tx r acct to c n = (Inr (), n')"
  shows "\<exists>s. rpc_send r n s = Inr n' \<and> signer s = acct_address acct \<and>
           tx_nonce (stx s) = rpc_count r n (acct_address acct) \<and> tx_to (stx s) = to \<and> tx_call (stx s) = c"
  using assms by (auto simp: send_contract_tx_Inr signed_call_def)

section \<open>Commit and reveal\<close>

text \<open>
  C4. Against a node that keeps sent transactions pending until a block includes them
  and reports the \<open>latest\<close> transaction count (go-ethereum's default), a call of
  \<^verbatim>\<open>commit_and_reveal\<close> never returns normally: when no block is mined between the
  two sends, the reveal is built with the same nonce and the same fees as the pending
  commit, so the node refuses it as an underpriced replacement (or gas estimation
  fails first, or the commit itself fails).
\<close>

theorem commit_and_reveal_geth_fails:
  "fst (commit_and_reveal (geth_node ok) acct v job_id commit_hash subdomain proof approve salt n) \<noteq> Inr ()"
proof
  let ?r = "geth_node ok"
  let ?c1 = "commit_call job_id commit_hash subdomain proof"
  let ?c2 = "reveal_call job_id approve salt subdomain proof"
  assume run: "fst (commit_and_reveal ?r acct v job_id commit_hash subdomain proof approve salt n) = Inr ()"
  obtain x1 n1 where c1: "send_contract_tx ?r acct v ?c1 n = (x1, n1)"
    by (cases "send_contract_tx ?r acct v ?c1 n")
  obtain x2 n' where c2: "send_contract_tx ?r acct v ?c2 n1 = (x2, n')"
    by (cases "send_contract_tx ?r acct v ?c2 n1")
  from run c1 c2 have "x1 = Inr ()" and "x2 = Inr ()"
    by (auto simp: commit_and_reveal_def split: sum.splits)
  with c1 c2 have commit: "send_contract_tx ?r acct v ?c1 n = (Inr (), n1)"
      and reveal: "send_contract_tx ?r acct v ?c2 n1 = (Inr (), n')"
    by simp_all
  let ?s1 = "signed_call ?r n acct v ?c1" and ?s2 = "signed_call ?r n1 acct v ?c2"
  from commit have sent1: "pool_send n ?s1 = Inr n1"
    by (simp add: send_contract_tx_Inr geth_node_def)
  from reveal have sent2: "pool_send n1 ?s2 = Inr n'"
    by (simp add: send_contract_tx_Inr geth_node_def)
  have slot: "same_slot ?s2 = same_slot ?s1" and fee: "tx_max_fee (stx ?s2) = tx_max_fee (stx ?s1)"
    using pool_send_Inr [OF sent1] tx_count_pool_send [OF sent1]
    by (simp_all add: same_slot_eq signed_call_def geth_node_def)
  from pool_send_Inr(4) [OF sent1] slot have "find (same_slot ?s2) (pool n1) = Some ?s1"
    by simp
  with fee have "\<exists>e. pool_send n1 ?s2 = Inl e"
    by (intro pool_send_same_fees_rejected) simp_all
  with sent2 show False by auto
qed

text \<open>
  C5. Against a development node that mines every accepted transaction at once, with an
  empty pool and contracts that accept both calls, \<^verbatim>\<open>commit_and_reveal\<close> returns
  normally and the chain gains the commit and then the reveal, with consecutive nonces
  starting at the account's transaction count.
\<close>

theorem commit_and_reveal_dev_node:
  assumes "pool n = []"
      and "\<And>h. ok h (acct_address acct) v (commit_call job_id commit_hash subdomain proof)"
      and "\<And>h. ok h (acct_address acct) v (reveal_call job_id approve salt subdomain proof)"
  shows "\<exists>s1 s2. commit_and_reveal (dev_node ok) acct v job_id commit_hash subdomain proof approve salt n =
                  (Inr (), n\<lparr>mined := mined n @ [s1, s2]\<rparr>) \<and>
                tx_call (stx s1) = commit_call job_id commit_hash subdomain proof \<and>
                tx_call (stx s2) = reveal_call job_id approve salt subdomain proof \<and>
                tx_nonce (stx s1) = tx_count n (acct_address acct) \<and>
                tx_nonce (stx s2) = Suc (tx_count n (acct_address acct))"
proof -
  let ?r = "dev_node ok" and ?a = "acct_address acct"
  let ?c1 = "commit_call job_id commit_hash subdomain proof"
  let ?c2 = "reveal_call job_id approve salt subdomain proof"
  let ?s1 = "signed_call ?r n acct v ?c1"
  let ?n1 = "n\<lparr>mined := mined n @ [?s1]\<rparr>"
  let ?s2 = "signed_call ?r ?n1 acct v ?c2"
  have r: "rpc_count ?r = tx_count" "rpc_send ?r = dev_send" "rpc_estimate_ok ?r = (\<lambda>n. ok (mined n))"
      "rpc_tip ?r = tip_hint" "rpc_base_fee ?r = base_fee"
    by (simp_all add: dev_node_def geth_node_def)
  have step1: "send_contract_tx ?r acct v ?c1 n = (Inr (), ?n1)"
    using assms by (simp add: send_contract_tx_eq r dev_send_empty_pool signed_call_def)
  have cnt: "tx_count ?n1 ?a = Suc (tx_count n ?a)"
    by (simp add: tx_count_snoc signed_call_def r)
  have "dev_send ?n1 ?s2 = Inr (?n1\<lparr>mined := mined ?n1 @ [?s2]\<rparr>)"
    using assms(1) by (intro dev_send_empty_pool) (simp_all add: signed_call_def r)
  then have step2: "send_contract_tx ?r acct v ?c2 ?n1 = (Inr (), ?n1\<lparr>mined := mined ?n1 @ [?s2]\<rparr>)"
    using assms(3) unfolding send_contract_tx_eq by (simp add: r)
  have run: "commit_and_reveal ?r acct v job_id commit_hash subdomain proof approve salt n =
      (Inr (), n\<lparr>mined := mined n @ [?s1, ?s2]\<rparr>)"
    by (simp add: commit_and_reveal_def step1 step2)
  show ?thesis
    by (rule exI [of _ ?s1], rule exI [of _ ?s2], simp only: run)
       (simp add: tx_count_snoc signed_call_def r)
qed


section \<open>Witnesses\<close>

theorem send_contract_tx_nonce_witness:
  "\<exists>s. rpc_send (geth_node (\<lambda>_ _ _ _. True)) (genesis 1 1) s =
         Inr ((genesis 1 1)\<lparr>pool := [signed_call (geth_node (\<lambda>_ _ _ _. True)) (genesis 1 1)
                \<lparr>acct_address = 1\<rparr> 2 \<lparr>fn_name = ''applyForJob'', fn_args = []\<rparr>]\<rparr>) \<and>
       signer s = 1 \<and> tx_nonce (stx s) = 0 \<and> tx_to (stx s) = 2 \<and>
       tx_call (stx s) = \<lparr>fn_name = ''applyForJob'', fn_args = []\<rparr>"
proof -
  have run: "send_contract_tx (geth_node (\<lambda>_ _ _ _. True)) \<lparr>acct_address = 1\<rparr> 2
      \<lparr>fn_name = ''applyForJob'', fn_args = []\<rparr> (genesis 1 1) =
    (Inr (), (genesis 1 1)\<lparr>pool := [signed_call (geth_node (\<lambda>_ _ _ _. True)) (genesis 1 1)
                \<lparr>acct_address = 1\<rparr> 2 \<lparr>fn_name = ''applyForJob'', fn_args = []\<rparr>]\<rparr>)"
    by (simp add: send_contract_tx_eq geth_node_def pool_send_def genesis_def tx_count_def signed_call_def)
  from send_contract_tx_nonce [OF run] show ?thesis
    by (simp add: geth_node_def genesis_def tx_count_def)
qed

theorem commit_and_reveal_dev_node_witness:
  "\<exists>s1 s2. commit_and_reveal (dev_node (\<lambda>_ _ _ _. True)) \<lparr>acct_address = 1\<rparr> 3 (ArgInt 7)
        (ArgBytes [1]) (ArgStr ''alice'') (ArgList []) (ArgBool True) (ArgBytes [2]) (genesis 1 1) =
      (Inr (), (genesis 1 1)\<lparr>mined := [s1, s2]\<rparr>) \<and>
      tx_nonce (stx s1) = 0 \<and> tx_nonce (stx s2) = 1"
proof -
  have "pool (genesis 1 1) = []" by (simp add: genesis_def)
  from commit_and_reveal_dev_node [OF this, of "\<lambda>_ _ _ _. True"] show ?thesis
    by (fastforce simp: genesis_def tx_count_def)
qed

end
