(* ===== verification/Web3Interleaving.thy ===== *)
theory Web3Interleaving
  imports Web3Client
begin

text \<open>
  The send block of \<^verbatim>\<open>web3py-quickstart.py\<close> at the granularity of its RPC calls.
  \<open>Web3Client\<close> reads every value from one node state; here each read sees its own
  state (\<open>'n reads\<close>), and between two reads the environment may take any number of
  \<open>node_step\<close>s (\<open>reads_ok\<close>). The reads follow web3's order: the transaction count
  (the \<open>nonce\<close> argument is evaluated before \<^verbatim>\<open>build_transaction\<close> runs), gas
  estimation, then the fee defaults (\<^verbatim>\<open>maxFeePerGas\<close> reads the priority fee and the
  latest base fee, \<^verbatim>\<open>maxPriorityFeePerGas\<close> reads the priority fee again), then
  \<^verbatim>\<open>eth_sendRawTransaction\<close>. \<open>const_reads n\<close> takes every read at \<open>n\<close>.
\<close>

section \<open>The send block, read by read\<close>

record 'n reads =
  at_count :: 'n
  at_estimate :: 'n
  at_tip :: 'n
  at_base :: 'n
  at_tip2 :: 'n
  at_send :: 'n

definition const_reads :: "'n \<Rightarrow> 'n reads" where
  "const_reads n = \<lparr>at_count = n, at_estimate = n, at_tip = n, at_base = n, at_tip2 = n, at_send = n\<rparr>"

text \<open>\<^verbatim>\<open>build_transaction\<close> with its reads taken at the states of \<open>v\<close>.\<close>

definition build_transaction_at :: "'n rpc \<Rightarrow> 'n reads \<Rightarrow> address \<Rightarrow> call \<Rightarrow> address \<Rightarrow> nat \<Rightarrow> tx result" where
  "build_transaction_at r v to c from nonce =
     (if rpc_estimate_ok r (at_estimate v) from to c then
        Inr \<lparr>tx_from = from, tx_to = to, tx_nonce = nonce,
             tx_max_fee = rpc_tip r (at_tip v) + 2 * rpc_base_fee r (at_base v),
             tx_tip = rpc_tip r (at_tip2 v), tx_call = c\<rparr>
      else Inl ContractLogicError)"

definition send_contract_tx_at :: "'n rpc \<Rightarrow> account \<Rightarrow> address \<Rightarrow> call \<Rightarrow> 'n reads \<Rightarrow> unit result \<times> 'n" where
  "send_contract_tx_at r acct to c v =
     (let nonce = get_transaction_count r (at_count v) (acct_address acct) in
      case build_transaction_at r v to c (acct_address acct) nonce of
        Inl e \<Rightarrow> (Inl e, at_estimate v)
      | Inr t \<Rightarrow> (case sign_transaction acct t of
                  Inl e \<Rightarrow> (Inl e, at_send v)
                | Inr s \<Rightarrow> (case rpc_send r (at_send v) s of
                            Inl e \<Rightarrow> (Inl e, at_send v)
                          | Inr n' \<Rightarrow> (Inr (), n'))))"

definition commit_and_reveal_at ::
  "'n rpc \<Rightarrow> account \<Rightarrow> address \<Rightarrow> arg \<Rightarrow> arg \<Rightarrow> arg \<Rightarrow> arg \<Rightarrow> arg \<Rightarrow> arg \<Rightarrow> 'n reads \<Rightarrow> 'n reads \<Rightarrow>
   unit result \<times> 'n" where
  "commit_and_reveal_at r acct validation job_id commit_hash subdomain proof approve salt v1 v2 =
     (case send_contract_tx_at r acct validation (commit_call job_id commit_hash subdomain proof) v1 of
        (Inl e, n1) \<Rightarrow> (Inl e, n1)
      | (Inr u, n1) \<Rightarrow> send_contract_tx_at r acct validation (reveal_call job_id approve salt subdomain proof) v2)"

section \<open>Specification vocabulary\<close>

text \<open>
  \<open>reads_ok step n v\<close>: the states of \<open>v\<close> are reached from \<open>n\<close> in order by
  environment steps. \<open>signed_call_at\<close>: the transaction the block signs.
\<close>

definition reads_ok :: "('n \<Rightarrow> 'n \<Rightarrow> bool) \<Rightarrow> 'n \<Rightarrow> 'n reads \<Rightarrow> bool" where
  "reads_ok step n v \<longleftrightarrow>
     step\<^sup>*\<^sup>* n (at_count v) \<and> step\<^sup>*\<^sup>* (at_count v) (at_estimate v) \<and> step\<^sup>*\<^sup>* (at_estimate v) (at_tip v) \<and>
     step\<^sup>*\<^sup>* (at_tip v) (at_base v) \<and> step\<^sup>*\<^sup>* (at_base v) (at_tip2 v) \<and> step\<^sup>*\<^sup>* (at_tip2 v) (at_send v)"

definition signed_call_at :: "'n rpc \<Rightarrow> 'n reads \<Rightarrow> account \<Rightarrow> address \<Rightarrow> call \<Rightarrow> signed_tx" where
  "signed_call_at r v acct to c =
     \<lparr>stx = \<lparr>tx_from = acct_address acct, tx_to = to, tx_nonce = rpc_count r (at_count v) (acct_address acct),
            tx_max_fee = rpc_tip r (at_tip v) + 2 * rpc_base_fee r (at_base v), tx_tip = rpc_tip r (at_tip2 v),
            tx_call = c\<rparr>,
      signer = acct_address acct\<rparr>"

section \<open>Lemmas\<close>

lemma send_contract_tx_at_eq:
  "send_contract_tx_at r acct to c v =
     (if rpc_estimate_ok r (at_estimate v) (acct_address acct) to c then
        (case rpc_send r (at_send v) (signed_call_at r v acct to c) of
           Inl e \<Rightarrow> (Inl e, at_send v) | Inr n' \<Rightarrow> (Inr (), n'))
      else (Inl ContractLogicError, at_estimate v))"
  by (simp add: send_contract_tx_at_def get_transaction_count_def build_transaction_at_def
      sign_transaction_def signed_call_at_def)

lemma send_contract_tx_at_Inr:
  "send_contract_tx_at r acct to c v = (Inr u, n') \<longleftrightarrow>
     rpc_estimate_ok r (at_estimate v) (acct_address acct) to c \<and> rpc_send r (at_send v) (signed_call_at r v acct to c) = Inr n'"
  by (auto simp: send_contract_tx_at_def get_transaction_count_def build_transaction_at_def sign_transaction_def
                 signed_call_at_def split: sum.splits)

lemma reads_ok_wf:
  assumes "reads_ok node_step n v" and "node_wf n"
  shows "node_wf (at_count v)" and "node_wf (at_send v)"
proof -
  show "node_wf (at_count v)" using assms by (auto simp: reads_ok_def intro: node_steps_wf)
  then show "node_wf (at_send v)" using assms(1) unfolding reads_ok_def
    by (meson node_steps_wf)
qed

lemma reads_ok_wf_estimate:
  assumes "reads_ok node_step n v" and "node_wf n"
  shows "node_wf (at_estimate v)"
  using assms by (auto simp: reads_ok_def intro: node_steps_wf)

lemma send_contract_tx_at_geth_wf:
  assumes v: "reads_ok node_step n v" and wf: "node_wf n"
    and run: "send_contract_tx_at (geth_node ok) acct to c v = (x, n')"
  shows "node_wf n'"
proof -
  have e: "node_wf (at_estimate v)" using v wf by (rule reads_ok_wf_estimate)
  have s: "node_wf (at_send v)" using v wf by (rule reads_ok_wf(2))
  show ?thesis
    using run e s
    by (auto simp: send_contract_tx_at_eq geth_node_def split: if_splits sum.splits intro: pool_send_wf)
qed

lemma node_step_mined: "node_step n n' \<Longrightarrow> set (mined n) \<subseteq> set (mined n')"
  by (induction rule: node_step.induct) (auto dest: pool_send_Inr(1))

lemma node_steps_mined: "node_step\<^sup>*\<^sup>* n n' \<Longrightarrow> set (mined n) \<subseteq> set (mined n')"
  by (induction rule: rtranclp_induct) (auto dest: node_step_mined)

lemma send_contract_tx_at_mined:
  assumes v: "reads_ok node_step n v" and run: "send_contract_tx_at (geth_node ok) acct to c v = (x, n')"
  shows "set (mined (at_count v)) \<subseteq> set (mined n')"
proof -
  have e: "set (mined (at_count v)) \<subseteq> set (mined (at_estimate v))"
    using v by (auto simp: reads_ok_def intro!: node_steps_mined)
  have s: "set (mined (at_count v)) \<subseteq> set (mined (at_send v))"
    using v unfolding reads_ok_def by (meson node_steps_mined rtranclp_trans)
  have "pool_send (at_send v) st = Inr n' \<Longrightarrow> mined n' = mined (at_send v)" for st
    by (rule pool_send_Inr(1))
  then show ?thesis
    using run e s
    by (auto simp: send_contract_tx_at_eq geth_node_def split: if_splits sum.splits)
qed

section \<open>Commit and reveal under interference\<close>

text \<open>
  C13. On a pool node, if the reveal reads the same transaction count as the commit (no
  block with a transaction of the account was mined between the two reads) and
  \<^verbatim>\<open>commit_and_reveal\<close> still returns normally, then the commit transaction is
  neither pending nor mined afterwards: the reveal took the commit's nonce and the slot's
  pending transaction was replaced (by the reveal, when the node's fees rose by 10\% in
  between, or before it by another transaction of the account), so the vote is revealed
  without a commit.
\<close>

theorem commit_and_reveal_at_commit_lost:
  assumes wf: "node_wf n"
      and v1: "reads_ok node_step n v1"
      and c1: "send_contract_tx_at (geth_node ok) acct val (commit_call job_id commit_hash subdomain proof) v1 = (Inr (), n1)"
      and v2: "reads_ok node_step n1 v2"
      and run: "commit_and_reveal_at (geth_node ok) acct val job_id commit_hash subdomain proof approve salt v1 v2 = (Inr (), n')"
      and same: "tx_count (at_count v2) (acct_address acct) = tx_count (at_count v1) (acct_address acct)"
  shows "signed_call_at (geth_node ok) v1 acct val (commit_call job_id commit_hash subdomain proof) \<notin> set (pool n') \<union> set (mined n')"
proof -
  let ?r = "geth_node ok" and ?a = "acct_address acct"
  let ?s1 = "signed_call_at ?r v1 acct val (commit_call job_id commit_hash subdomain proof)"
  let ?s2 = "signed_call_at ?r v2 acct val (reveal_call job_id approve salt subdomain proof)"
  have c2: "send_contract_tx_at ?r acct val (reveal_call job_id approve salt subdomain proof) v2 = (Inr (), n')"
    using run c1 by (simp add: commit_and_reveal_at_def)
  have sent1: "pool_send (at_send v1) ?s1 = Inr n1"
    using c1 by (simp add: send_contract_tx_at_Inr geth_node_def)
  have sent2: "pool_send (at_send v2) ?s2 = Inr n'"
    using c2 by (simp add: send_contract_tx_at_Inr geth_node_def)
  have "node_wf (at_send v1)" by (rule reads_ok_wf(2) [OF v1 wf])
  then have "node_wf n1" using sent1 by (rule pool_send_wf)
  then have wf2: "node_wf (at_send v2)" by (rule reads_ok_wf(2) [OF v2])
  have slot: "same_slot ?s2 ?s1" and ne: "?s1 \<noteq> ?s2"
    using same by (simp_all add: same_slot_def signed_call_at_def geth_node_def commit_call_def reveal_call_def)
  have "?s1 \<notin> set (pool n')" by (rule pool_send_evicts_slot [OF wf2 sent2 slot ne])
  moreover have "?s1 \<notin> set (mined n')"
  proof
    assume "?s1 \<in> set (mined n')"
    then have "?s1 \<in> set (mined (at_send v2))" using pool_send_Inr(1) [OF sent2] by simp
    from mined_nonce_lt [OF wf2 this] have "tx_nonce (stx ?s1) < tx_count (at_send v2) ?a"
      by (simp add: signed_call_at_def)
    moreover have "tx_count (at_send v2) ?a \<le> tx_nonce (stx ?s2)"
      using pool_send_nonce_ge [OF sent2] by (simp add: signed_call_at_def)
    ultimately show False using slot by (simp add: same_slot_def)
  qed
  ultimately show ?thesis by simp
qed

lemma block_between_schedule:
  assumes fresh: "\<forall>s\<in>set (pool n). signer s \<noteq> acct_address acct"
      and ok1: "\<And>h. ok h (acct_address acct) val (commit_call job_id commit_hash subdomain pr)"
      and ok2: "\<And>h. ok h (acct_address acct) val (reveal_call job_id approve salt subdomain pr)"
  shows "\<exists>v1 v2 n1 n'. reads_ok node_step n v1 \<and>
           send_contract_tx_at (geth_node ok) acct val (commit_call job_id commit_hash subdomain pr) v1 = (Inr (), n1) \<and>
           reads_ok node_step n1 v2 \<and>
           commit_and_reveal_at (geth_node ok) acct val job_id commit_hash subdomain pr approve salt v1 v2 = (Inr (), n') \<and>
           signed_call_at (geth_node ok) v1 acct val (commit_call job_id commit_hash subdomain pr) \<in> set (mined (at_count v2))"
proof -
  let ?r = "geth_node ok" and ?a = "acct_address acct"
  let ?c1 = "commit_call job_id commit_hash subdomain pr"
  let ?c2 = "reveal_call job_id approve salt subdomain pr"
  let ?v1 = "const_reads n"
  let ?s1 = "signed_call_at ?r ?v1 acct val ?c1"
  let ?n1 = "n\<lparr>pool := pool n @ [?s1]\<rparr>"
  let ?n2 = "include_tx ?n1 ?s1"
  let ?v2 = "const_reads ?n2"
  let ?s2 = "signed_call_at ?r ?v2 acct val ?c2"
  let ?n' = "?n2\<lparr>pool := pool n @ [?s2]\<rparr>"
  have none1: "find (same_slot ?s1) (pool n) = None"
    using fresh by (auto simp: find_None_iff same_slot_def signed_call_at_def)
  have c1: "send_contract_tx_at ?r acct val ?c1 ?v1 = (Inr (), ?n1)"
    using ok1 none1 by (simp add: send_contract_tx_at_Inr geth_node_def const_reads_def pool_send_def signed_call_at_def)
  have s1_notin: "?s1 \<notin> set (pool n)"
    using fresh by (auto simp: signed_call_at_def)
  have mine: "node_step ?n1 ?n2"
    by (rule node_step.mine) (simp_all add: signed_call_at_def geth_node_def const_reads_def tx_count_def)
  have pool2: "pool ?n2 = pool n"
    using s1_notin by (simp add: remove1_append)
  have cnt2: "tx_count ?n2 ?a = Suc (tx_count n ?a)"
    by (simp add: tx_count_def signed_call_at_def)
  have none2: "find (same_slot ?s2) (pool ?n2) = None"
    using fresh pool2 by (auto simp: find_None_iff same_slot_def signed_call_at_def)
  have c2: "send_contract_tx_at ?r acct val ?c2 ?v2 = (Inr (), ?n')"
    using ok2 none2 pool2
    by (simp add: send_contract_tx_at_Inr geth_node_def const_reads_def pool_send_def signed_call_at_def)
  have reads1: "reads_ok node_step n ?v1" and reads2: "reads_ok node_step ?n1 ?v2"
    using mine by (simp_all add: reads_ok_def const_reads_def)
  show ?thesis
    using reads1 c1 reads2 c2
    by (intro exI [of _ ?v1] exI [of _ ?v2] exI [of _ ?n1] exI [of _ ?n'])
       (simp add: commit_and_reveal_at_def const_reads_def)
qed


text \<open>
  C14. On a pool node, if a block including the commit is mined before the reveal reads
  its transaction count, the commit is never lost: whatever happens to the reveal it
  stays mined, and when \<^verbatim>\<open>commit_and_reveal\<close> returns normally the reveal is pending
  with a nonce above the commit's. \<open>block_between_schedule\<close> shows that such a
  schedule exists whenever the account has nothing pending.
\<close>

theorem commit_and_reveal_at_block_between:
  assumes wf: "node_wf n"
      and v1: "reads_ok node_step n v1"
      and c1: "send_contract_tx_at (geth_node ok) acct val (commit_call job_id commit_hash subdomain proof) v1 = (Inr (), n1)"
      and v2: "reads_ok node_step n1 v2"
      and mined: "signed_call_at (geth_node ok) v1 acct val (commit_call job_id commit_hash subdomain proof) \<in> set (mined (at_count v2))"
      and run: "commit_and_reveal_at (geth_node ok) acct val job_id commit_hash subdomain proof approve salt v1 v2 = (x, n')"
  shows "signed_call_at (geth_node ok) v1 acct val (commit_call job_id commit_hash subdomain proof) \<in> set (mined n') \<and>
         (x = Inr () \<longrightarrow>
            tx_nonce (stx (signed_call_at (geth_node ok) v1 acct val (commit_call job_id commit_hash subdomain proof))) <
            tx_nonce (stx (signed_call_at (geth_node ok) v2 acct val (reveal_call job_id approve salt subdomain proof))) \<and>
            signed_call_at (geth_node ok) v2 acct val (reveal_call job_id approve salt subdomain proof) \<in> set (pool n'))"
proof -
  let ?r = "geth_node ok"
  let ?s1 = "signed_call_at ?r v1 acct val (commit_call job_id commit_hash subdomain proof)"
  let ?s2 = "signed_call_at ?r v2 acct val (reveal_call job_id approve salt subdomain proof)"
  have c2: "send_contract_tx_at ?r acct val (reveal_call job_id approve salt subdomain proof) v2 = (x, n')"
    using run c1 by (simp add: commit_and_reveal_at_def)
  have in_n': "?s1 \<in> set (mined n')"
    using send_contract_tx_at_mined [OF v2 c2] mined by blast
  have wf1: "node_wf n1" using v1 wf c1 by (rule send_contract_tx_at_geth_wf)
  have wf2: "node_wf (at_count v2)" using v2 wf1 by (rule reads_ok_wf(1))
  have lt: "tx_nonce (stx ?s1) < tx_nonce (stx ?s2)"
    using mined_nonce_lt [OF wf2 mined] by (simp add: signed_call_at_def geth_node_def)
  have "x = Inr () \<Longrightarrow> ?s2 \<in> set (pool n')"
  proof -
    assume "x = Inr ()"
    with c2 have "pool_send (at_send v2) ?s2 = Inr n'"
      by (simp add: send_contract_tx_at_Inr geth_node_def)
    from pool_send_Inr(4) [OF this] show "?s2 \<in> set (pool n')" by (auto simp: find_Some_iff)
  qed
  with in_n' lt show ?thesis by blast
qed

section \<open>The two priority-fee reads of one transaction\<close>

text \<open>
  C20. web3 fills \<^verbatim>\<open>maxFeePerGas\<close> and \<^verbatim>\<open>maxPriorityFeePerGas\<close> from two separate
  \<^verbatim>\<open>eth_maxPriorityFeePerGas\<close> reads. On a pool node the send block raises the node's
  \<^verbatim>\<open>max priority fee per gas higher than max fee per gas\<close> error, leaving the node
  as it was, exactly when gas estimation succeeds and the second read exceeds the first
  plus twice the base fee; with one state for every read (the atomic block) this never
  happens.
\<close>

theorem send_contract_tx_at_tip_race:
  "send_contract_tx_at (geth_node ok) acct to c v =
     (Inl (ValueError ''max priority fee per gas higher than max fee per gas''), at_send v) \<longleftrightarrow>
   ok (mined (at_estimate v)) (acct_address acct) to c \<and>
   tip_hint (at_tip v) + 2 * base_fee (at_base v) < tip_hint (at_tip2 v)"
proof (cases "pool_send (at_send v) (signed_call_at (geth_node ok) v acct to c)")
  case (Inl e)
  from pool_send_tip_error [OF Inl] Inl show ?thesis
    by (simp add: send_contract_tx_at_eq geth_node_def signed_call_at_def)
next
  case (Inr n')
  from pool_send_Inr_tip [OF Inr] Inr show ?thesis
    by (simp add: send_contract_tx_at_eq geth_node_def signed_call_at_def)
qed

section \<open>Witnesses\<close>

theorem commit_and_reveal_at_commit_lost_witness:
  "fst (commit_and_reveal_at (geth_node (\<lambda>_ _ _ _. True)) \<lparr>acct_address = 1\<rparr> 3 (ArgInt 7) (ArgBytes [1])
          (ArgStr ''alice'') (ArgList []) (ArgBool True) (ArgBytes [2]) (const_reads (genesis 10 10))
          (const_reads ((genesis 10 10)\<lparr>pool := [signed_call_at (geth_node (\<lambda>_ _ _ _. True)) (const_reads (genesis 10 10))
             \<lparr>acct_address = 1\<rparr> 3 (commit_call (ArgInt 7) (ArgBytes [1]) (ArgStr ''alice'') (ArgList []))],
             base_fee := 20, tip_hint := 20\<rparr>))) = Inr () \<and>
   signed_call_at (geth_node (\<lambda>_ _ _ _. True)) (const_reads (genesis 10 10)) \<lparr>acct_address = 1\<rparr> 3
     (commit_call (ArgInt 7) (ArgBytes [1]) (ArgStr ''alice'') (ArgList [])) \<notin>
   set (pool (snd (commit_and_reveal_at (geth_node (\<lambda>_ _ _ _. True)) \<lparr>acct_address = 1\<rparr> 3 (ArgInt 7) (ArgBytes [1])
          (ArgStr ''alice'') (ArgList []) (ArgBool True) (ArgBytes [2]) (const_reads (genesis 10 10))
          (const_reads ((genesis 10 10)\<lparr>pool := [signed_call_at (geth_node (\<lambda>_ _ _ _. True)) (const_reads (genesis 10 10))
             \<lparr>acct_address = 1\<rparr> 3 (commit_call (ArgInt 7) (ArgBytes [1]) (ArgStr ''alice'') (ArgList []))],
             base_fee := 20, tip_hint := 20\<rparr>))))) \<union>
   set (mined (snd (commit_and_reveal_at (geth_node (\<lambda>_ _ _ _. True)) \<lparr>acct_address = 1\<rparr> 3 (ArgInt 7) (ArgBytes [1])
          (ArgStr ''alice'') (ArgList []) (ArgBool True) (ArgBytes [2]) (const_reads (genesis 10 10))
          (const_reads ((genesis 10 10)\<lparr>pool := [signed_call_at (geth_node (\<lambda>_ _ _ _. True)) (const_reads (genesis 10 10))
             \<lparr>acct_address = 1\<rparr> 3 (commit_call (ArgInt 7) (ArgBytes [1]) (ArgStr ''alice'') (ArgList []))],
             base_fee := 20, tip_hint := 20\<rparr>)))))"
  (is "fst ?run = Inr () \<and> ?s1 \<notin> set (pool (snd ?run)) \<union> set (mined (snd ?run))")
proof -
  let ?r = "geth_node (\<lambda>_ _ _ _. True)" and ?A = "\<lparr>acct_address = 1\<rparr>"
  let ?c1 = "commit_call (ArgInt 7) (ArgBytes [1]) (ArgStr ''alice'') (ArgList [])"
  let ?c2 = "reveal_call (ArgInt 7) (ArgBool True) (ArgBytes [2]) (ArgStr ''alice'') (ArgList [])"
  let ?n1 = "(genesis 10 10)\<lparr>pool := [?s1]\<rparr>"
  let ?m = "(genesis 10 10)\<lparr>pool := [?s1], base_fee := 20, tip_hint := 20\<rparr>"
  let ?s2 = "signed_call_at ?r (const_reads ?m) ?A 3 ?c2"
  have c1: "send_contract_tx_at ?r ?A 3 ?c1 (const_reads (genesis 10 10)) = (Inr (), ?n1)"
    by (simp add: send_contract_tx_at_Inr geth_node_def const_reads_def pool_send_def genesis_def tx_count_def
                  signed_call_at_def)
  have c2: "send_contract_tx_at ?r ?A 3 ?c2 (const_reads ?m) = (Inr (), ?m\<lparr>pool := [?s2]\<rparr>)"
    by (simp add: send_contract_tx_at_Inr geth_node_def const_reads_def pool_send_def genesis_def tx_count_def
                  signed_call_at_def same_slot_def price_bump_def commit_call_def reveal_call_def)
  have run: "?run = (Inr (), ?m\<lparr>pool := [?s2]\<rparr>)"
    by (simp add: commit_and_reveal_at_def c1 c2)
  have v1: "reads_ok node_step (genesis 10 10) (const_reads (genesis 10 10))"
    by (simp add: reads_ok_def const_reads_def)
  have "node_step ?n1 ?m" using node_step.fees [of ?n1 20 20] by simp
  then have v2: "reads_ok node_step ?n1 (const_reads ?m)"
    by (simp add: reads_ok_def const_reads_def)
  have same: "tx_count (at_count (const_reads ?m)) (acct_address ?A) =
      tx_count (at_count (const_reads (genesis 10 10))) (acct_address ?A)"
    by (simp add: const_reads_def tx_count_def genesis_def)
  have "?s1 \<notin> set (pool (snd ?run)) \<union> set (mined (snd ?run))"
    using commit_and_reveal_at_commit_lost [OF genesis_wf v1 c1 v2 run same] run by simp
  with run show ?thesis by simp
qed

theorem commit_and_reveal_at_block_between_witness:
  "\<exists>v1 v2 n1 n'. reads_ok node_step (genesis 10 10) v1 \<and>
     send_contract_tx_at (geth_node (\<lambda>_ _ _ _. True)) \<lparr>acct_address = 1\<rparr> 3
       (commit_call (ArgInt 7) (ArgBytes [1]) (ArgStr ''alice'') (ArgList [])) v1 = (Inr (), n1) \<and>
     reads_ok node_step n1 v2 \<and>
     commit_and_reveal_at (geth_node (\<lambda>_ _ _ _. True)) \<lparr>acct_address = 1\<rparr> 3 (ArgInt 7) (ArgBytes [1])
       (ArgStr ''alice'') (ArgList []) (ArgBool True) (ArgBytes [2]) v1 v2 = (Inr (), n') \<and>
     signed_call_at (geth_node (\<lambda>_ _ _ _. True)) v1 \<lparr>acct_address = 1\<rparr> 3
       (commit_call (ArgInt 7) (ArgBytes [1]) (ArgStr ''alice'') (ArgList [])) \<in> set (mined n') \<and>
     signed_call_at (geth_node (\<lambda>_ _ _ _. True)) v2 \<lparr>acct_address = 1\<rparr> 3
       (reveal_call (ArgInt 7) (ArgBool True) (ArgBytes [2]) (ArgStr ''alice'') (ArgList [])) \<in> set (pool n')"
proof -
  have "\<forall>s\<in>set (pool (genesis 10 10)). signer s \<noteq> acct_address \<lparr>acct_address = 1\<rparr>"
    by (simp add: genesis_def)
  from block_between_schedule [OF this, where ok = "\<lambda>_ _ _ _. True" and val = 3 and job_id = "ArgInt 7"
      and commit_hash = "ArgBytes [1]" and subdomain = "ArgStr ''alice''" and pr = "ArgList []"
      and approve = "ArgBool True" and salt = "ArgBytes [2]"]
  obtain v1 v2 n1 n' where v1: "reads_ok node_step (genesis 10 10) v1"
    and c1: "send_contract_tx_at (geth_node (\<lambda>_ _ _ _. True)) \<lparr>acct_address = 1\<rparr> 3
       (commit_call (ArgInt 7) (ArgBytes [1]) (ArgStr ''alice'') (ArgList [])) v1 = (Inr (), n1)"
    and v2: "reads_ok node_step n1 v2"
    and run: "commit_and_reveal_at (geth_node (\<lambda>_ _ _ _. True)) \<lparr>acct_address = 1\<rparr> 3 (ArgInt 7) (ArgBytes [1])
       (ArgStr ''alice'') (ArgList []) (ArgBool True) (ArgBytes [2]) v1 v2 = (Inr (), n')"
    and m: "signed_call_at (geth_node (\<lambda>_ _ _ _. True)) v1 \<lparr>acct_address = 1\<rparr> 3
       (commit_call (ArgInt 7) (ArgBytes [1]) (ArgStr ''alice'') (ArgList [])) \<in> set (mined (at_count v2))"
    by simp blast
  from commit_and_reveal_at_block_between [OF genesis_wf v1 c1 v2 m run] v1 c1 v2 run
  show ?thesis by blast
qed

theorem send_contract_tx_at_tip_race_witness:
  "reads_ok node_step (genesis 0 10)
     \<lparr>at_count = genesis 0 10, at_estimate = genesis 0 10, at_tip = genesis 0 10, at_base = genesis 0 10,
      at_tip2 = genesis 0 20, at_send = genesis 0 20\<rparr> \<and>
   send_contract_tx_at (geth_node (\<lambda>_ _ _ _. True)) \<lparr>acct_address = 1\<rparr> 3 (commit_call (ArgInt 7) (ArgBytes [1]) (ArgStr ''alice'') (ArgList []))
     \<lparr>at_count = genesis 0 10, at_estimate = genesis 0 10, at_tip = genesis 0 10, at_base = genesis 0 10,
      at_tip2 = genesis 0 20, at_send = genesis 0 20\<rparr> =
   (Inl (ValueError ''max priority fee per gas higher than max fee per gas''), genesis 0 20)"
proof
  have "node_step (genesis 0 10) (genesis 0 20)"
    using node_step.fees [where n = "genesis 0 10" and b = 0 and t = 20] by (simp add: genesis_def)
  then show "reads_ok node_step (genesis 0 10)
     \<lparr>at_count = genesis 0 10, at_estimate = genesis 0 10, at_tip = genesis 0 10, at_base = genesis 0 10,
      at_tip2 = genesis 0 20, at_send = genesis 0 20\<rparr>"
    by (simp add: reads_ok_def)
  show "send_contract_tx_at (geth_node (\<lambda>_ _ _ _. True)) \<lparr>acct_address = 1\<rparr> 3 (commit_call (ArgInt 7) (ArgBytes [1]) (ArgStr ''alice'') (ArgList []))
     \<lparr>at_count = genesis 0 10, at_estimate = genesis 0 10, at_tip = genesis 0 10, at_base = genesis 0 10,
      at_tip2 = genesis 0 20, at_send = genesis 0 20\<rparr> =
   (Inl (ValueError ''max priority fee per gas higher than max fee per gas''), genesis 0 20)"
    using send_contract_tx_at_tip_race [where ok = "\<lambda>_ _ _ _. True" and acct = "\<lparr>acct_address = 1\<rparr>" and to = 3
        and c = "commit_call (ArgInt 7) (ArgBytes [1]) (ArgStr ''alice'') (ArgList [])"
        and v = "\<lparr>at_count = genesis 0 10, at_estimate = genesis 0 10, at_tip = genesis 0 10, at_base = genesis 0 10,
      at_tip2 = genesis 0 20, at_send = genesis 0 20\<rparr>"]
    by (simp add: genesis_def)
qed

end
