(* ===== verification/Web3Setup.thy ===== *)
theory Web3Setup
  imports Json Web3Client
begin

text \<open>
  The module-level setup of \<^verbatim>\<open>src/examples/web3py-quickstart.py\<close> (lines 7 to 14):
  the environment variables, the private key, the two ABI files and the two contract
  objects, in source order, each step raising as the library does; and the three script
  functions over the resulting globals, which is how the module composes the setup with
  the functions of \<open>Web3Client\<close>. \<^verbatim>\<open>Web3(HTTPProvider(url))\<close> does no I/O
  when it is built and is modelled by the URL alone.
\<close>

section \<open>Environment and files\<close>

text \<open>\<^verbatim>\<open>os.environ[k]\<close> raises \<^verbatim>\<open>KeyError\<close> for an unset variable; \<^verbatim>\<open>Path(p).read_text()\<close>
  raises when the file cannot be read (modelled as \<^verbatim>\<open>FileNotFoundError\<close>).\<close>

definition environ :: "(string \<Rightarrow> string option) \<Rightarrow> string \<Rightarrow> string result" where
  "environ env k = (case env k of None \<Rightarrow> Inl (KeyError k) | Some v \<Rightarrow> Inr v)"

definition read_text :: "(string \<Rightarrow> string option) \<Rightarrow> string \<Rightarrow> string result" where
  "read_text fs p = (case fs p of None \<Rightarrow> Inl (FileNotFoundError p) | Some t \<Rightarrow> Inr t)"

section \<open>The private key (line 8)\<close>

text \<open>
  \<^verbatim>\<open>Account.from_key\<close> turns the text into bytes with \<^verbatim>\<open>HexBytes\<close>
  (eth-utils \<^verbatim>\<open>hexstr_to_bytes\<close>: an optional \<open>0x\<close>/\<open>0X\<close> prefix is dropped, an
  odd number of digits gets a leading \<open>0\<close>, a non-hexadecimal digit raises
  \<^verbatim>\<open>ValueError\<close>), then builds an eth-keys \<^verbatim>\<open>PrivateKey\<close>, which wants 32
  bytes whose big-endian value is below the secp256k1 group order; eth-account turns
  that validation error into \<^verbatim>\<open>ValueError\<close>. The address derived from the key
  (secp256k1 and Keccak) is the parameter \<open>derive\<close>; the zero key is outside the model.
\<close>

definition strip_0x :: "string \<Rightarrow> string" where
  "strip_0x s = (if take 2 s = ''0x'' \<or> take 2 s = ''0X'' then drop 2 s else s)"

fun hex_pairs :: "string \<Rightarrow> bytes option" where
  "hex_pairs [] = Some []"
| "hex_pairs [c] = None"
| "hex_pairs (c1 # c2 # cs) =
     (case (hex_value c1, hex_value c2) of
        (Some a, Some b) \<Rightarrow> map_option (Cons (of_nat (16 * a + b))) (hex_pairs cs)
      | _ \<Rightarrow> None)"

definition hexstr_to_bytes :: "string \<Rightarrow> bytes result" where
  "hexstr_to_bytes s =
     (let h = strip_0x s; h' = (if odd (length h) then CHR ''0'' # h else h) in
      case hex_pairs h' of None \<Rightarrow> Inl (ValueError ''Non-hexadecimal digit found'') | Some bs \<Rightarrow> Inr bs)"

definition be_nat :: "bytes \<Rightarrow> nat" where
  "be_nat bs = foldl (\<lambda>n b. 256 * n + unat b) 0 bs"

definition SECP256K1_N :: nat where
  "SECP256K1_N = 115792089237316195423570985008687907852837564279074904382605163141518161494337"

definition from_key :: "(nat \<Rightarrow> address) \<Rightarrow> string \<Rightarrow> account result" where
  "from_key derive key =
     res_bind (hexstr_to_bytes key) (\<lambda>bs.
       if length bs \<noteq> 32 \<or> SECP256K1_N \<le> be_nat bs
       then Inl (ValueError ''The private key must be exactly 32 bytes long'')
       else if be_nat bs = 0 then Inl Unmodelled
       else Inr \<lparr>acct_address = derive (be_nat bs)\<rparr>)"

section \<open>Contract addresses (lines 13 and 14)\<close>

text \<open>
  eth-utils \<^verbatim>\<open>to_checksum_address\<close> (EIP-55): the 40 lower-case hex digits of the
  address, each letter upper-cased when the matching nibble of the Keccak-256 hash of
  that text is above 7; \<open>keccak\<close> is the hash as a parameter. web3's
  \<^verbatim>\<open>validate_address\<close>, called by \<^verbatim>\<open>w3.eth.contract(address=...)\<close>, accepts
  a hex address only in exactly that form; a string that is not a 40-digit hex address
  is taken as an ENS name, resolved over the network, which is outside the model.
\<close>

fun hex_digits :: "nat \<Rightarrow> nat \<Rightarrow> string" where
  "hex_digits 0 x = []"
| "hex_digits (Suc k) x = hex_digits k (x div 16) @ [hex_digit (x mod 16)]"

definition addr_hex :: "address \<Rightarrow> string" where
  "addr_hex a = hex_digits 40 (unat a)"

definition hash_nibble :: "bytes \<Rightarrow> nat \<Rightarrow> nat" where
  "hash_nibble d i = (let b = unat (d ! (i div 2)) in if even i then b div 16 else b mod 16)"

definition upper_char :: "char \<Rightarrow> char" where
  "upper_char c =
     (if 97 \<le> (of_char c :: nat) \<and> (of_char c :: nat) \<le> 122 then char_of (of_char c - (32::nat)) else c)"

definition to_checksum_address :: "(string \<Rightarrow> bytes) \<Rightarrow> address \<Rightarrow> string" where
  "to_checksum_address keccak a =
     (let h = addr_hex a; d = keccak h in
      ''0x'' @ map (\<lambda>(c, i). if 7 < hash_nibble d i then upper_char c else c) (zip h [0..<40]))"

definition hex_to_nat :: "string \<Rightarrow> nat" where
  "hex_to_nat h = foldl (\<lambda>n c. 16 * n + (case hex_value c of None \<Rightarrow> 0 | Some d \<Rightarrow> d)) 0 h"

definition is_hex_address :: "string \<Rightarrow> bool" where
  "is_hex_address s \<longleftrightarrow> length (strip_0x s) = 40 \<and> (\<forall>c\<in>set (strip_0x s). hex_value c \<noteq> None)"

definition parse_address :: "string \<Rightarrow> address" where
  "parse_address s = of_nat (hex_to_nat (strip_0x s))"

definition validate_address :: "(string \<Rightarrow> bytes) \<Rightarrow> string \<Rightarrow> address result" where
  "validate_address keccak s =
     (if is_hex_address s then
        (if s = to_checksum_address keccak (parse_address s) then Inr (parse_address s)
         else if s = lower s then Inl (InvalidAddress ''web3.py only accepts checksum addresses'')
         else Inl (InvalidAddress ''Address has an invalid EIP-55 checksum''))
      else Inl Unmodelled)"


text \<open>The hex text of bytes as a wallet exports a key.\<close>

definition hex_of_bytes :: "bytes \<Rightarrow> string" where
  "hex_of_bytes bs = concat (map (\<lambda>b. hex2 (unat b)) bs)"

section \<open>ABIs and contracts (lines 10 to 14)\<close>

text \<open>
  web3's \<^verbatim>\<open>validate_abi\<close>, run by the contract factory: the ABI must be a list
  of dictionaries, every entry is subscripted with \<open>"type"\<close> to select the
  functions, and no two functions may share a 4-byte selector (\<open>sel\<close>, the selector
  of a function entry, is a parameter). \<^verbatim>\<open>w3.eth.contract(address=a, abi=...)\<close>
  returns a contract bound to \<open>a\<close>, or the unbound factory when \<open>a\<close> is empty.
\<close>

definition is_dict :: "pyval \<Rightarrow> bool" where
  "is_dict v = (case v of PDict kvs \<Rightarrow> True | _ \<Rightarrow> False)"

fun abi_functions :: "pyval list \<Rightarrow> pyval list result" where
  "abi_functions [] = Inr []"
| "abi_functions (e # es) =
     res_bind (py_getitem e ''type'') (\<lambda>t.
     res_bind (abi_functions es) (\<lambda>fs. Inr (if t = PStr ''function'' then e # fs else fs)))"

definition validate_abi :: "(pyval \<Rightarrow> bytes) \<Rightarrow> pyval \<Rightarrow> pyval list result" where
  "validate_abi sel abi =
     (case abi of
        PList es \<Rightarrow>
          if \<forall>e\<in>set es. is_dict e then
            res_bind (abi_functions es) (\<lambda>fs.
              if distinct (map sel fs) then Inr es
              else Inl (ValueError ''Abi contains functions with colliding selectors''))
          else Inl (ValueError ''abi is not a list of dictionaries'')
      | _ \<Rightarrow> Inl (ValueError ''abi is not a list''))"

record contract =
  c_address :: "address option"
  c_abi :: "pyval list"

definition eth_contract :: "(string \<Rightarrow> bytes) \<Rightarrow> (pyval \<Rightarrow> bytes) \<Rightarrow> string \<Rightarrow> pyval \<Rightarrow> contract result" where
  "eth_contract keccak sel address abi =
     res_bind (validate_abi sel abi) (\<lambda>abi'.
       if address = [] then Inr \<lparr>c_address = None, c_abi = abi'\<rparr>
       else res_bind (validate_address keccak address) (\<lambda>a. Inr \<lparr>c_address = Some a, c_abi = abi'\<rparr>))"

text \<open>The module's globals after lines 7 to 14, computed in source order.\<close>

record module_globals =
  s_rpc_url :: string
  s_account :: account
  s_registry :: contract
  s_validation :: contract

definition web3_setup ::
  "(string \<Rightarrow> string option) \<Rightarrow> (string \<Rightarrow> string option) \<Rightarrow> nat \<Rightarrow> (nat \<Rightarrow> address) \<Rightarrow>
   (string \<Rightarrow> bytes) \<Rightarrow> (pyval \<Rightarrow> bytes) \<Rightarrow> module_globals result" where
  "web3_setup env fs lim derive keccak sel =
     res_bind (environ env ''RPC_URL'') (\<lambda>rpc_url.
     res_bind (environ env ''PRIVATE_KEY'') (\<lambda>key.
     res_bind (from_key derive key) (\<lambda>account.
     res_bind (read_text fs ''artifacts/JobRegistry.json'') (\<lambda>t1.
     res_bind (json_loads lim t1) (\<lambda>registry_abi.
     res_bind (read_text fs ''artifacts/ValidationModule.json'') (\<lambda>t2.
     res_bind (json_loads lim t2) (\<lambda>validation_abi.
     res_bind (environ env ''JOB_REGISTRY'') (\<lambda>ra.
     res_bind (eth_contract keccak sel ra registry_abi) (\<lambda>registry.
     res_bind (environ env ''VALIDATION_MODULE'') (\<lambda>va.
     res_bind (eth_contract keccak sel va validation_abi) (\<lambda>validation.
       Inr \<lparr>s_rpc_url = rpc_url, s_account = account, s_registry = registry,
            s_validation = validation\<rparr>)))))))))))"

section \<open>The script functions over the module's globals\<close>

text \<open>
  \<^verbatim>\<open>registry.functions.createJob\<close> raises \<^verbatim>\<open>ABIFunctionNotFound\<close> (an
  \<^verbatim>\<open>AttributeError\<close>) when the ABI declares no such function; a factory's
  \<^verbatim>\<open>build_transaction\<close> raises \<^verbatim>\<open>ValueError\<close> before any transaction is
  sent. \<open>commit_and_reveal_main\<close> looks up \<open>revealValidation\<close> only after the
  commit was sent, as line 47 does.
\<close>

definition fn_declared :: "pyval list \<Rightarrow> string \<Rightarrow> bool" where
  "fn_declared abi name \<longleftrightarrow>
     (\<exists>e\<in>set abi. case e of
        PDict kvs \<Rightarrow> map_of kvs ''type'' = Some (PStr ''function'') \<and> map_of kvs ''name'' = Some (PStr name)
      | _ \<Rightarrow> False)"

definition factory_error :: py_error where
  "factory_error =
     ValueError ''When using ContractFunction.build_transaction from a contract factory you must provide a to address''"

definition with_contract :: "contract \<Rightarrow> string \<Rightarrow> (address \<Rightarrow> 'n chain_io) \<Rightarrow> 'n chain_io" where
  "with_contract c name f n =
     (if \<not> fn_declared (c_abi c) name then (Inl (AttributeError name), n)
      else case c_address c of None \<Rightarrow> (Inl factory_error, n) | Some a \<Rightarrow> f a n)"

definition post_job_main :: "module_globals \<Rightarrow> 'n rpc \<Rightarrow> (string \<Rightarrow> bytes) \<Rightarrow> int \<Rightarrow> 'n chain_io" where
  "post_job_main cfg r keccak now =
     with_contract (s_registry cfg) ''createJob'' (\<lambda>registry. post_job r keccak (s_account cfg) registry now)"

definition apply_main :: "module_globals \<Rightarrow> 'n rpc \<Rightarrow> arg \<Rightarrow> arg \<Rightarrow> arg \<Rightarrow> 'n chain_io" where
  "apply_main cfg r job_id subdomain proof =
     with_contract (s_registry cfg) ''applyForJob'' (\<lambda>registry. apply_job r (s_account cfg) registry job_id subdomain proof)"

definition commit_and_reveal_main ::
  "module_globals \<Rightarrow> 'n rpc \<Rightarrow> arg \<Rightarrow> arg \<Rightarrow> arg \<Rightarrow> arg \<Rightarrow> arg \<Rightarrow> arg \<Rightarrow> 'n chain_io" where
  "commit_and_reveal_main cfg r job_id commit_hash subdomain proof approve salt n =
     (case with_contract (s_validation cfg) ''commitValidation''
             (\<lambda>v. send_contract_tx r (s_account cfg) v (commit_call job_id commit_hash subdomain proof)) n of
        (Inl e, n1) \<Rightarrow> (Inl e, n1)
      | (Inr u, n1) \<Rightarrow>
          with_contract (s_validation cfg) ''revealValidation''
            (\<lambda>v. send_contract_tx r (s_account cfg) v (reveal_call job_id approve salt subdomain proof)) n1)"

section \<open>Lemmas on hex digits\<close>

lemma length_hex_digits [simp]: "length (hex_digits k x) = k"
  by (induction k arbitrary: x) simp_all

lemma hex_digits_zero: "hex_digits k 0 = replicate k (CHR ''0'')"
  by (induction k) (simp_all add: hex_digit_def char_of_48 replicate_append_same)

lemma hex_digits_digit: "c \<in> set (hex_digits k x) \<Longrightarrow> \<exists>d<16. c = hex_digit d"
proof (induction k arbitrary: x)
  case (Suc k)
  then consider "c \<in> set (hex_digits k (x div 16))" | "c = hex_digit (x mod 16)" by auto
  then show ?case
  proof cases
    case 1
    then show ?thesis by (rule Suc.IH)
  next
    case 2
    then show ?thesis by (intro exI [of _ "x mod 16"]) simp
  qed
qed simp

lemma hex_to_nat_snoc: "hex_to_nat (xs @ [c]) = 16 * hex_to_nat xs + (case hex_value c of None \<Rightarrow> 0 | Some d \<Rightarrow> d)"
  by (simp add: hex_to_nat_def)

lemma hex_to_nat_hex_digits: "hex_to_nat (hex_digits k x) = x mod 16 ^ k"
proof (induction k arbitrary: x)
  case 0
  then show ?case by (simp add: hex_to_nat_def)
next
  case (Suc k)
  have "x mod 16 ^ Suc k = x mod 16 + 16 * (x div 16 mod 16 ^ k)"
    by (simp add: mod_mult2_eq ac_simps)
  with Suc show ?case by (simp add: hex_to_nat_snoc hex_value_hex_digit)
qed

lemma hex_to_nat_map: "hex_to_nat h = foldl (\<lambda>n d. 16 * n + (case d of None \<Rightarrow> 0 | Some d \<Rightarrow> d)) 0 (map hex_value h)"
  by (simp add: hex_to_nat_def foldl_map)

lemma hex_to_nat_cong: "map hex_value xs = map hex_value ys \<Longrightarrow> hex_to_nat xs = hex_to_nat ys"
  by (simp add: hex_to_nat_map)

lemma hex_digit_cases:
  "d < 16 \<Longrightarrow> (d < 10 \<and> (of_char (hex_digit d) :: nat) = 48 + d) \<or> (10 \<le> d \<and> (of_char (hex_digit d) :: nat) = 87 + d)"
  by (auto simp: hex_digit_def)

lemma hex_value_upper_hex_digit:
  assumes "d < 16"
  shows "hex_value (upper_char (hex_digit d)) = Some d"
proof (cases "d < 10")
  case True
  then have "(of_char (hex_digit d) :: nat) = 48 + d" by (simp add: hex_digit_def)
  then have "upper_char (hex_digit d) = hex_digit d" using True by (simp add: upper_char_def)
  with assms show ?thesis by (simp add: hex_value_hex_digit)
next
  case False
  then have "(of_char (hex_digit d) :: nat) = 87 + d" using assms by (simp add: hex_digit_def)
  then have "upper_char (hex_digit d) = char_of (55 + d)" using False assms
    by (simp add: upper_char_def)
  moreover have "(of_char (char_of (55 + d) :: char) :: nat) = 55 + d" using assms by simp
  ultimately show ?thesis using False assms by (simp add: hex_value_def Let_def)
qed


lemma strip_0x_prefix [simp]: "strip_0x (CHR ''0'' # CHR ''x'' # t) = t"
  by (simp add: strip_0x_def)

lemma hex_to_nat_addr_hex: "of_nat (hex_to_nat (addr_hex a)) = (a :: address)"
proof -
  have "unat a < 2 ^ LENGTH(160)" by (rule unsigned_less)
  then have "unat a < 16 ^ 40" by simp
  then show ?thesis by (simp add: addr_hex_def hex_to_nat_hex_digits)
qed

lemma hex_value_checksum_char:
  assumes "c \<in> set (addr_hex a)"
  shows "hex_value (if b then upper_char c else c) = hex_value c"
proof -
  from hex_digits_digit [of c 40 "unat a"] assms obtain d where "d < 16" "c = hex_digit d"
    by (auto simp: addr_hex_def)
  then show ?thesis by (simp add: hex_value_upper_hex_digit hex_value_hex_digit)
qed

lemma checksum_body_values:
  "map hex_value (map (\<lambda>(c, i). if 7 < hash_nibble d i then upper_char c else c) (zip (addr_hex a) [0..<40])) =
   map hex_value (addr_hex a)"
proof -
  have "map hex_value (map (\<lambda>(c, i). if 7 < hash_nibble d i then upper_char c else c) (zip (addr_hex a) [0..<40])) =
        map (\<lambda>(c, i). hex_value c) (zip (addr_hex a) [0..<40])"
    by (auto intro!: map_cong dest: set_zip_leftD simp: hex_value_checksum_char)
  also have "\<dots> = map hex_value (map fst (zip (addr_hex a) [0..<40]))"
    by (simp add: case_prod_beta' comp_def)
  also have "\<dots> = map hex_value (addr_hex a)"
    by (simp add: addr_hex_def)
  finally show ?thesis .
qed

lemma addr_hex_hex: "c \<in> set (addr_hex a) \<Longrightarrow> hex_value c \<noteq> None"
  using hex_digits_digit [of c 40 "unat a"] by (auto simp: addr_hex_def hex_value_hex_digit)

text \<open>
  C15. web3 accepts the EIP-55 checksummed text of any address and reads back that
  address.
\<close>

theorem checksum_address_roundtrip: "validate_address keccak (to_checksum_address keccak a) = Inr a"
proof -
  let ?g = "\<lambda>(c, i). if 7 < hash_nibble (keccak (addr_hex a)) i then upper_char c else c"
  let ?body = "map ?g (zip (addr_hex a) [0..<40])"
  have s: "to_checksum_address keccak a = CHR ''0'' # CHR ''x'' # ?body"
    by (simp add: to_checksum_address_def Let_def)
  have vals: "map hex_value ?body = map hex_value (addr_hex a)" by (rule checksum_body_values)
  have parse: "parse_address (to_checksum_address keccak a) = a"
    using hex_to_nat_cong [OF vals] by (simp add: s parse_address_def hex_to_nat_addr_hex)
  have "length ?body = 40" by (simp add: addr_hex_def)
  moreover have "\<forall>c\<in>set ?body. hex_value c \<noteq> None"
  proof
    fix c assume "c \<in> set ?body"
    then have "hex_value c \<in> set (map hex_value ?body)" unfolding set_map by (rule imageI)
    then have "hex_value c \<in> hex_value ` set (addr_hex a)" by (simp only: vals set_map)
    then obtain c' where "c' \<in> set (addr_hex a)" and "hex_value c = hex_value c'" by blast
    then show "hex_value c \<noteq> None" using addr_hex_hex by simp
  qed
  ultimately have "is_hex_address (to_checksum_address keccak a)"
    by (simp add: is_hex_address_def s)
  with parse show ?thesis by (simp add: validate_address_def)
qed


section \<open>Lower-case addresses\<close>

lemma addr_hex_char:
  assumes "c \<in> set (addr_hex a)"
  shows "((of_char c :: nat) < 58 \<and> 48 \<le> (of_char c :: nat)) \<or> (97 \<le> (of_char c :: nat) \<and> (of_char c :: nat) \<le> 102)"
proof -
  from hex_digits_digit [of c 40 "unat a"] assms obtain d where "d < 16" "c = hex_digit d"
    by (auto simp: addr_hex_def)
  then show ?thesis using hex_digit_cases [of d] by auto
qed

lemma upper_char_addr_hex:
  assumes "c \<in> set (addr_hex a)"
  shows "upper_char c = c \<longleftrightarrow> (of_char c :: nat) < 97"
proof
  assume u: "upper_char c = c"
  show "(of_char c :: nat) < 97"
  proof (rule ccontr)
    assume "\<not> (of_char c :: nat) < 97"
    with addr_hex_char [OF assms] have r: "97 \<le> (of_char c :: nat)" "(of_char c :: nat) \<le> 102" by auto
    then have "(of_char (upper_char c) :: nat) = of_char c - 32" by (simp add: upper_char_def)
    with u r show False by simp
  qed
qed (simp add: upper_char_def)

lemma lower_addr_hex: "lower (addr_hex a) = addr_hex a"
proof -
  have "lower_char c = c" if "c \<in> set (addr_hex a)" for c
    using addr_hex_char [OF that] by (auto simp: lower_char_def)
  then show ?thesis by (simp add: lower_def map_idI)
qed

lemma addr_hex_checksum_eq:
  "addr_hex a = map (\<lambda>(c, i). if 7 < hash_nibble d i then upper_char c else c) (zip (addr_hex a) [0..<40]) \<longleftrightarrow>
   \<not> (\<exists>i<40. 97 \<le> (of_char (addr_hex a ! i) :: nat) \<and> 7 < hash_nibble d i)"
proof -
  have len: "length (addr_hex a) = 40" by (simp add: addr_hex_def)
  have u: "(addr_hex a ! i = upper_char (addr_hex a ! i)) \<longleftrightarrow> (of_char (addr_hex a ! i) :: nat) < 97"
    if "i < 40" for i
  proof -
    have "addr_hex a ! i \<in> set (addr_hex a)" using that len by simp
    then show ?thesis using upper_char_addr_hex by metis
  qed
  show ?thesis
    using len u by (auto simp: list_eq_iff_nth_eq not_less) (metis not_le)
qed

text \<open>
  C16. The all-lower-case hex text of an address, as many tools print it, is refused by
  web3 with \<^verbatim>\<open>InvalidAddress\<close> exactly when one of its letters should be
  upper case under EIP-55; otherwise it is accepted as that address.
\<close>

theorem lowercase_address:
  "validate_address keccak (''0x'' @ addr_hex a) =
   (if \<exists>i<40. 97 \<le> (of_char (addr_hex a ! i) :: nat) \<and> 7 < hash_nibble (keccak (addr_hex a)) i
    then Inl (InvalidAddress ''web3.py only accepts checksum addresses'') else Inr a)"
proof -
  have hex: "is_hex_address (''0x'' @ addr_hex a)"
    using addr_hex_hex by (simp add: is_hex_address_def addr_hex_def)
  have parse: "parse_address (''0x'' @ addr_hex a) = a"
    by (simp add: parse_address_def hex_to_nat_addr_hex)
  have low: "lower (''0x'' @ addr_hex a) = ''0x'' @ addr_hex a"
    using lower_addr_hex by (simp add: lower_def lower_char_def)
  show ?thesis
    using hex parse low addr_hex_checksum_eq [of a "keccak (addr_hex a)"]
    by (simp add: validate_address_def to_checksum_address_def Let_def)
qed


section \<open>Private keys\<close>

lemma hex_pairs_hex_of_bytes: "hex_pairs (hex_of_bytes bs) = Some bs"
proof (induction bs)
  case (Cons b bs)
  have lt: "unat b div 16 < 16" "unat b mod 16 < 16"
    using unsigned_less [of b, where 'a = nat] by simp_all
  have "(of_nat (16 * (unat b div 16) + unat b mod 16) :: 8 word) = b" by simp
  with Cons lt show ?case by (simp add: hex_of_bytes_def hex2_def hex_value_hex_digit)
qed (simp add: hex_of_bytes_def)

lemma hexstr_to_bytes_roundtrip [simp]: "hexstr_to_bytes (CHR ''0'' # CHR ''x'' # hex_of_bytes bs) = Inr bs"
proof -
  have "length (hex_of_bytes bs) = 2 * length bs"
    by (induction bs) (simp_all add: hex_of_bytes_def hex2_def)
  then show ?thesis by (simp add: hexstr_to_bytes_def hex_pairs_hex_of_bytes)
qed


section \<open>Composition of the setup with the script functions\<close>

lemma web3_setup_Inr:
  assumes "web3_setup env fs lim derive keccak sel = Inr cfg"
  shows "\<exists>ra va t1 t2 regabi valabi.
           env ''JOB_REGISTRY'' = Some ra \<and> env ''VALIDATION_MODULE'' = Some va \<and>
           fs ''artifacts/JobRegistry.json'' = Some t1 \<and> json_loads lim t1 = Inr regabi \<and>
           fs ''artifacts/ValidationModule.json'' = Some t2 \<and> json_loads lim t2 = Inr valabi \<and>
           eth_contract keccak sel ra regabi = Inr (s_registry cfg) \<and>
           eth_contract keccak sel va valabi = Inr (s_validation cfg)"
  using assms
  by (auto simp: web3_setup_def res_bind_eq_Inr environ_def read_text_def split: option.splits)

lemma eth_contract_empty_Inr:
  assumes "eth_contract keccak sel ra abi = Inr c"
  shows "eth_contract keccak sel [] abi = Inr \<lparr>c_address = None, c_abi = c_abi c\<rparr>"
  using assms by (auto simp: eth_contract_def res_bind_eq_Inr split: if_splits)

text \<open>
  C17. Emptying \<^verbatim>\<open>JOB_REGISTRY\<close> in any environment in which the module loads
  still lets it load: \<^verbatim>\<open>w3.eth.contract(address='', ...)\<close> returns an unbound contract
  factory instead of raising, and every later call of \<^verbatim>\<open>post_job\<close> raises before
  sending anything, leaving the node as it was.
\<close>

theorem post_job_main_factory:
  assumes "web3_setup env fs lim derive keccak sel = Inr cfg"
  shows "\<exists>cfg'. web3_setup (env(''JOB_REGISTRY'' \<mapsto> [])) fs lim derive keccak sel = Inr cfg' \<and>
           c_address (s_registry cfg') = None \<and>
           (\<forall>r keccak' now n. post_job_main cfg' r keccak' now n =
              (if fn_declared (c_abi (s_registry cfg')) ''createJob'' then Inl factory_error
               else Inl (AttributeError ''createJob''), n))"
proof -
  let ?reg = "\<lparr>c_address = None, c_abi = c_abi (s_registry cfg)\<rparr>"
  have "web3_setup (env(''JOB_REGISTRY'' \<mapsto> [])) fs lim derive keccak sel = Inr (cfg\<lparr>s_registry := ?reg\<rparr>)"
    using assms
    by (auto simp: web3_setup_def res_bind_eq_Inr environ_def read_text_def
        split: option.splits intro: eth_contract_empty_Inr)
  then show ?thesis
    by (intro exI [of _ "cfg\<lparr>s_registry := ?reg\<rparr>"]) (simp add: post_job_main_def with_contract_def)
qed

text \<open>
  C18. If the validation ABI declares \<open>commitValidation\<close> but not
  \<open>revealValidation\<close>, \<^verbatim>\<open>commit_and_reveal\<close> sends the commit and only then
  raises \<^verbatim>\<open>AttributeError\<close>: the node keeps the commit.
\<close>

theorem commit_and_reveal_main_reveal_undeclared:
  assumes "fn_declared (c_abi (s_validation cfg)) ''commitValidation''"
      and "\<not> fn_declared (c_abi (s_validation cfg)) ''revealValidation''"
      and "c_address (s_validation cfg) = Some v"
      and "send_contract_tx r (s_account cfg) v (commit_call job_id commit_hash subdomain proof) n = (Inr (), n1)"
  shows "commit_and_reveal_main cfg r job_id commit_hash subdomain proof approve salt n =
           (Inl (AttributeError ''revealValidation''), n1)"
  using assms by (simp add: commit_and_reveal_main_def with_contract_def)

lemma be_nat_zeros: "be_nat (replicate k 0 @ bs) = be_nat bs"
proof -
  have "foldl (\<lambda>n b. 256 * n + unat b) 0 (replicate k (0::8 word)) = 0" by (induction k) simp_all
  then show ?thesis by (simp add: be_nat_def)
qed

section \<open>Witnesses\<close>

theorem post_job_main_factory_witness:
  \<open>\<exists>cfg'. web3_setup ((\<lambda>k. if k = ''RPC_URL'' then Some ''http://localhost:8545''
           else if k = ''PRIVATE_KEY'' then Some (''0x'' @ hex_of_bytes (replicate 31 0 @ [1]))
           else if k = ''JOB_REGISTRY'' then Some [] else if k = ''VALIDATION_MODULE'' then Some [] else None)(''JOB_REGISTRY'' \<mapsto> []))
      (\<lambda>_. Some ''[{"type": "function", "name": "createJob"}]'') 100 (\<lambda>k. of_nat k) (\<lambda>_. []) (\<lambda>_. []) = Inr cfg' \<and>
    c_address (s_registry cfg') = None \<and>
    (\<forall>r keccak' now n. post_job_main cfg' r keccak' now n =
       (if fn_declared (c_abi (s_registry cfg')) ''createJob'' then Inl factory_error
        else Inl (AttributeError ''createJob''), n))\<close>
proof -
  have key: "from_key (\<lambda>k. of_nat k) (''0x'' @ hex_of_bytes (replicate 31 0 @ [1])) = Inr \<lparr>acct_address = 1\<rparr>"
    by (simp add: from_key_def be_nat_zeros SECP256K1_N_def) (simp add: be_nat_def)
  have abi: \<open>json_loads 100 ''[{"type": "function", "name": "createJob"}]'' =
      Inr (PList [PDict [(''type'', PStr ''function''), (''name'', PStr ''createJob'')]])\<close>
    by code_simp
  have c: "eth_contract (\<lambda>_. []) (\<lambda>_. []) [] (PList [PDict [(''type'', PStr ''function''), (''name'', PStr ''createJob'')]]) =
      Inr \<lparr>c_address = None, c_abi = [PDict [(''type'', PStr ''function''), (''name'', PStr ''createJob'')]]\<rparr>"
    by code_simp
  have run: \<open>web3_setup
      (\<lambda>k. if k = ''RPC_URL'' then Some ''http://localhost:8545''
           else if k = ''PRIVATE_KEY'' then Some (''0x'' @ hex_of_bytes (replicate 31 0 @ [1]))
           else if k = ''JOB_REGISTRY'' then Some [] else if k = ''VALIDATION_MODULE'' then Some [] else None)
      (\<lambda>_. Some ''[{"type": "function", "name": "createJob"}]'') 100 (\<lambda>k. of_nat k) (\<lambda>_. []) (\<lambda>_. []) =
    Inr \<lparr>s_rpc_url = ''http://localhost:8545'', s_account = \<lparr>acct_address = 1\<rparr>,
      s_registry = \<lparr>c_address = None, c_abi = [PDict [(''type'', PStr ''function''), (''name'', PStr ''createJob'')]]\<rparr>,
      s_validation = \<lparr>c_address = None, c_abi = [PDict [(''type'', PStr ''function''), (''name'', PStr ''createJob'')]]\<rparr>\<rparr>\<close>
    by (simp only: web3_setup_def environ_def read_text_def) (simp add: key [simplified] abi c)
  show ?thesis by (rule post_job_main_factory [OF run])
qed

theorem commit_and_reveal_main_reveal_undeclared_witness:
  "commit_and_reveal_main
     \<lparr>s_rpc_url = ''http://localhost:8545'', s_account = \<lparr>acct_address = 1\<rparr>,
      s_registry = \<lparr>c_address = None, c_abi = []\<rparr>,
      s_validation = \<lparr>c_address = Some 3, c_abi = [PDict [(''type'', PStr ''function''), (''name'', PStr ''commitValidation'')]]\<rparr>\<rparr>
     (dev_node (\<lambda>_ _ _ _. True)) (ArgInt 7) (ArgBytes [1]) (ArgStr ''alice'') (ArgList []) (ArgBool True) (ArgBytes [2])
     (genesis 1 1) =
   (Inl (AttributeError ''revealValidation''),
    (genesis 1 1)\<lparr>mined := [signed_call (dev_node (\<lambda>_ _ _ _. True)) (genesis 1 1) \<lparr>acct_address = 1\<rparr> 3
                      (commit_call (ArgInt 7) (ArgBytes [1]) (ArgStr ''alice'') (ArgList []))]\<rparr>)"
  by (rule commit_and_reveal_main_reveal_undeclared)
     (simp_all add: fn_declared_def send_contract_tx_eq dev_node_def geth_node_def dev_send_empty_pool genesis_def
                    tx_count_def signed_call_def)

theorem checksum_address_roundtrip_witness:
  "validate_address (\<lambda>_. replicate 32 255) (to_checksum_address (\<lambda>_. replicate 32 255) 10) = Inr 10"
  by (rule checksum_address_roundtrip)

theorem lowercase_address_witness:
  "validate_address (\<lambda>_. replicate 32 255) (''0x'' @ addr_hex 10) =
   Inl (InvalidAddress ''web3.py only accepts checksum addresses'')"
proof -
  have "hex_digits 40 10 = hex_digits 39 (10 div 16) @ [hex_digit (10 mod 16)]"
    using hex_digits.simps(2) [of 39 10] by simp
  then have h: "addr_hex 10 = replicate 39 (CHR ''0'') @ [hex_digit 10]"
    by (simp add: addr_hex_def hex_digits_zero)
  have "97 \<le> (of_char (addr_hex 10 ! 39) :: nat)"
    by (simp add: h nth_append hex_digit_def)
  moreover have "7 < hash_nibble (replicate 32 255) 39"
    by (simp add: hash_nibble_def)
  ultimately have "\<exists>i<40. 97 \<le> (of_char (addr_hex 10 ! i) :: nat) \<and> 7 < hash_nibble ((\<lambda>_. replicate 32 (255 :: 8 word)) (addr_hex 10)) i"
    by (intro exI [of _ 39]) simp
  with lowercase_address [of "\<lambda>_. replicate 32 255" 10] show ?thesis by simp
qed

end
