(* ===== verification/Spec2Isabelle.thy ===== *)
theory Spec2Isabelle
  imports AgentStream Web3Interleaving Web3Setup
begin

text \<open>
  \<^bold>\<open>A verification development for the AGIJobs v2 example agents.\<close>

  \<^bold>\<open>The program.\<close> The repository's code is two scripts.
  \<^item> \<^verbatim>\<open>src/examples/gateway_agent.py\<close> registers an agent with a job gateway by an
    HTTP POST, opens a websocket to the same host (the URL with \<open>http\<close> replaced by
    \<open>ws\<close>), announces itself, and for every incoming \<open>job\<close> message prints it, sends
    an acknowledgement carrying the job's \<open>jobId\<close> and posts a result to
    \<open>/jobs/{jobId}/submit\<close>.
  \<^item> \<^verbatim>\<open>src/examples/web3py-quickstart.py\<close> defines \<^verbatim>\<open>post_job\<close>, \<^verbatim>\<open>apply\<close> and
    \<^verbatim>\<open>commit_and_reveal\<close>; each builds a contract transaction with web3, using the
    account's current transaction count as nonce, signs it and sends it raw.
  The gateway, the node and the contracts are outside the repository; they are the
  environment of the scripts.

  \<^bold>\<open>Theories.\<close>
  \<^item> \<open>Prelude\<close>: the exception type \<open>py_error\<close> (every \<^verbatim>\<open>raise\<close> of the scripts
    and their libraries is an \<open>Inl\<close>), ASCII case folding, list lemmas shared by the
    components, the collections \<open>py_simps\<close> and \<open>trace_simps\<close>.
  \<^item> \<open>PyRuntime\<close>: the values \<^verbatim>\<open>json.loads\<close> returns (\<open>pyval\<close>), \<^verbatim>\<open>dict.get\<close>
    and subscripting (\<open>py_get\<close>, \<open>py_getitem\<close>, with \<^verbatim>\<open>AttributeError\<close>,
    \<^verbatim>\<open>KeyError\<close>, \<^verbatim>\<open>TypeError\<close>), \<^verbatim>\<open>str.replace\<close> (\<open>str_replace\<close>, a
    \<^theory_text>\<open>function\<close> with a length measure), \<^verbatim>\<open>repr\<close> and \<^verbatim>\<open>str\<close>
    (\<open>py_repr\<close>, \<open>py_str\<close>).
  \<^item> \<open>Json\<close>: \<^verbatim>\<open>json.dumps\<close> with its defaults (\<open>json_dumps\<close>) and
    \<^verbatim>\<open>json.loads\<close> (\<open>json_loads\<close>), the latter as a pushdown automaton reading one
    character per step, so it terminates by structural recursion on the input; its
    container stack stands for the C scanner's recursion, bounded by \<open>lim\<close>.
  \<^item> \<open>GatewayAgent\<close>: the agent. Its I/O is an explicit trace of effects
    (\<open>effect\<close>: HTTP posts, websocket connect, send and close, printed lines) threaded
    through \<open>io_bind\<close>; a network call is always recorded and fails when the oracle
    \<open>net\<close> says so at its position in the trace, which covers every pattern of
    transport failure. \<open>handle_message\<close> is the loop body (lines 18 to 23),
    \<open>agent_loop\<close> the \<^verbatim>\<open>async for\<close>, \<open>agent_main\<close> the coroutine with its
    \<^verbatim>\<open>async with\<close> (the socket is closed on return and on raise), and
    \<open>gateway_agent\<close> the module, registration POST first.
  \<^item> \<open>AgentStream\<close>: the same \<^verbatim>\<open>async for\<close> over a live connection
    (\<open>agent_recv\<close>): the \<open>i\<close>-th receive is a frame or the end of the connection
    (\<open>ws_event\<close>), and since the server may never close, the loop is a
    \<^theory_text>\<open>partial_function (option)\<close> whose \<open>None\<close> is a loop that never returns.
  \<^item> \<open>Chain\<close>: transactions, the RPC interface \<open>'n rpc\<close> the web3 script needs,
    and two nodes implementing it: \<open>geth_node\<close> (a transaction pool; the count is that
    of the \<open>latest\<close> block; go-ethereum's fee-cap, nonce and replacement rules in
    \<open>pool_send\<close>) and \<open>dev_node\<close> (mines each accepted transaction at once); the
    environment steps \<open>node_step\<close> and the invariant \<open>node_wf\<close>.
  \<^item> \<open>Web3Client\<close>: the web3 script over \<open>'n rpc\<close>: \<open>get_transaction_count\<close>,
    \<open>build_transaction\<close>, \<open>sign_transaction\<close>, the repeated send block
    \<open>send_contract_tx\<close>, and \<open>post_job\<close>, \<open>apply_job\<close> (the source's
    \<^verbatim>\<open>apply\<close>), \<open>commit_and_reveal\<close>. A raise keeps the node state the node
    already accepted.
  \<^item> \<open>Web3Interleaving\<close>: the send block at RPC granularity
    (\<open>send_contract_tx_at\<close>, \<open>build_transaction_at\<close>, \<open>commit_and_reveal_at\<close>):
    each read (count, estimate, priority fee, base fee, priority fee again, send) sees
    its own node state, the states being linked by environment steps (\<open>reads_ok\<close>).
  \<^item> \<open>Web3Setup\<close>: the module-level lines 7 to 14 in source order (\<open>web3_setup\<close>):
    environment lookups, \<^verbatim>\<open>Account.from_key\<close> (\<open>from_key\<close>, with
    \<^verbatim>\<open>HexBytes\<close> decoding \<open>hexstr_to_bytes\<close> and the secp256k1 range), the ABI
    files decoded by \<open>json_loads\<close>, and \<^verbatim>\<open>w3.eth.contract\<close> (\<open>eth_contract\<close>:
    \<open>validate_abi\<close>, EIP-55 \<open>validate_address\<close> with \<open>to_checksum_address\<close>, the
    unbound factory for an empty address). The script functions over the resulting
    globals are \<open>post_job_main\<close>, \<open>apply_main\<close> and \<open>commit_and_reveal_main\<close>
    (\<open>with_contract\<close>: the ABI function lookup and the factory check).

  \<^bold>\<open>What is proved.\<close>
  \<^item> The handler on a job message prints, acknowledges with the same \<open>jobId\<close> and
    submits, in this order (\<open>handle_message_job\<close>); on every trace of the whole
    script, whatever the messages, the environment variable and the network failures,
    each submission comes right after the acknowledgement of the same job
    (\<open>gateway_agent_submit_after_ack\<close>, by the Hoare-style rules \<open>io_inv_*\<close>). Every
    frame the handler sends is the acknowledgement of a job message, and
    \<^verbatim>\<open>json.loads\<close> decodes it to the object carrying that message's \<open>jobId\<close>
    (\<open>ack_read_back\<close>); every frame the agent sends is printable ASCII, whatever
    \<open>jobId\<close> the gateway sent (\<open>gateway_agent_ws_ascii\<close>, through
    \<open>printable_dumps\<close>, the effect of \<^verbatim>\<open>ensure_ascii\<close>).
  \<^item> The send block uses as nonce the count the node reports at call time
    (\<open>send_contract_tx_nonce\<close>). On a pool node, \<open>commit_and_reveal\<close> never
    returns normally, because the reveal gets the pending commit's nonce and fees
    (\<open>commit_and_reveal_geth_fails\<close>); on an automining node it does, with consecutive
    nonces (\<open>commit_and_reveal_dev_node\<close>).
  \<^item> At RPC granularity (\<open>Web3Interleaving\<close>): if the reveal reads the commit's
    transaction count and is still accepted, the commit is neither pending nor mined
    afterwards, i.e. it was replaced (\<open>commit_and_reveal_at_commit_lost\<close>); if a block
    including the commit is mined before the reveal's count read, the commit stays
    mined whatever happens to the reveal, and an accepted reveal has a higher nonce
    (\<open>commit_and_reveal_at_block_between\<close>); because web3 reads the priority fee
    twice, the node rejects the transaction for a tip above its fee cap exactly when the
    second read exceeds the first plus twice the base fee
    (\<open>send_contract_tx_at_tip_race\<close>). These rest on the node invariant \<open>node_wf\<close>,
    kept by every environment step (\<open>node_steps_wf\<close>).
  \<^item> Every value the decoder returns is well formed and within the budget (the
    invariant \<open>dec_inv\<close> of \<open>json_step\<close>), and printing it and decoding the text
    again gives it back (\<open>json_loads_dumps\<close>, through \<open>parses_at\<close>: printing a value
    and reading it from a state waiting for a value delivers it to that state).
  \<^item> While the server keeps the socket open with frames that are not jobs, the
    receive loop never returns (\<open>agent_recv_open_forever\<close>, by fixpoint induction
    with the admissibility of \<open>option_admissible\<close>).
  \<^item> Error paths of the agent, which handles no exception (spec section 7): a failing
    message ends \<open>main\<close> with its exception, closes the socket and drops the later
    messages (\<open>agent_main_handler_error\<close>); a message that is not a job message has
    no effect, whether it is skipped or raises (\<open>handle_message_no_job\<close>); a job
    without \<open>jobId\<close> is printed, then raises \<^verbatim>\<open>KeyError\<close>
    (\<open>handle_message_missing_jobId\<close>).
  \<^item> The websocket URL: the replacement swaps only the scheme exactly when \<open>http\<close>
    occurs nowhere else (\<open>ws_url_scheme_swap\<close>); with an upper-case scheme the agent
    registers and then fails to connect (\<open>gateway_agent_upper_scheme\<close>).
  \<^item> The setup (\<open>Web3Setup\<close>): web3 accepts the checksummed text of every address
    and reads it back (\<open>checksum_address_roundtrip\<close>) and refuses the lower-case text
    exactly when EIP-55 upper-cases one of its letters (\<open>lowercase_address\<close>); in any
    environment in which the module loads, an empty \<^verbatim>\<open>JOB_REGISTRY\<close> still loads
    and makes every \<^verbatim>\<open>post_job\<close> raise without effect (\<open>post_job_main_factory\<close>);
    a validation ABI without \<open>revealValidation\<close> lets the commit go out before the
    script raises (\<open>commit_and_reveal_main_reveal_undeclared\<close>).

  \<^bold>\<open>Bounds and model limits.\<close> Python's \<^verbatim>\<open>str\<close> is modelled as Isabelle's
  \<open>string\<close>, whose characters are the code points 0 to 255; a \<^verbatim>\<open>\\uXXXX\<close>
  escape of 256 or more gives \<open>Unmodelled\<close>. A JSON float is kept as its literal
  text, so its printing agrees with Python's only for literals Python itself prints.
  \<open>lim\<close>, the decoder's nesting budget, stands for the interpreter's remaining
  recursion depth (about 1000 by default), which the script does not set. The
  contracts' logic is an oracle (\<open>ok\<close>) for gas estimation. Keccak-256, the
  derivation of an address from a key and the 4-byte selectors of ABI entries are
  parameters (\<open>keccak\<close>, \<open>derive\<close>, \<open>sel\<close>). The zero private key and ENS names
  given as contract addresses give \<open>Unmodelled\<close>. The encoding of call arguments
  against the ABI and its type checks are not modelled, because the ABI files are not in
  the repository; a file that cannot be read is \<^verbatim>\<open>FileNotFoundError\<close> whatever
  the operating system's reason. Every network call returns, succeeding or raising
  \<^verbatim>\<open>ConnectionError\<close>: \<^verbatim>\<open>requests.post\<close> without a timeout (lines 12 and 23) may
  also block for ever, which is not modelled, so no theorem claims that the agent's
  loop ends. Integers are unbounded: CPython's 4300-digit limit on converting
  between \<^verbatim>\<open>int\<close> and \<^verbatim>\<open>str\<close> is not modelled, which is why the JSON facts
  are stated about values the decoder produced.

  \<^bold>\<open>Not modelled.\<close> The imports (lines 1 to 6 of each script) and
  \<^verbatim>\<open>asyncio.run\<close> have no behaviour of their own beyond what is modelled; the
  gateway service and the contracts are outside the repository.

  Of go-ethereum's admission rules, the fee-cap check, the nonce rule and the
  replacement rule are modelled; the minimum-tip check, the pool's capacity and
  eviction, and balance checks depend on node configuration and account balances
  that the repository does not fix, so they are left to the environment.
\<close>

end
